theory Spec2Isabelle
  imports Complex_Main "HOL-Library.Char_ord" "HOL-Library.List_Lexorder"
begin

section \<open>Strings\<close>

text \<open>
  A JavaScript string is modelled by its UTF-8 bytes (\<^typ>\<open>string\<close>). Every token the
  worker searches for is compared bytewise, and UTF-8 is self-synchronising, so a
  substring test on the bytes agrees with the test on the characters.
\<close>

definition is_upper_ascii :: "char \<Rightarrow> bool" where
  "is_upper_ascii c = (65 \<le> (of_char c :: int) \<and> (of_char c :: int) \<le> 90)"

definition is_lower_ascii :: "char \<Rightarrow> bool" where
  "is_lower_ascii c = (97 \<le> (of_char c :: int) \<and> (of_char c :: int) \<le> 122)"

definition is_ascii :: "char \<Rightarrow> bool" where
  "is_ascii c = ((of_char c :: int) < 128)"

definition ascii_upper :: "char \<Rightarrow> char" where
  "ascii_upper c = (if is_lower_ascii c then char_of ((of_char c :: int) - 32) else c)"

definition ascii_lower :: "char \<Rightarrow> char" where
  "ascii_lower c = (if is_upper_ascii c then char_of ((of_char c :: int) + 32) else c)"

definition starts_with :: "string \<Rightarrow> string \<Rightarrow> bool" where
  "starts_with p s = (take (length p) s = p)"

text \<open>\<^verbatim>\<open>s.includes(k)\<close> on strings: \<open>k\<close> occurs in \<open>s\<close> at some position.\<close>

fun str_includes :: "string \<Rightarrow> string \<Rightarrow> bool" where
  "str_includes [] k = (k = [])"
| "str_includes (c # s) k = (starts_with k (c # s) \<or> str_includes s k)"

text \<open>\<^verbatim>\<open>s.replace(/x/g, '')\<close> for a single character \<open>x\<close>.\<close>

definition remove_all :: "char \<Rightarrow> string \<Rightarrow> string" where
  "remove_all x s = filter (\<lambda>c. c \<noteq> x) s"

text \<open>\<^verbatim>\<open>s.replace(x, y)\<close> with a string pattern: only the first occurrence is replaced.\<close>

fun replace_first :: "char \<Rightarrow> char \<Rightarrow> string \<Rightarrow> string" where
  "replace_first x y [] = []"
| "replace_first x y (c # s) = (if c = x then y # s else c # replace_first x y s)"

definition is_digit :: "char \<Rightarrow> bool" where
  "is_digit c = (48 \<le> (of_char c :: int) \<and> (of_char c :: int) \<le> 57)"

definition digit_val :: "char \<Rightarrow> int" where
  "digit_val c = (of_char c :: int) - 48"

definition digit_char :: "int \<Rightarrow> char" where
  "digit_char n = char_of (48 + n)"

definition digits_val :: "string \<Rightarrow> int" where
  "digits_val s = foldl (\<lambda>a c. 10 * a + digit_val c) 0 s"

text \<open>The decimal digits of a natural number.\<close>

fun digits_of :: "nat \<Rightarrow> string" where
  "digits_of n =
     (if n < 10 then [digit_char (int n)] else digits_of (n div 10) @ [digit_char (int (n mod 10))])"

text \<open>
  The white space that \<^verbatim>\<open>parseInt\<close> and \<^verbatim>\<open>parseFloat\<close> skip (WhiteSpace and
  LineTerminator of ECMAScript), as the number of bytes of the white-space character at
  the head of the string, 0 when there is none.
\<close>

definition ws_len :: "string \<Rightarrow> nat" where
  "ws_len s =
     (if \<exists>c \<in> set [CHR 0x09, CHR 0x0A, CHR 0x0B, CHR 0x0C, CHR 0x0D, CHR 0x20]. starts_with [c] s then 1
      else if starts_with [CHR 0xC2, CHR 0xA0] s then 2
      else if \<exists>p \<in> set [[CHR 0xEF, CHR 0xBB, CHR 0xBF], [CHR 0xE1, CHR 0x9A, CHR 0x80],
                [CHR 0xE2, CHR 0x80, CHR 0x80], [CHR 0xE2, CHR 0x80, CHR 0x81],
                [CHR 0xE2, CHR 0x80, CHR 0x82], [CHR 0xE2, CHR 0x80, CHR 0x83],
                [CHR 0xE2, CHR 0x80, CHR 0x84], [CHR 0xE2, CHR 0x80, CHR 0x85],
                [CHR 0xE2, CHR 0x80, CHR 0x86], [CHR 0xE2, CHR 0x80, CHR 0x87],
                [CHR 0xE2, CHR 0x80, CHR 0x88], [CHR 0xE2, CHR 0x80, CHR 0x89],
                [CHR 0xE2, CHR 0x80, CHR 0x8A], [CHR 0xE2, CHR 0x80, CHR 0xA8],
                [CHR 0xE2, CHR 0x80, CHR 0xA9], [CHR 0xE2, CHR 0x80, CHR 0xAF],
                [CHR 0xE2, CHR 0x81, CHR 0x9F], [CHR 0xE3, CHR 0x80, CHR 0x80]]. starts_with p s then 3
      else 0)"

fun skip_ws_from :: "nat \<Rightarrow> string \<Rightarrow> string" where
  "skip_ws_from k [] = []"
| "skip_ws_from (Suc k) (c # s) = skip_ws_from k s"
| "skip_ws_from 0 (c # s) = (case ws_len (c # s) of 0 \<Rightarrow> c # s | Suc k \<Rightarrow> skip_ws_from k s)"

definition skip_ws :: "string \<Rightarrow> string" where
  "skip_ws s = skip_ws_from 0 s"

section \<open>JavaScript values\<close>

text \<open>
  A Number is modelled by the value it denotes: NaN, an infinity, or a rational. The
  rounding of IEEE doubles is outside the model (a decimal literal and the parse of the
  same digits round to the same double, so equalities between them are kept).
\<close>

datatype jsnum = NaN | PosInf | NegInf | Fin rat

datatype jsval =
    JUndefined
  | JNull
  | JBool bool
  | JNum jsnum
  | JStr string
  | JArr "jsval list"
  | JObj "(string \<times> jsval) list"

datatype error = TypeError string | RangeError string | D1Error string

fun message :: "error \<Rightarrow> string" where
  "message (TypeError m) = m"
| "message (RangeError m) = m"
| "message (D1Error m) = m"

text \<open>ToBoolean: what \<^verbatim>\<open>!v\<close>, \<^verbatim>\<open>v || w\<close> and \<^verbatim>\<open>if (v)\<close> test.\<close>

fun truthy :: "jsval \<Rightarrow> bool" where
  "truthy JUndefined = False"
| "truthy JNull = False"
| "truthy (JBool b) = b"
| "truthy (JNum n) = (n \<noteq> NaN \<and> n \<noteq> Fin 0)"
| "truthy (JStr s) = (s \<noteq> [])"
| "truthy (JArr xs) = True"
| "truthy (JObj kvs) = True"

definition js_or :: "jsval \<Rightarrow> jsval \<Rightarrow> jsval" where
  "js_or a b = (if truthy a then a else b)"

text \<open>
  The built-ins of the JavaScript engine that the model takes as parameters: the case
  mappings of Unicode, the printing of a Number that is not an integer, and what
  \<^verbatim>\<open>new Date(string)\<close> makes of a string that is not a valid \<open>YYYY-MM-DD\<close> date (the
  other formats of the standard, and the heuristics each engine adds). A theorem holds
  for every such environment.
\<close>

record js_env =
  toUpperCase :: "string \<Rightarrow> string"
  toLowerCase :: "string \<Rightarrow> string"
  number_to_string :: "rat \<Rightarrow> string"
  date_parse_other :: "string \<Rightarrow> int option"

text \<open>Number::toString: an integer below \<open>10\<^sup>2\<^sup>1\<close> prints as its decimal digits.\<close>

definition num_to_string :: "js_env \<Rightarrow> jsnum \<Rightarrow> string" where
  "num_to_string env n =
     (case n of
        NaN \<Rightarrow> ''NaN''
      | PosInf \<Rightarrow> ''Infinity''
      | NegInf \<Rightarrow> ''-Infinity''
      | Fin r \<Rightarrow>
          (if r = of_int \<lfloor>r\<rfloor> \<and> \<bar>r\<bar> < 10 ^ 21
           then (if r < 0 then ''-'' else '''') @ digits_of (nat \<bar>\<lfloor>r\<rfloor>\<bar>)
           else number_to_string env r))"

fun join :: "string \<Rightarrow> string list \<Rightarrow> string" where
  "join sep [] = []"
| "join sep [x] = x"
| "join sep (x # y # ys) = x @ sep @ join sep (y # ys)"

text \<open>
  ToString, as \<^verbatim>\<open>String(v)\<close> and \<^verbatim>\<open>parseInt(v)\<close> apply it: the string, or the TypeError
  that the conversion throws. The values are those of a parsed JSON text, so no member of
  an object is a function.

  An object is converted by OrdinaryToPrimitive with the hint \<open>string\<close>, which calls the
  \<^verbatim>\<open>toString\<close> of the object and then its \<^verbatim>\<open>valueOf\<close>, skipping the one that is not
  callable, and throws a TypeError when neither gives a primitive. A plain object inherits
  \<^verbatim>\<open>Object.prototype.toString\<close> and prints as \<^verbatim>\<open>[object Object]\<close>. An object with a
  member \<^verbatim>\<open>toString\<close> of its own (as \<^verbatim>\<open>{"toString": 1}\<close>) hides the inherited method
  behind a value that cannot be called; its \<^verbatim>\<open>valueOf\<close>, its own (not callable) or the
  inherited one (which returns the object itself), gives no primitive: the conversion
  throws.

  An array joins the strings of its elements with commas, \<^verbatim>\<open>null\<close> and \<^verbatim>\<open>undefined\<close>
  elements printing as nothing; it throws when the conversion of an element throws, the
  first such element deciding.
\<close>

definition cannot_convert :: error where
  "cannot_convert = TypeError ''Cannot convert object to primitive value''"

fun ToString :: "js_env \<Rightarrow> jsval \<Rightarrow> error + string"
  and ToString_elems :: "js_env \<Rightarrow> jsval list \<Rightarrow> error + string list" where
  "ToString env JUndefined = Inr ''undefined''"
| "ToString env JNull = Inr ''null''"
| "ToString env (JBool b) = Inr (if b then ''true'' else ''false'')"
| "ToString env (JNum n) = Inr (num_to_string env n)"
| "ToString env (JStr s) = Inr s"
| "ToString env (JArr xs) =
     (case ToString_elems env xs of Inl e \<Rightarrow> Inl e | Inr strs \<Rightarrow> Inr (join '','' strs))"
| "ToString env (JObj kvs) =
     (if ''toString'' \<in> set (map fst kvs) then Inl cannot_convert else Inr ''[object Object]'')"
| "ToString_elems env [] = Inr []"
| "ToString_elems env (x # xs) =
     (case (if x = JUndefined \<or> x = JNull then Inr [] else ToString env x) of
        Inl e \<Rightarrow> Inl e
      | Inr str \<Rightarrow>
          (case ToString_elems env xs of Inl e \<Rightarrow> Inl e | Inr strs \<Rightarrow> Inr (str # strs)))"

section \<open>parseInt, parseFloat, parseVietnameseNumber\<close>

definition read_sign :: "string \<Rightarrow> bool \<times> string" where
  "read_sign s =
     (case s of
        [] \<Rightarrow> (False, [])
      | c # r \<Rightarrow> if c = CHR ''-'' then (True, r) else if c = CHR ''+'' then (False, r) else (False, s))"

definition is_hex_digit :: "char \<Rightarrow> bool" where
  "is_hex_digit c = (is_digit c \<or> (97 \<le> (of_char c :: int) \<and> (of_char c :: int) \<le> 102)
                     \<or> (65 \<le> (of_char c :: int) \<and> (of_char c :: int) \<le> 70))"

definition hex_digit_val :: "char \<Rightarrow> int" where
  "hex_digit_val c =
     (if is_digit c then digit_val c
      else if 97 \<le> (of_char c :: int) then (of_char c :: int) - 87
      else (of_char c :: int) - 55)"

text \<open>
  \<^verbatim>\<open>parseInt(string)\<close> with no radix: skip white space, read a sign, read \<^verbatim>\<open>0x\<close> or
  \<^verbatim>\<open>0X\<close> as the mark of radix 16, and take the longest run of digits; no digit gives NaN.
\<close>

definition parseInt_str :: "string \<Rightarrow> jsnum" where
  "parseInt_str s =
     (let (neg, u) = read_sign (skip_ws s);
          hex = (starts_with ''0x'' u \<or> starts_with ''0X'' u);
          z = (if hex then takeWhile is_hex_digit (drop 2 u) else takeWhile is_digit u);
          n = (if hex then foldl (\<lambda>a c. 16 * a + hex_digit_val c) 0 z else digits_val z)
      in if z = [] then NaN else Fin (if neg then - of_int n else of_int n))"

text \<open>\<^verbatim>\<open>parseInt(v)\<close> on any value: the value is converted to a string first.\<close>

definition parseInt :: "js_env \<Rightarrow> jsval \<Rightarrow> error + jsnum" where
  "parseInt env v = (case ToString env v of Inl e \<Rightarrow> Inl e | Inr s \<Rightarrow> Inr (parseInt_str s))"

text \<open>The exponent part \<^verbatim>\<open>e[+-]digits\<close> of a decimal literal, 0 when there is none.\<close>

definition exponent_part :: "string \<Rightarrow> int" where
  "exponent_part s =
     (case s of
        [] \<Rightarrow> 0
      | c # r \<Rightarrow>
          if c = CHR ''e'' \<or> c = CHR ''E''
          then (let (neg, u) = read_sign r; z = takeWhile is_digit u
                in if z = [] then 0 else if neg then - digits_val z else digits_val z)
          else 0)"

definition pow10 :: "int \<Rightarrow> rat" where
  "pow10 e = (if 0 \<le> e then 10 ^ nat e else 1 / 10 ^ nat (- e))"

text \<open>
  \<^verbatim>\<open>parseFloat(string)\<close>: skip white space and take the longest prefix that is a
  StrDecimalLiteral (a sign, then \<^verbatim>\<open>Infinity\<close> or digits with an optional fraction and
  exponent); no such prefix gives NaN.
\<close>

definition parseFloat :: "string \<Rightarrow> jsnum" where
  "parseFloat s =
     (let (neg, u) = read_sign (skip_ws s)
      in if starts_with ''Infinity'' u then (if neg then NegInf else PosInf)
         else
           (let ip = takeWhile is_digit u;
                r1 = dropWhile is_digit u;
                dot = (r1 \<noteq> [] \<and> hd r1 = CHR ''.'');
                fp = (if dot then takeWhile is_digit (tl r1) else []);
                r2 = (if dot then dropWhile is_digit (tl r1) else r1)
            in if ip = [] \<and> fp = [] then NaN
               else Fin ((if neg then - 1 else 1) * of_int (digits_val (ip @ fp))
                         / 10 ^ length fp * pow10 (exponent_part r2))))"

text \<open>
  \<^verbatim>\<open>function parseVietnameseNumber(value) {
    if (!value) return 0;
    if (typeof value === 'number') return value;
    return parseFloat(String(value).replace(/\./g, '').replace(',', '.')) || 0;
  }\<close>
\<close>

text \<open>The result is the number returned, or the error that \<^verbatim>\<open>String(value)\<close> throws.\<close>

definition parseVietnameseNumber :: "js_env \<Rightarrow> jsval \<Rightarrow> error + jsnum" where
  "parseVietnameseNumber env v =
     (if \<not> truthy v then Inr (Fin 0)
      else case v of
        JNum n \<Rightarrow> Inr n
      | _ \<Rightarrow>
          (case ToString env v of
             Inl e \<Rightarrow> Inl e
           | Inr str \<Rightarrow>
               (let p = parseFloat (replace_first CHR '','' CHR ''.'' (remove_all CHR ''.'' str))
                in Inr (if truthy (JNum p) then p else Fin 0))))"

section \<open>Dates\<close>

text \<open>
  A Date object is its time value: milliseconds since 1970-01-01T00:00:00Z, or NaN for an
  invalid date (\<open>None\<close>). The functions below are those of the ECMAScript specification
  (section "Time Values and Time Range"). The Workers runtime keeps its local time zone at
  UTC, so \<^verbatim>\<open>getFullYear\<close>, \<^verbatim>\<open>getMonth\<close>, \<^verbatim>\<open>getDate\<close>, \<^verbatim>\<open>getDay\<close> and
  \<^verbatim>\<open>new Date(y, m, d)\<close> work on the UTC time value.
\<close>

definition msPerDay :: int where
  "msPerDay = 86400000"

definition Day :: "int \<Rightarrow> int" where
  "Day t = t div msPerDay"

definition TimeWithinDay :: "int \<Rightarrow> int" where
  "TimeWithinDay t = t mod msPerDay"

definition DaysInYear :: "int \<Rightarrow> int" where
  "DaysInYear y =
     (if y mod 4 \<noteq> 0 then 365
      else if y mod 100 \<noteq> 0 then 366
      else if y mod 400 \<noteq> 0 then 365
      else 366)"

definition DayFromYear :: "int \<Rightarrow> int" where
  "DayFromYear y =
     365 * (y - 1970) + (y - 1969) div 4 - (y - 1901) div 100 + (y - 1601) div 400"

text \<open>
  YearFromTime is the largest year \<open>y\<close> with \<open>DayFromYear y \<le> d\<close>. It is computed from
  an estimate over the 400-year cycle of 146097 days, which is off by one year at most
  (lemma \<open>YearFromDay_iff\<close>).
\<close>

definition YearFromDay :: "int \<Rightarrow> int" where
  "YearFromDay d =
     (let y0 = 1970 + (d * 400) div 146097
      in if DayFromYear (y0 + 1) \<le> d then y0 + 1
         else if DayFromYear y0 \<le> d then y0
         else y0 - 1)"

definition YearFromTime :: "int \<Rightarrow> int" where
  "YearFromTime t = YearFromDay (Day t)"

definition InLeapYear :: "int \<Rightarrow> int" where
  "InLeapYear t = (if DaysInYear (YearFromTime t) = 366 then 1 else 0)"

definition DayWithinYear :: "int \<Rightarrow> int" where
  "DayWithinYear t = Day t - DayFromYear (YearFromTime t)"

text \<open>The month (0 = January) and the day of the month of day \<open>d\<close> of a year, \<open>l\<close> its leap day.\<close>

definition month_of_day :: "int \<Rightarrow> int \<Rightarrow> int" where
  "month_of_day l d =
     (if d < 31 then 0
      else if d < 59 + l then 1
      else if d < 90 + l then 2
      else if d < 120 + l then 3
      else if d < 151 + l then 4
      else if d < 181 + l then 5
      else if d < 212 + l then 6
      else if d < 243 + l then 7
      else if d < 273 + l then 8
      else if d < 304 + l then 9
      else if d < 334 + l then 10
      else 11)"

text \<open>The day within the year on which month \<open>m\<close> (0 = January) starts.\<close>

definition month_start :: "int \<Rightarrow> int \<Rightarrow> int" where
  "month_start l m =
     (if m = 0 then 0
      else if m = 1 then 31
      else if m = 2 then 59 + l
      else if m = 3 then 90 + l
      else if m = 4 then 120 + l
      else if m = 5 then 151 + l
      else if m = 6 then 181 + l
      else if m = 7 then 212 + l
      else if m = 8 then 243 + l
      else if m = 9 then 273 + l
      else if m = 10 then 304 + l
      else 334 + l)"

definition MonthFromTime :: "int \<Rightarrow> int" where
  "MonthFromTime t = month_of_day (InLeapYear t) (DayWithinYear t)"

definition DateFromTime :: "int \<Rightarrow> int" where
  "DateFromTime t = DayWithinYear t - month_start (InLeapYear t) (MonthFromTime t) + 1"

definition WeekDay :: "int \<Rightarrow> int" where
  "WeekDay t = (Day t + 4) mod 7"

text \<open>MakeDay for integral arguments: the day number of the given year, month (from 0) and date.\<close>

definition MakeDay :: "int \<Rightarrow> int \<Rightarrow> int \<Rightarrow> int" where
  "MakeDay year month dt =
     (let ym = year + month div 12;
          mn = month mod 12
      in DayFromYear ym + month_start (if DaysInYear ym = 366 then 1 else 0) mn + dt - 1)"

definition MakeDate :: "int \<Rightarrow> int \<Rightarrow> int" where
  "MakeDate day time = day * msPerDay + time"

definition TimeClip :: "int \<Rightarrow> int option" where
  "TimeClip t = (if \<bar>t\<bar> > 8640000000000000 then None else Some t)"

definition DaysInMonth :: "int \<Rightarrow> int \<Rightarrow> int" where
  "DaysInMonth y m =
     (if m = 2 then (if DaysInYear y = 366 then 29 else 28)
      else if m = 4 \<or> m = 6 \<or> m = 9 \<or> m = 11 then 30
      else 31)"

text \<open>A calendar date: year, month 1 to 12, day within the month's length.\<close>

definition valid_date :: "int \<Rightarrow> int \<Rightarrow> int \<Rightarrow> bool" where
  "valid_date y m d = (1 \<le> m \<and> m \<le> 12 \<and> 1 \<le> d \<and> d \<le> DaysInMonth y m)"

text \<open>
  The date-only form of the ECMAScript date-time string format: \<open>YYYY-MM-DD\<close>, or
  \<open>+YYYYYY-MM-DD\<close> and \<open>-YYYYYY-MM-DD\<close> for an expanded year (where \<open>-000000\<close> is not a
  year). The result is the three numbers read, not yet checked to be a date.
\<close>

definition parse_iso_date :: "string \<Rightarrow> (int \<times> int \<times> int) option" where
  "parse_iso_date s =
     (if length s = 10 \<and> list_all is_digit (take 4 s) \<and> s ! 4 = CHR ''-''
         \<and> list_all is_digit (take 2 (drop 5 s)) \<and> s ! 7 = CHR ''-'' \<and> list_all is_digit (drop 8 s)
      then Some (digits_val (take 4 s), digits_val (take 2 (drop 5 s)), digits_val (drop 8 s))
      else if length s = 13 \<and> (s ! 0 = CHR ''+'' \<or> s ! 0 = CHR ''-'')
         \<and> list_all is_digit (take 6 (drop 1 s)) \<and> s ! 7 = CHR ''-''
         \<and> list_all is_digit (take 2 (drop 8 s)) \<and> s ! 10 = CHR ''-'' \<and> list_all is_digit (drop 11 s)
         \<and> \<not> (s ! 0 = CHR ''-'' \<and> digits_val (take 6 (drop 1 s)) = 0)
      then Some ((if s ! 0 = CHR ''-'' then - digits_val (take 6 (drop 1 s)) else digits_val (take 6 (drop 1 s))),
                 digits_val (take 2 (drop 8 s)), digits_val (drop 11 s))
      else None)"

text \<open>
  \<^verbatim>\<open>new Date(string)\<close>: a valid date in the date-only form is midnight UTC of that day;
  any other string is left to the engine.
\<close>

definition Date_parse :: "js_env \<Rightarrow> string \<Rightarrow> int option" where
  "Date_parse env s =
     (case parse_iso_date s of
        None \<Rightarrow> date_parse_other env s
      | Some (y, m, d) \<Rightarrow>
          if valid_date y m d then TimeClip (MakeDate (MakeDay y (m - 1) d) 0)
          else date_parse_other env s)"

text \<open>
  \<^verbatim>\<open>new Date(year, month, date)\<close> with integral arguments: a year from 0 to 99 stands for
  1900 + year.
\<close>

definition Date_ymd :: "int \<Rightarrow> int \<Rightarrow> int \<Rightarrow> int option" where
  "Date_ymd y m dt =
     (let yr = (if 0 \<le> y \<and> y \<le> 99 then 1900 + y else y)
      in TimeClip (MakeDate (MakeDay yr m dt) 0))"

definition getFullYear :: "int option \<Rightarrow> int option" where
  "getFullYear date = map_option YearFromTime date"

definition getMonth :: "int option \<Rightarrow> int option" where
  "getMonth date = map_option MonthFromTime date"

definition getDate :: "int option \<Rightarrow> int option" where
  "getDate date = map_option DateFromTime date"

definition getDay :: "int option \<Rightarrow> int option" where
  "getDay date = map_option WeekDay date"

text \<open>\<^verbatim>\<open>date.setDate(dt)\<close> on a valid date, returning the new time value.\<close>

definition setDate :: "int \<Rightarrow> int \<Rightarrow> int option" where
  "setDate t dt = TimeClip (MakeDate (MakeDay (YearFromTime t) (MonthFromTime t) dt) (TimeWithinDay t))"

definition pad2 :: "int \<Rightarrow> string" where
  "pad2 n = [digit_char (n div 10 mod 10), digit_char (n mod 10)]"

definition pad3 :: "int \<Rightarrow> string" where
  "pad3 n = digit_char (n div 100 mod 10) # pad2 n"

definition pad4 :: "int \<Rightarrow> string" where
  "pad4 n = digit_char (n div 1000 mod 10) # pad3 n"

definition pad6 :: "int \<Rightarrow> string" where
  "pad6 n = digit_char (n div 100000 mod 10) # digit_char (n div 10000 mod 10) # pad4 n"

text \<open>The year of \<^verbatim>\<open>toISOString\<close>: four digits from 0 to 9999, else a sign and six digits.\<close>

definition iso_year :: "int \<Rightarrow> string" where
  "iso_year y =
     (if 0 \<le> y \<and> y \<le> 9999 then pad4 y
      else (if y < 0 then CHR ''-'' else CHR ''+'') # pad6 \<bar>y\<bar>)"

definition iso_date :: "int \<Rightarrow> int \<Rightarrow> int \<Rightarrow> string" where
  "iso_date y m d = iso_year y @ ''-'' @ pad2 m @ ''-'' @ pad2 d"

text \<open>\<^verbatim>\<open>date.toISOString()\<close>: \<open>YYYY-MM-DDTHH:mm:ss.sssZ\<close>; a RangeError on an invalid date.\<close>

definition toISOString :: "int option \<Rightarrow> error + string" where
  "toISOString date =
     (case date of
        None \<Rightarrow> Inl (RangeError ''Invalid time value'')
      | Some t \<Rightarrow>
          Inr (iso_date (YearFromTime t) (MonthFromTime t + 1) (DateFromTime t)
               @ ''T'' @ pad2 (TimeWithinDay t div 3600000)
               @ '':'' @ pad2 (TimeWithinDay t div 60000 mod 60)
               @ '':'' @ pad2 (TimeWithinDay t div 1000 mod 60)
               @ ''.'' @ pad3 (TimeWithinDay t mod 1000) @ ''Z''))"

text \<open>\<^verbatim>\<open>s.split('T')[0]\<close>: the part of \<open>s\<close> before its first \<open>T\<close>.\<close>

definition split_T_0 :: "string \<Rightarrow> string" where
  "split_T_0 s = takeWhile (\<lambda>c. c \<noteq> CHR ''T'') s"

text \<open>
  \<^verbatim>\<open>function getWeekOfYear(date) {
    const start = new Date(date.getFullYear(), 0, 1);
    const diff = date - start;
    const oneWeek = 604800000;
    return Math.ceil((diff + start.getDay() * 86400000) / oneWeek);
  }\<close>
  The quotient of two integers below \<open>2\<^sup>5\<^sup>3\<close> is rounded up exactly.
\<close>

definition getWeekOfYear :: "int option \<Rightarrow> int option" where
  "getWeekOfYear date =
     (case date of
        None \<Rightarrow> None
      | Some t \<Rightarrow>
          (case Date_ymd (YearFromTime t) 0 1 of
             None \<Rightarrow> None
           | Some start \<Rightarrow>
               (let diff = t - start;
                    oneWeek = 604800000
                in Some (- ((- (diff + WeekDay start * 86400000)) div oneWeek)))))"

text \<open>
  \<^verbatim>\<open>function getPreviousPeriod(startDate, endDate) {
    const start = new Date(startDate);
    const end = new Date(endDate);
    const duration = end - start;
    const prevEnd = new Date(start.getTime() - 86400000); // 1 day before start
    const prevStart = new Date(prevEnd.getTime() - duration);
    return {
      startDate: prevStart.toISOString().split('T')[0],
      endDate: prevEnd.toISOString().split('T')[0]
    };
  }\<close>
\<close>

record period =
  prev_startDate :: string
  prev_endDate :: string

text \<open>Arithmetic on time values, NaN absorbing; \<^verbatim>\<open>new Date(number)\<close> clips the range.\<close>

definition nan_minus :: "int option \<Rightarrow> int option \<Rightarrow> int option" where
  "nan_minus a b = (case a of None \<Rightarrow> None | Some x \<Rightarrow> (case b of None \<Rightarrow> None | Some y \<Rightarrow> Some (x - y)))"

definition Date_of_number :: "int option \<Rightarrow> int option" where
  "Date_of_number v = (case v of None \<Rightarrow> None | Some t \<Rightarrow> TimeClip t)"

definition getPreviousPeriod :: "js_env \<Rightarrow> string \<Rightarrow> string \<Rightarrow> error + period" where
  "getPreviousPeriod env startDate endDate =
     (let start = Date_parse env startDate;
          end = Date_parse env endDate;
          duration = nan_minus end start;
          prevEnd = Date_of_number (nan_minus start (Some 86400000));
          prevStart = Date_of_number (nan_minus prevEnd duration)
      in case toISOString prevStart of
           Inl e \<Rightarrow> Inl e
         | Inr ps \<Rightarrow>
             (case toISOString prevEnd of
                Inl e \<Rightarrow> Inl e
              | Inr pe \<Rightarrow> Inr \<lparr>prev_startDate = split_T_0 ps, prev_endDate = split_T_0 pe\<rparr>))"

section \<open>The store\<close>

text \<open>
  The D1 database holds the tables of \<^verbatim>\<open>schema.sql\<close>. A table is the list of its rows in
  insertion order; a column \<open>x\<close> of a table is the field \<open>t_x\<close> of its row record, with
  \<open>t\<close> naming the table (\<open>c\<close> campaign, \<open>d\<close> date, \<open>a\<close> age group, \<open>g\<close> gender, \<open>r\<close>
  region, \<open>f\<close> performance facts, \<open>fd\<close> demographics facts, \<open>fr\<close> region facts). The
  columns \<open>created_at\<close>, filled by the clock of the store, are left out. A value is stored
  as it is bound: the conversions of SQLite's column affinity are not modelled.
\<close>

datatype sqlval = SNull | SNum rat | SText string

record campaign_row =
  c_campaign_id :: int
  c_campaign_name :: string
  c_platform :: string
  c_objective :: string

record date_row =
  d_date_key :: int
  d_full_date :: string
  d_year :: int
  d_quarter :: int
  d_month :: int
  d_month_name :: string
  d_week_of_year :: int
  d_day_of_month :: int
  d_day_of_week :: int
  d_day_name :: string
  d_is_weekend :: int

record age_row =
  a_age_id :: int
  a_age_range :: sqlval

record gender_row =
  g_gender_id :: int
  g_gender :: string

record region_row =
  r_region_id :: int
  r_region_name :: string
  r_region_type :: string

record performance_row =
  f_id :: int
  f_date_key :: sqlval
  f_campaign_id :: sqlval
  f_adset_name :: sqlval
  f_ad_name :: sqlval
  f_indicator :: sqlval
  f_action_key :: sqlval
  f_amount_spent :: sqlval
  f_results :: sqlval
  f_cost_per_result :: sqlval
  f_impressions :: sqlval

record demographics_row =
  fd_id :: int
  fd_date_key :: sqlval
  fd_campaign_id :: sqlval
  fd_action_key :: sqlval
  fd_age_id :: sqlval
  fd_gender_id :: sqlval
  fd_spend :: sqlval
  fd_impressions :: sqlval

record regions_row =
  fr_id :: int
  fr_date_key :: sqlval
  fr_campaign_id :: sqlval
  fr_region_id :: sqlval
  fr_spend :: sqlval
  fr_impressions :: sqlval

text \<open>
  The \<open>seq_\<close> fields are the rows of \<^verbatim>\<open>sqlite_sequence\<close>: the largest key an
  AUTOINCREMENT table has ever used.
\<close>

record store =
  dim_campaign :: "campaign_row list"
  seq_campaign :: int
  dim_date :: "date_row list"
  dim_age_group :: "age_row list"
  seq_age_group :: int
  dim_gender :: "gender_row list"
  seq_gender :: int
  dim_region :: "region_row list"
  seq_region :: int
  fact_ads_performance :: "performance_row list"
  seq_performance :: int
  fact_ads_demographics :: "demographics_row list"
  seq_demographics :: int
  fact_ads_regions :: "regions_row list"
  seq_regions :: int

text \<open>
  \<^verbatim>\<open>INTEGER PRIMARY KEY AUTOINCREMENT\<close>: the new key is one more than the largest key
  the table has ever held.
\<close>

definition next_rowid :: "int \<Rightarrow> int list \<Rightarrow> int" where
  "next_rowid seq ids = max seq (foldr max ids 0) + 1"

text \<open>
  What \<^verbatim>\<open>bind\<close> accepts: \<^verbatim>\<open>null\<close>, numbers, strings and booleans. \<^verbatim>\<open>undefined\<close> and
  objects are refused with a D1_TYPE_ERROR; NaN and the infinities travel as NULL.
\<close>

definition d1_type_error_object :: error where
  "d1_type_error_object = D1Error ''D1_TYPE_ERROR: Type object not supported for value''"

fun d1_bind :: "jsval \<Rightarrow> error + sqlval" where
  "d1_bind JUndefined = Inl (D1Error ''D1_TYPE_ERROR: Type undefined not supported for value undefined'')"
| "d1_bind JNull = Inr SNull"
| "d1_bind (JBool b) = Inr (SNum (if b then 1 else 0))"
| "d1_bind (JNum n) = Inr (case n of Fin r \<Rightarrow> SNum r | _ \<Rightarrow> SNull)"
| "d1_bind (JStr s) = Inr (SText s)"
| "d1_bind (JArr xs) = Inl d1_type_error_object"
| "d1_bind (JObj kvs) = Inl d1_type_error_object"

fun d1_bind_all :: "jsval list \<Rightarrow> error + sqlval list" where
  "d1_bind_all [] = Inr []"
| "d1_bind_all (v # vs) =
     (case d1_bind v of
        Inl e \<Rightarrow> Inl e
      | Inr x \<Rightarrow> (case d1_bind_all vs of Inl e \<Rightarrow> Inl e | Inr xs \<Rightarrow> Inr (x # xs)))"

section \<open>Dimension resolvers\<close>

text \<open>
  A resolver returns the value of the JavaScript function or the error it throws,
  together with the store it leaves.

  \<^verbatim>\<open>async function getOrCreateCampaign(db, name) {
    if (!name) return null;
    let objective = 'Unknown';
    if (name.includes('Impression')) objective = 'Impression';
    else if (name.includes('Visit')) objective = 'Visit';
    else if (name.includes('Mess')) objective = 'Message';
    const existing = await db.prepare(
      'SELECT campaign_id FROM dim_campaign WHERE campaign_name = ?').bind(name).first();
    if (existing) return existing.campaign_id;
    const result = await db.prepare(
      'INSERT INTO dim_campaign (campaign_name, objective) VALUES (?, ?) RETURNING campaign_id'
    ).bind(name, objective).first();
    return result.campaign_id;
  }\<close>
  A name that is an array has an \<^verbatim>\<open>includes\<close> method and is refused by \<^verbatim>\<open>bind\<close>; any
  other name that is not a string has none.
\<close>

definition insert_campaign :: "store \<Rightarrow> string \<Rightarrow> string \<Rightarrow> error + int \<times> store" where
  "insert_campaign db name objective =
     (if \<exists>r \<in> set (dim_campaign db). c_campaign_name r = name
      then Inl (D1Error ''UNIQUE constraint failed: dim_campaign.campaign_name'')
      else
        (let new_id = next_rowid (seq_campaign db) (map c_campaign_id (dim_campaign db))
         in Inr (new_id,
                 db\<lparr>dim_campaign := dim_campaign db @
                        [\<lparr>c_campaign_id = new_id, c_campaign_name = name,
                          c_platform = ''Facebook'', c_objective = objective\<rparr>],
                    seq_campaign := new_id\<rparr>)))"

definition getOrCreateCampaign :: "store \<Rightarrow> jsval \<Rightarrow> (error + jsval) \<times> store" where
  "getOrCreateCampaign db name =
     (if \<not> truthy name then (Inr JNull, db)
      else case name of
        JStr s \<Rightarrow>
          (let objective =
                 (if str_includes s ''Impression'' then ''Impression''
                  else if str_includes s ''Visit'' then ''Visit''
                  else if str_includes s ''Mess'' then ''Message''
                  else ''Unknown'')
           in case find (\<lambda>r. c_campaign_name r = s) (dim_campaign db) of
                Some existing \<Rightarrow> (Inr (JNum (Fin (of_int (c_campaign_id existing)))), db)
              | None \<Rightarrow>
                  (case insert_campaign db s objective of
                     Inl e \<Rightarrow> (Inl e, db)
                   | Inr (new_id, db') \<Rightarrow> (Inr (JNum (Fin (of_int new_id))), db')))
      | JArr xs \<Rightarrow> (Inl d1_type_error_object, db)
      | _ \<Rightarrow> (Inl (TypeError ''name.includes is not a function''), db))"

definition dayNames :: "string list" where
  "dayNames = [''Sunday'', ''Monday'', ''Tuesday'', ''Wednesday'', ''Thursday'', ''Friday'', ''Saturday'']"

definition monthNames :: "string list" where
  "monthNames = [''January'', ''February'', ''March'', ''April'', ''May'', ''June'',
                 ''July'', ''August'', ''September'', ''October'', ''November'', ''December'']"

text \<open>\<^verbatim>\<open>names[i]\<close>: \<^verbatim>\<open>undefined\<close> when \<open>i\<close> is NaN or out of range.\<close>

definition name_at :: "string list \<Rightarrow> int option \<Rightarrow> jsval" where
  "name_at names i =
     (case i of
        None \<Rightarrow> JUndefined
      | Some k \<Rightarrow> if 0 \<le> k \<and> k < int (length names) then JStr (names ! nat k) else JUndefined)"

definition num_of :: "int option \<Rightarrow> jsval" where
  "num_of i = (case i of None \<Rightarrow> JNum NaN | Some k \<Rightarrow> JNum (Fin (of_int k)))"

text \<open>The integer an integral SQL number stands for.\<close>

definition sql_int :: "sqlval \<Rightarrow> int" where
  "sql_int v = (case v of SNum r \<Rightarrow> \<lfloor>r\<rfloor> | _ \<Rightarrow> 0)"

text \<open>
  The INSERT into \<^verbatim>\<open>dim_date\<close>, from the eleven bound values. A NULL \<^verbatim>\<open>date_key\<close> is
  given the next row id (the column is the INTEGER PRIMARY KEY); the other ten columns
  are NOT NULL, \<^verbatim>\<open>full_date\<close> is UNIQUE.
\<close>

definition insert_date :: "store \<Rightarrow> jsval list \<Rightarrow> error + store" where
  "insert_date db binds =
     (case d1_bind_all binds of
        Inl e \<Rightarrow> Inl e
      | Inr vs \<Rightarrow>
          (let key = (if vs ! 0 = SNull then foldr max (map d_date_key (dim_date db)) 0 + 1
                      else sql_int (vs ! 0))
           in if SNull \<in> set (tl vs)
              then Inl (D1Error ''NOT NULL constraint failed: dim_date'')
              else if \<exists>r \<in> set (dim_date db). d_date_key r = key
              then Inl (D1Error ''UNIQUE constraint failed: dim_date.date_key'')
              else if \<exists>r \<in> set (dim_date db). SText (d_full_date r) = vs ! 1
              then Inl (D1Error ''UNIQUE constraint failed: dim_date.full_date'')
              else Inr (db\<lparr>dim_date := dim_date db @
                          [\<lparr>d_date_key = key,
                            d_full_date = (case vs ! 1 of SText s \<Rightarrow> s | _ \<Rightarrow> []),
                            d_year = sql_int (vs ! 2),
                            d_quarter = sql_int (vs ! 3),
                            d_month = sql_int (vs ! 4),
                            d_month_name = (case vs ! 5 of SText s \<Rightarrow> s | _ \<Rightarrow> []),
                            d_week_of_year = sql_int (vs ! 6),
                            d_day_of_month = sql_int (vs ! 7),
                            d_day_of_week = sql_int (vs ! 8),
                            d_day_name = (case vs ! 9 of SText s \<Rightarrow> s | _ \<Rightarrow> []),
                            d_is_weekend = sql_int (vs ! 10)\<rparr>]\<rparr>)))"

text \<open>
  \<^verbatim>\<open>async function getOrCreateDate(db, dateStr) {
    if (!dateStr) return null;
    const date = new Date(dateStr);
    const dateKey = parseInt(dateStr.replace(/-/g, '')); // 20251014
    const existing = await db.prepare(
      'SELECT date_key FROM dim_date WHERE date_key = ?').bind(dateKey).first();
    if (existing) return existing.date_key;
    ...
    await db.prepare(`INSERT INTO dim_date(date_key, full_date, year, quarter, month, month_name,
        week_of_year, day_of_month, day_of_week, day_name, is_weekend)
    VALUES(?, ?, ?, ?, ?, ?, ?, ?, ?, ?, ?)`).bind(
      dateKey, dateStr, date.getFullYear(), Math.ceil((date.getMonth() + 1) / 3),
      date.getMonth() + 1, monthNames[date.getMonth()], getWeekOfYear(date), date.getDate(),
      date.getDay() === 0 ? 7 : date.getDay(), dayNames[date.getDay()],
      date.getDay() === 0 || date.getDay() === 6 ? 1 : 0).run();
    return dateKey;
  }\<close>
  A NaN key is bound as NULL, which no row equals. On a value that is not a string,
  \<^verbatim>\<open>new Date(dateStr)\<close> converts it to a primitive, which throws where ToString throws,
  and \<^verbatim>\<open>dateStr.replace\<close> is not a function.
\<close>

definition getOrCreateDate :: "js_env \<Rightarrow> store \<Rightarrow> jsval \<Rightarrow> (error + jsval) \<times> store" where
  "getOrCreateDate env db dateStr =
     (if \<not> truthy dateStr then (Inr JNull, db)
      else case dateStr of
        JStr s \<Rightarrow>
          (let date = Date_parse env s;
               dateKey = parseInt_str (remove_all CHR ''-'' s)
           in case (case dateKey of
                      Fin k \<Rightarrow> find (\<lambda>r. of_int (d_date_key r) = k) (dim_date db)
                    | _ \<Rightarrow> None) of
                Some existing \<Rightarrow> (Inr (JNum (Fin (of_int (d_date_key existing)))), db)
              | None \<Rightarrow>
                  (case insert_date db
                          [JNum dateKey,
                           dateStr,
                           num_of (getFullYear date),
                           num_of (map_option (\<lambda>m. - ((- (m + 1)) div 3)) (getMonth date)),
                           num_of (map_option (\<lambda>m. m + 1) (getMonth date)),
                           name_at monthNames (getMonth date),
                           num_of (getWeekOfYear date),
                           num_of (getDate date),
                           (if getDay date = Some 0 then JNum (Fin 7) else num_of (getDay date)),
                           name_at dayNames (getDay date),
                           (if getDay date = Some 0 \<or> getDay date = Some 6 then JNum (Fin 1) else JNum (Fin 0))] of
                     Inl e \<Rightarrow> (Inl e, db)
                   | Inr db' \<Rightarrow> (Inr (JNum dateKey), db')))
      | _ \<Rightarrow>
          (case ToString env dateStr of
             Inl e \<Rightarrow> (Inl e, db)
           | Inr str \<Rightarrow> (Inl (TypeError ''dateStr.replace is not a function''), db)))"

text \<open>
  \<^verbatim>\<open>async function getOrCreateAge(db, ageRange) {
    if (!ageRange) return 1; // Default to first age group
    const existing = await db.prepare(
      'SELECT age_id FROM dim_age_group WHERE age_range = ?').bind(ageRange).first();
    if (existing) return existing.age_id;
    const result = await db.prepare(
      'INSERT INTO dim_age_group (age_range) VALUES (?) RETURNING age_id').bind(ageRange).first();
    return result.age_id;
  }\<close>
\<close>

definition getOrCreateAge :: "store \<Rightarrow> jsval \<Rightarrow> (error + jsval) \<times> store" where
  "getOrCreateAge db ageRange =
     (if \<not> truthy ageRange then (Inr (JNum (Fin 1)), db)
      else case d1_bind ageRange of
        Inl e \<Rightarrow> (Inl e, db)
      | Inr v \<Rightarrow>
          (case (if v = SNull then None else find (\<lambda>r. a_age_range r = v) (dim_age_group db)) of
             Some existing \<Rightarrow> (Inr (JNum (Fin (of_int (a_age_id existing)))), db)
           | None \<Rightarrow>
               if v = SNull
               then (Inl (D1Error ''NOT NULL constraint failed: dim_age_group.age_range''), db)
               else if \<exists>r \<in> set (dim_age_group db). a_age_range r = v
               then (Inl (D1Error ''UNIQUE constraint failed: dim_age_group.age_range''), db)
               else
                 (let new_id = next_rowid (seq_age_group db) (map a_age_id (dim_age_group db))
                  in (Inr (JNum (Fin (of_int new_id))),
                      db\<lparr>dim_age_group := dim_age_group db @ [\<lparr>a_age_id = new_id, a_age_range = v\<rparr>],
                         seq_age_group := new_id\<rparr>))))"

text \<open>
  \<^verbatim>\<open>async function getOrCreateGender(db, gender) {
    if (!gender) return 3; // Default to 'unknown'
    const normalized = gender.toLowerCase();
    const existing = await db.prepare(
      'SELECT gender_id FROM dim_gender WHERE gender = ?').bind(normalized).first();
    if (existing) return existing.gender_id;
    const result = await db.prepare(
      'INSERT INTO dim_gender (gender) VALUES (?) RETURNING gender_id').bind(normalized).first();
    return result.gender_id;
  }\<close>
\<close>

definition getOrCreateGender :: "js_env \<Rightarrow> store \<Rightarrow> jsval \<Rightarrow> (error + jsval) \<times> store" where
  "getOrCreateGender env db gender =
     (if \<not> truthy gender then (Inr (JNum (Fin 3)), db)
      else case gender of
        JStr s \<Rightarrow>
          (let normalized = toLowerCase env s
           in case find (\<lambda>r. g_gender r = normalized) (dim_gender db) of
                Some existing \<Rightarrow> (Inr (JNum (Fin (of_int (g_gender_id existing)))), db)
              | None \<Rightarrow>
                  (let new_id = next_rowid (seq_gender db) (map g_gender_id (dim_gender db))
                   in (Inr (JNum (Fin (of_int new_id))),
                       db\<lparr>dim_gender := dim_gender db @ [\<lparr>g_gender_id = new_id, g_gender = normalized\<rparr>],
                          seq_gender := new_id\<rparr>)))
      | _ \<Rightarrow> (Inl (TypeError ''gender.toLowerCase is not a function''), db))"

text \<open>
  \<^verbatim>\<open>async function getOrCreateRegion(db, regionName) {
    if (!regionName) return null;
    const existing = await db.prepare(
      'SELECT region_id FROM dim_region WHERE region_name = ?').bind(regionName).first();
    if (existing) return existing.region_id;
    const regionType = regionName.includes('City') ? 'City' : 'Province';
    const result = await db.prepare(
      'INSERT INTO dim_region (region_name, region_type) VALUES (?, ?) RETURNING region_id'
    ).bind(regionName, regionType).first();
    return result.region_id;
  }\<close>
\<close>

definition getOrCreateRegion :: "store \<Rightarrow> jsval \<Rightarrow> (error + jsval) \<times> store" where
  "getOrCreateRegion db regionName =
     (if \<not> truthy regionName then (Inr JNull, db)
      else case d1_bind regionName of
        Inl e \<Rightarrow> (Inl e, db)
      | Inr v \<Rightarrow>
          (case find (\<lambda>r. SText (r_region_name r) = v) (dim_region db) of
             Some existing \<Rightarrow> (Inr (JNum (Fin (of_int (r_region_id existing)))), db)
           | None \<Rightarrow>
               (case regionName of
                  JStr s \<Rightarrow>
                    (let regionType = (if str_includes s ''City'' then ''City'' else ''Province'');
                         new_id = next_rowid (seq_region db) (map r_region_id (dim_region db))
                     in (Inr (JNum (Fin (of_int new_id))),
                         db\<lparr>dim_region := dim_region db @
                               [\<lparr>r_region_id = new_id, r_region_name = s, r_region_type = regionType\<rparr>],
                            seq_region := new_id\<rparr>))
                | _ \<Rightarrow> (Inl (TypeError ''regionName.includes is not a function''), db))))"

section \<open>Responses\<close>

text \<open>
  \<^verbatim>\<open>JSON.stringify\<close>, as the JSON document it writes: a property whose value is
  \<^verbatim>\<open>undefined\<close> is left out of its object, an \<^verbatim>\<open>undefined\<close> array element and a number
  that is NaN or infinite are written \<^verbatim>\<open>null\<close>.
\<close>

fun JSON_stringify :: "jsval \<Rightarrow> jsval"
  and JSON_elements :: "jsval list \<Rightarrow> jsval list"
  and JSON_members :: "(string \<times> jsval) list \<Rightarrow> (string \<times> jsval) list" where
  "JSON_stringify JUndefined = JUndefined"
| "JSON_stringify JNull = JNull"
| "JSON_stringify (JBool b) = JBool b"
| "JSON_stringify (JNum n) = (case n of Fin r \<Rightarrow> JNum (Fin r) | _ \<Rightarrow> JNull)"
| "JSON_stringify (JStr s) = JStr s"
| "JSON_stringify (JArr xs) = JArr (JSON_elements xs)"
| "JSON_stringify (JObj kvs) = JObj (JSON_members kvs)"
| "JSON_elements [] = []"
| "JSON_elements (x # xs) = (if x = JUndefined then JNull else JSON_stringify x) # JSON_elements xs"
| "JSON_members [] = []"
| "JSON_members ((k, v) # kvs) =
     (if v = JUndefined then JSON_members kvs else (k, JSON_stringify v) # JSON_members kvs)"

record response =
  resp_status :: int
  resp_body :: jsval

text \<open>
  \<^verbatim>\<open>function jsonResponse(data, status = 200) {
    return new Response(JSON.stringify({
      success: status >= 200 && status < 300,
      data: data
    }), { status: status, headers: {...} });
  }\<close>
\<close>

definition jsonResponse :: "jsval \<Rightarrow> int \<Rightarrow> response" where
  "jsonResponse data status =
     \<lparr>resp_status = status,
      resp_body = JSON_stringify (JObj [(''success'', JBool (status \<ge> 200 \<and> status < 300)), (''data'', data)])\<rparr>"

text \<open>The members of a JSON object, and the value of one of them.\<close>

definition members :: "jsval \<Rightarrow> (string \<times> jsval) list" where
  "members v = (case v of JObj kvs \<Rightarrow> kvs | _ \<Rightarrow> [])"

definition member :: "jsval \<Rightarrow> string \<Rightarrow> jsval option" where
  "member v k = map_of (members v) k"

section \<open>Fact ingestion\<close>

text \<open>
  \<^verbatim>\<open>row.Campaign\<close>: a TypeError when \<^verbatim>\<open>row\<close> is \<^verbatim>\<open>null\<close> or \<^verbatim>\<open>undefined\<close>; the member of
  that name of an object (the last one, should the JSON text repeat a name); \<^verbatim>\<open>undefined\<close>
  on any other value.
\<close>

definition js_prop :: "jsval \<Rightarrow> string \<Rightarrow> jsval" where
  "js_prop v k =
     (case v of
        JObj kvs \<Rightarrow> (case map_of (rev kvs) k of Some x \<Rightarrow> x | None \<Rightarrow> JUndefined)
      | _ \<Rightarrow> JUndefined)"

definition js_get :: "jsval \<Rightarrow> string \<Rightarrow> error + jsval" where
  "js_get v k =
     (if v = JNull then Inl (TypeError ''Cannot read properties of null'')
      else if v = JUndefined then Inl (TypeError ''Cannot read properties of undefined'')
      else Inr (js_prop v k))"

text \<open>
  The INSERT into \<^verbatim>\<open>fact_ads_performance\<close>, from the ten bound values: \<^verbatim>\<open>date_key\<close> and
  \<^verbatim>\<open>campaign_id\<close> are NOT NULL and reference their dimensions.
\<close>

definition insert_performance :: "store \<Rightarrow> jsval list \<Rightarrow> error + store" where
  "insert_performance db binds =
     (case d1_bind_all binds of
        Inl e \<Rightarrow> Inl e
      | Inr vs \<Rightarrow>
          if vs ! 0 = SNull
          then Inl (D1Error ''NOT NULL constraint failed: fact_ads_performance.date_key'')
          else if vs ! 1 = SNull
          then Inl (D1Error ''NOT NULL constraint failed: fact_ads_performance.campaign_id'')
          else if \<not> (\<exists>r \<in> set (dim_date db). SNum (of_int (d_date_key r)) = vs ! 0)
                  \<or> \<not> (\<exists>r \<in> set (dim_campaign db). SNum (of_int (c_campaign_id r)) = vs ! 1)
          then Inl (D1Error ''FOREIGN KEY constraint failed'')
          else
            (let new_id = next_rowid (seq_performance db) (map f_id (fact_ads_performance db))
             in Inr (db\<lparr>fact_ads_performance := fact_ads_performance db @
                          [\<lparr>f_id = new_id, f_date_key = vs ! 0, f_campaign_id = vs ! 1,
                            f_adset_name = vs ! 2, f_ad_name = vs ! 3, f_indicator = vs ! 4,
                            f_action_key = vs ! 5, f_amount_spent = vs ! 6, f_results = vs ! 7,
                            f_cost_per_result = vs ! 8, f_impressions = vs ! 9\<rparr>],
                        seq_performance := new_id\<rparr>)))"

definition insert_demographics :: "store \<Rightarrow> jsval list \<Rightarrow> error + store" where
  "insert_demographics db binds =
     (case d1_bind_all binds of
        Inl e \<Rightarrow> Inl e
      | Inr vs \<Rightarrow>
          if vs ! 0 = SNull
          then Inl (D1Error ''NOT NULL constraint failed: fact_ads_demographics.date_key'')
          else if vs ! 1 = SNull
          then Inl (D1Error ''NOT NULL constraint failed: fact_ads_demographics.campaign_id'')
          else if vs ! 3 = SNull
          then Inl (D1Error ''NOT NULL constraint failed: fact_ads_demographics.age_id'')
          else if vs ! 4 = SNull
          then Inl (D1Error ''NOT NULL constraint failed: fact_ads_demographics.gender_id'')
          else if \<not> (\<exists>r \<in> set (dim_date db). SNum (of_int (d_date_key r)) = vs ! 0)
                  \<or> \<not> (\<exists>r \<in> set (dim_campaign db). SNum (of_int (c_campaign_id r)) = vs ! 1)
                  \<or> \<not> (\<exists>r \<in> set (dim_age_group db). SNum (of_int (a_age_id r)) = vs ! 3)
                  \<or> \<not> (\<exists>r \<in> set (dim_gender db). SNum (of_int (g_gender_id r)) = vs ! 4)
          then Inl (D1Error ''FOREIGN KEY constraint failed'')
          else
            (let new_id = next_rowid (seq_demographics db) (map fd_id (fact_ads_demographics db))
             in Inr (db\<lparr>fact_ads_demographics := fact_ads_demographics db @
                          [\<lparr>fd_id = new_id, fd_date_key = vs ! 0, fd_campaign_id = vs ! 1,
                            fd_action_key = vs ! 2, fd_age_id = vs ! 3, fd_gender_id = vs ! 4,
                            fd_spend = vs ! 5, fd_impressions = vs ! 6\<rparr>],
                        seq_demographics := new_id\<rparr>)))"

definition insert_regions :: "store \<Rightarrow> jsval list \<Rightarrow> error + store" where
  "insert_regions db binds =
     (case d1_bind_all binds of
        Inl e \<Rightarrow> Inl e
      | Inr vs \<Rightarrow>
          if vs ! 0 = SNull
          then Inl (D1Error ''NOT NULL constraint failed: fact_ads_regions.date_key'')
          else if vs ! 1 = SNull
          then Inl (D1Error ''NOT NULL constraint failed: fact_ads_regions.campaign_id'')
          else if vs ! 2 = SNull
          then Inl (D1Error ''NOT NULL constraint failed: fact_ads_regions.region_id'')
          else if \<not> (\<exists>r \<in> set (dim_date db). SNum (of_int (d_date_key r)) = vs ! 0)
                  \<or> \<not> (\<exists>r \<in> set (dim_campaign db). SNum (of_int (c_campaign_id r)) = vs ! 1)
                  \<or> \<not> (\<exists>r \<in> set (dim_region db). SNum (of_int (r_region_id r)) = vs ! 2)
          then Inl (D1Error ''FOREIGN KEY constraint failed'')
          else
            (let new_id = next_rowid (seq_regions db) (map fr_id (fact_ads_regions db))
             in Inr (db\<lparr>fact_ads_regions := fact_ads_regions db @
                          [\<lparr>fr_id = new_id, fr_date_key = vs ! 0, fr_campaign_id = vs ! 1,
                            fr_region_id = vs ! 2, fr_spend = vs ! 3, fr_impressions = vs ! 4\<rparr>],
                        seq_regions := new_id\<rparr>)))"

text \<open>
  The body of the \<^verbatim>\<open>try\<close> block of \<^verbatim>\<open>ingestPerformance\<close>, for one row:
  \<^verbatim>\<open>const campaignId = await getOrCreateCampaign(db, row.Campaign);
  const dateKey = await getOrCreateDate(db, row.Date);
  const amountSpent = parseVietnameseNumber(row.AmountSpent);
  const costPerResult = parseVietnameseNumber(row.CostPerResult);
  await db.prepare(`INSERT INTO fact_ads_performance (date_key, campaign_id, adset_name,
      ad_name, indicator, action_key, amount_spent, results, cost_per_result, impressions)
      VALUES(?, ?, ?, ?, ?, ?, ?, ?, ?, ?)`).bind(
    dateKey, campaignId, row.AdSet || null, row.Ad || null, row.Indicator || null,
    row.ActionKey || null, amountSpent, parseInt(row.Results) || 0, costPerResult,
    parseInt(row.Impressions) || 0).run();\<close>
  The result is the error that leaves the block, if any, and the store as the block
  leaves it: what an earlier statement has written stays written. The arguments of
  \<^verbatim>\<open>bind\<close> are evaluated from left to right before it is called, so a conversion that
  throws in \<^verbatim>\<open>parseVietnameseNumber\<close> or \<^verbatim>\<open>parseInt\<close> leaves the block before the
  statement is bound.
\<close>

definition performance_body :: "js_env \<Rightarrow> store \<Rightarrow> jsval \<Rightarrow> (error + unit) \<times> store" where
  "performance_body env db row =
     (case js_get row ''Campaign'' of
        Inl e \<Rightarrow> (Inl e, db)
      | Inr campaign \<Rightarrow>
          (case getOrCreateCampaign db campaign of
             (Inl e, db1) \<Rightarrow> (Inl e, db1)
           | (Inr campaignId, db1) \<Rightarrow>
               (case getOrCreateDate env db1 (js_prop row ''Date'') of
                  (Inl e, db2) \<Rightarrow> (Inl e, db2)
                | (Inr dateKey, db2) \<Rightarrow>
                    (case parseVietnameseNumber env (js_prop row ''AmountSpent'') of
                       Inl e \<Rightarrow> (Inl e, db2)
                     | Inr amountSpent \<Rightarrow>
                    (case parseVietnameseNumber env (js_prop row ''CostPerResult'') of
                       Inl e \<Rightarrow> (Inl e, db2)
                     | Inr costPerResult \<Rightarrow>
                    (case parseInt env (js_prop row ''Results'') of
                       Inl e \<Rightarrow> (Inl e, db2)
                     | Inr results \<Rightarrow>
                    (case parseInt env (js_prop row ''Impressions'') of
                       Inl e \<Rightarrow> (Inl e, db2)
                     | Inr impressions \<Rightarrow>
                    (case insert_performance db2
                            [dateKey,
                             campaignId,
                             js_or (js_prop row ''AdSet'') JNull,
                             js_or (js_prop row ''Ad'') JNull,
                             js_or (js_prop row ''Indicator'') JNull,
                             js_or (js_prop row ''ActionKey'') JNull,
                             JNum amountSpent,
                             js_or (JNum results) (JNum (Fin 0)),
                             JNum costPerResult,
                             js_or (JNum impressions) (JNum (Fin 0))] of
                       Inl e \<Rightarrow> (Inl e, db2)
                     | Inr db3 \<Rightarrow> (Inr (), db3)))))))))"

text \<open>
  The body of the \<^verbatim>\<open>try\<close> block of \<^verbatim>\<open>ingestDemographics\<close>:
  \<^verbatim>\<open>const campaignId = await getOrCreateCampaign(db, row.Campaign);
  const dateKey = await getOrCreateDate(db, row.Date);
  const ageId = await getOrCreateAge(db, row.Age);
  const genderId = await getOrCreateGender(db, row.Gender);
  await db.prepare(`INSERT INTO fact_ads_demographics (date_key, campaign_id, action_key,
      age_id, gender_id, spend, impressions) VALUES(?, ?, ?, ?, ?, ?, ?)`).bind(
    dateKey, campaignId, row.ActionKey || null, ageId, genderId,
    parseVietnameseNumber(row.Spend), parseInt(row.Impressions) || 0).run();\<close>
\<close>

definition demographics_body :: "js_env \<Rightarrow> store \<Rightarrow> jsval \<Rightarrow> (error + unit) \<times> store" where
  "demographics_body env db row =
     (case js_get row ''Campaign'' of
        Inl e \<Rightarrow> (Inl e, db)
      | Inr campaign \<Rightarrow>
          (case getOrCreateCampaign db campaign of
             (Inl e, db1) \<Rightarrow> (Inl e, db1)
           | (Inr campaignId, db1) \<Rightarrow>
               (case getOrCreateDate env db1 (js_prop row ''Date'') of
                  (Inl e, db2) \<Rightarrow> (Inl e, db2)
                | (Inr dateKey, db2) \<Rightarrow>
                    (case getOrCreateAge db2 (js_prop row ''Age'') of
                       (Inl e, db3) \<Rightarrow> (Inl e, db3)
                     | (Inr ageId, db3) \<Rightarrow>
                         (case getOrCreateGender env db3 (js_prop row ''Gender'') of
                            (Inl e, db4) \<Rightarrow> (Inl e, db4)
                          | (Inr genderId, db4) \<Rightarrow>
                              (case parseVietnameseNumber env (js_prop row ''Spend'') of
                                 Inl e \<Rightarrow> (Inl e, db4)
                               | Inr spend \<Rightarrow>
                              (case parseInt env (js_prop row ''Impressions'') of
                                 Inl e \<Rightarrow> (Inl e, db4)
                               | Inr impressions \<Rightarrow>
                              (case insert_demographics db4
                                      [dateKey,
                                       campaignId,
                                       js_or (js_prop row ''ActionKey'') JNull,
                                       ageId,
                                       genderId,
                                       JNum spend,
                                       js_or (JNum impressions) (JNum (Fin 0))] of
                                 Inl e \<Rightarrow> (Inl e, db4)
                               | Inr db5 \<Rightarrow> (Inr (), db5)))))))))"

text \<open>
  The body of the \<^verbatim>\<open>try\<close> block of \<^verbatim>\<open>ingestRegions\<close>:
  \<^verbatim>\<open>const campaignId = await getOrCreateCampaign(db, row.Campaign);
  const dateKey = await getOrCreateDate(db, row.Date);
  const regionId = await getOrCreateRegion(db, row.Region);
  await db.prepare(`INSERT INTO fact_ads_regions (date_key, campaign_id, region_id, spend,
      impressions) VALUES(?, ?, ?, ?, ?)`).bind(
    dateKey, campaignId, regionId, parseVietnameseNumber(row.Spend),
    parseInt(row.Impressions) || 0).run();\<close>
\<close>

definition regions_body :: "js_env \<Rightarrow> store \<Rightarrow> jsval \<Rightarrow> (error + unit) \<times> store" where
  "regions_body env db row =
     (case js_get row ''Campaign'' of
        Inl e \<Rightarrow> (Inl e, db)
      | Inr campaign \<Rightarrow>
          (case getOrCreateCampaign db campaign of
             (Inl e, db1) \<Rightarrow> (Inl e, db1)
           | (Inr campaignId, db1) \<Rightarrow>
               (case getOrCreateDate env db1 (js_prop row ''Date'') of
                  (Inl e, db2) \<Rightarrow> (Inl e, db2)
                | (Inr dateKey, db2) \<Rightarrow>
                    (case getOrCreateRegion db2 (js_prop row ''Region'') of
                       (Inl e, db3) \<Rightarrow> (Inl e, db3)
                     | (Inr regionId, db3) \<Rightarrow>
                         (case parseVietnameseNumber env (js_prop row ''Spend'') of
                            Inl e \<Rightarrow> (Inl e, db3)
                          | Inr spend \<Rightarrow>
                         (case parseInt env (js_prop row ''Impressions'') of
                            Inl e \<Rightarrow> (Inl e, db3)
                          | Inr impressions \<Rightarrow>
                         (case insert_regions db3
                                 [dateKey,
                                  campaignId,
                                  regionId,
                                  JNum spend,
                                  js_or (JNum impressions) (JNum (Fin 0))] of
                            Inl e \<Rightarrow> (Inl e, db3)
                          | Inr db4 \<Rightarrow> (Inr (), db4))))))))"

text \<open>
  The loop the three ingestion functions share, over the body of the \<^verbatim>\<open>try\<close> block:
  \<^verbatim>\<open>let processed = 0;
  let errors = [];
  for (const row of data) {
    try { ...; processed++; }
    catch (err) { errors.push({ row: row, error: err.message }); }
  }\<close>
\<close>

fun ingest_loop ::
  "(store \<Rightarrow> jsval \<Rightarrow> (error + unit) \<times> store) \<Rightarrow> jsval list \<Rightarrow> store \<Rightarrow> int \<Rightarrow> jsval list
     \<Rightarrow> store \<times> int \<times> jsval list" where
  "ingest_loop body [] db processed errors = (db, processed, errors)"
| "ingest_loop body (row # rows) db processed errors =
     (case body db row of
        (Inr u, db') \<Rightarrow> ingest_loop body rows db' (processed + 1) errors
      | (Inl err, db') \<Rightarrow>
          ingest_loop body rows db' processed
            (errors @ [JObj [(''row'', row), (''error'', JStr (message err))]]))"

text \<open>
  \<^verbatim>\<open>if (!Array.isArray(data)) {
    return jsonResponse({ error: 'Data must be an array' }, 400);
  }
  ...
  return jsonResponse({
    processed,
    errors: errors.length > 0 ? errors : null,
  });\<close>
\<close>

definition ingest ::
  "(store \<Rightarrow> jsval \<Rightarrow> (error + unit) \<times> store) \<Rightarrow> store \<Rightarrow> jsval \<Rightarrow> response \<times> store" where
  "ingest body db data =
     (case data of
        JArr rows \<Rightarrow>
          (case ingest_loop body rows db 0 [] of
             (db', processed, errors) \<Rightarrow>
               (jsonResponse
                  (JObj [(''processed'', JNum (Fin (of_int processed))),
                         (''errors'', if length errors > 0 then JArr errors else JNull)]) 200,
                db'))
      | _ \<Rightarrow> (jsonResponse (JObj [(''error'', JStr ''Data must be an array'')]) 400, db))"

definition ingestPerformance :: "js_env \<Rightarrow> store \<Rightarrow> jsval \<Rightarrow> response \<times> store" where
  "ingestPerformance env db data = ingest (performance_body env) db data"

definition ingestDemographics :: "js_env \<Rightarrow> store \<Rightarrow> jsval \<Rightarrow> response \<times> store" where
  "ingestDemographics env db data = ingest (demographics_body env) db data"

definition ingestRegions :: "js_env \<Rightarrow> store \<Rightarrow> jsval \<Rightarrow> response \<times> store" where
  "ingestRegions env db data = ingest (regions_body env) db data"

section \<open>Classification\<close>

text \<open>
  \<open>x LIKE p\<close> of SQLite: \<open>%\<close> matches any run of characters, \<open>_\<close> exactly one, and any
  other character matches itself, the 26 ASCII letters without regard to case. (\<open>_\<close> is
  taken bytewise here; the patterns of the worker have none.)
\<close>

fun sql_like :: "string \<Rightarrow> string \<Rightarrow> bool" where
  "sql_like [] [] = True"
| "sql_like [] (c # s) = False"
| "sql_like (p # ps) [] = (p = CHR ''%'' \<and> sql_like ps [])"
| "sql_like (p # ps) (c # s) =
     (if p = CHR ''%'' then sql_like ps (c # s) \<or> sql_like (p # ps) s
      else (p = CHR ''_'' \<or> ascii_lower p = ascii_lower c) \<and> sql_like ps s)"

text \<open>
  The channel of a campaign, in the queries of \<^verbatim>\<open>getBreakdown\<close>:
  \<^verbatim>\<open>CASE
    WHEN c.campaign_name LIKE '%FB%' OR c.campaign_name LIKE '%Facebook%' THEN 'Facebook'
    WHEN c.campaign_name LIKE '%IG%' OR c.campaign_name LIKE '%Instagram%' THEN 'Instagram'
    ELSE 'Other'
  END as channel\<close>
\<close>

definition channel :: "string \<Rightarrow> string" where
  "channel campaign_name =
     (if sql_like ''%FB%'' campaign_name \<or> sql_like ''%Facebook%'' campaign_name then ''Facebook''
      else if sql_like ''%IG%'' campaign_name \<or> sql_like ''%Instagram%'' campaign_name then ''Instagram''
      else ''Other'')"

text \<open>
  The specification's reading of the match: the name contains the token, the ASCII letters
  compared without regard to case.
\<close>

definition ci_contains :: "string \<Rightarrow> string \<Rightarrow> bool" where
  "ci_contains tok s = (\<exists>pre mid suf. s = pre @ mid @ suf \<and> map ascii_lower mid = map ascii_lower tok)"

text \<open>
  \<^verbatim>\<open>const productMapping = {
    'DIRTY MILK': ['DIRTY MILK'],
    'MATCHA': ['MATCHA'],
    'LENGLINH': ['LENGLINH'],
    'WHITE CRUSH': ['WHITE CRUSH'],
    'CHOCO LOCO': ['CHOCO LOCO'],
    'GOLD JUICE': ['GOLD JUICE'],
    'EXTRAIT EXTREME': ['EXTRAIT'],
    'MAISON DE AMALRIC': ['MAISON DE AMALRIC'],
    'BLACK FRIDAY': ['BLACK FRIDAY'],
    'CHRISTMAS': ['GIANG SINH', 'CHRISTMAS', 'LE HOI', 'MUA LE']
  };\<close>
  where the first, third and fourth keywords of the last line carry Vietnamese letters:
  A with acute (bytes C3 81), E with circumflex and tilde (E1 BB 84), O with circumflex
  and dot below (E1 BB 98) and U with grave (C3 99). \<^verbatim>\<open>Object.entries\<close> lists the
  products in the order they are written, none of the names being an array index.
\<close>

definition productMapping :: "(string \<times> string list) list" where
  "productMapping =
     [(''DIRTY MILK'', [''DIRTY MILK'']),
      (''MATCHA'', [''MATCHA'']),
      (''LENGLINH'', [''LENGLINH'']),
      (''WHITE CRUSH'', [''WHITE CRUSH'']),
      (''CHOCO LOCO'', [''CHOCO LOCO'']),
      (''GOLD JUICE'', [''GOLD JUICE'']),
      (''EXTRAIT EXTREME'', [''EXTRAIT'']),
      (''MAISON DE AMALRIC'', [''MAISON DE AMALRIC'']),
      (''BLACK FRIDAY'', [''BLACK FRIDAY'']),
      (''CHRISTMAS'',
         [''GI'' @ [CHR 0xC3, CHR 0x81] @ ''NG SINH'',
          ''CHRISTMAS'',
          ''L'' @ [CHR 0xE1, CHR 0xBB, CHR 0x84] @ '' H'' @ [CHR 0xE1, CHR 0xBB, CHR 0x98] @ ''I'',
          ''M'' @ [CHR 0xC3, CHR 0x99] @ ''A L'' @ [CHR 0xE1, CHR 0xBB, CHR 0x84]])]"

text \<open>
  \<^verbatim>\<open>function extractProductLine(adName) {
    if (!adName) return 'Mix Product';
    const upperName = adName.toUpperCase();
    for (const [productName, keywords] of Object.entries(productMapping)) {
      for (const keyword of keywords) {
        if (upperName.includes(keyword.toUpperCase())) {
          return productName;
        }
      }
    }
    return 'Mix Product';
  }\<close>
  The inner loop tells whether a keyword of one product matches; the outer loop returns
  the first product that has one.
\<close>

fun keyword_loop :: "js_env \<Rightarrow> string \<Rightarrow> string list \<Rightarrow> bool" where
  "keyword_loop env upperName [] = False"
| "keyword_loop env upperName (keyword # keywords) =
     (if str_includes upperName (toUpperCase env keyword) then True
      else keyword_loop env upperName keywords)"

fun product_loop :: "js_env \<Rightarrow> string \<Rightarrow> (string \<times> string list) list \<Rightarrow> string option" where
  "product_loop env upperName [] = None"
| "product_loop env upperName ((productName, keywords) # entries) =
     (if keyword_loop env upperName keywords then Some productName
      else product_loop env upperName entries)"

definition extractProductLine_in ::
  "(string \<times> string list) list \<Rightarrow> js_env \<Rightarrow> jsval \<Rightarrow> error + string" where
  "extractProductLine_in mapping env adName =
     (if \<not> truthy adName then Inr ''Mix Product''
      else case adName of
        JStr s \<Rightarrow>
          (let upperName = toUpperCase env s
           in case product_loop env upperName mapping of
                Some productName \<Rightarrow> Inr productName
              | None \<Rightarrow> Inr ''Mix Product'')
      | _ \<Rightarrow> Inl (TypeError ''adName.toUpperCase is not a function''))"

definition extractProductLine :: "js_env \<Rightarrow> jsval \<Rightarrow> error + string" where
  "extractProductLine env adName = extractProductLine_in productMapping env adName"

section \<open>The product-daily query\<close>

text \<open>
  The tables of \<^verbatim>\<open>schema.sql\<close> and their columns.
\<close>

definition schema_sql :: "(string \<times> string list) list" where
  "schema_sql =
     [(''metadata_tables'', [''table_name'', ''description'', ''created_at'']),
      (''metadata_columns'', [''table_name'', ''column_name'', ''description'', ''data_type'']),
      (''dim_date'',
         [''date_key'', ''full_date'', ''year'', ''quarter'', ''month'', ''month_name'',
          ''week_of_year'', ''day_of_month'', ''day_of_week'', ''day_name'', ''is_weekend'']),
      (''dim_campaign'', [''campaign_id'', ''campaign_name'', ''platform'', ''objective'', ''created_at'']),
      (''dim_age_group'', [''age_id'', ''age_range'']),
      (''dim_gender'', [''gender_id'', ''gender'']),
      (''dim_region'', [''region_id'', ''region_name'', ''region_type'']),
      (''fact_ads_performance'',
         [''id'', ''date_key'', ''campaign_id'', ''adset_name'', ''ad_name'', ''indicator'',
          ''action_key'', ''amount_spent'', ''results'', ''cost_per_result'', ''impressions'',
          ''created_at'']),
      (''fact_ads_demographics'',
         [''id'', ''date_key'', ''campaign_id'', ''action_key'', ''age_id'', ''gender_id'',
          ''spend'', ''impressions'', ''created_at'']),
      (''fact_ads_regions'',
         [''id'', ''date_key'', ''campaign_id'', ''region_id'', ''spend'', ''impressions'',
          ''created_at'']),
      (''summary_daily'',
         [''id'', ''date_key'', ''total_spend'', ''total_impressions'', ''total_results'',
          ''campaign_count'', ''avg_cpr'', ''avg_cpm'', ''updated_at'']),
      (''summary_campaign'',
         [''id'', ''campaign_id'', ''date_key'', ''total_spend'', ''total_impressions'',
          ''total_results'', ''avg_cpr'', ''updated_at'']),
      (''etl_logs'',
         [''id'', ''source'', ''table_name'', ''rows_processed'', ''status'', ''error_message'',
          ''started_at'', ''completed_at''])]"

text \<open>
  What the store needs of a SELECT to compile it: the tables of its FROM and JOIN
  clauses under their aliases, and the columns it names, each as alias and column, in the
  order of the text.
\<close>

record sql_query =
  q_from :: "(string \<times> string) list"
  q_columns :: "(string \<times> string) list"

text \<open>The first column of the query that its tables do not have, if any.\<close>

definition unknown_column :: "(string \<times> string list) list \<Rightarrow> sql_query \<Rightarrow> (string \<times> string) option" where
  "unknown_column schema q =
     find (\<lambda>(alias, col).
             case map_of (q_from q) alias of
               None \<Rightarrow> True
             | Some table \<Rightarrow>
                 (case map_of schema table of
                    None \<Rightarrow> True
                  | Some cols \<Rightarrow> col \<notin> set cols))
          (q_columns q)"

text \<open>
  The query of \<^verbatim>\<open>getProductDaily\<close>:
  \<^verbatim>\<open>SELECT d.full_date, f.ad_name, SUM(f.results) as total_results
  FROM fact_ads_performance f
  JOIN dim_date d ON f.date_key = d.date_key
  JOIN dim_campaign c ON f.campaign_id = c.campaign_id
  WHERE f.date_key BETWEEN ? AND ?
    AND c.channel = 'Facebook'
    AND (c.objective = 'Message' OR c.campaign_name LIKE '%Mess%')
    AND f.ad_name IS NOT NULL AND f.ad_name != ''
  GROUP BY d.full_date, f.ad_name
  ORDER BY d.full_date ASC\<close>
\<close>

definition product_daily_query :: sql_query where
  "product_daily_query =
     \<lparr>q_from = [(''f'', ''fact_ads_performance''), (''d'', ''dim_date''), (''c'', ''dim_campaign'')],
      q_columns =
        [(''d'', ''full_date''), (''f'', ''ad_name''), (''f'', ''results''),
         (''f'', ''date_key''), (''d'', ''date_key''),
         (''f'', ''campaign_id''), (''c'', ''campaign_id''),
         (''f'', ''date_key''),
         (''c'', ''channel''),
         (''c'', ''objective''), (''c'', ''campaign_name''),
         (''f'', ''ad_name''), (''f'', ''ad_name''),
         (''d'', ''full_date''), (''f'', ''ad_name''),
         (''d'', ''full_date'')]\<rparr>"

text \<open>
  The channel query of \<^verbatim>\<open>getBreakdown\<close>, for comparison: it computes the channel from
  the campaign name.
  \<^verbatim>\<open>SELECT CASE WHEN c.campaign_name LIKE '%FB%' OR c.campaign_name LIKE '%Facebook%' ...
         END as channel,
         SUM(f.amount_spent) as total_spend, SUM(f.impressions) as total_impressions,
         SUM(f.results) as total_results,
         SUM(f.amount_spent) / NULLIF(SUM(f.results), 0) as cpr,
         (SUM(f.amount_spent) * 1000) / NULLIF(SUM(f.impressions), 0) as cpm
  FROM fact_ads_performance f
  JOIN dim_campaign c ON f.campaign_id = c.campaign_id
  WHERE f.date_key BETWEEN ? AND ?
  GROUP BY channel
  ORDER BY total_spend DESC\<close>
\<close>

definition breakdown_channel_query :: sql_query where
  "breakdown_channel_query =
     \<lparr>q_from = [(''f'', ''fact_ads_performance''), (''c'', ''dim_campaign'')],
      q_columns =
        [(''c'', ''campaign_name''), (''c'', ''campaign_name''),
         (''c'', ''campaign_name''), (''c'', ''campaign_name''),
         (''f'', ''amount_spent''), (''f'', ''impressions''), (''f'', ''results''),
         (''f'', ''amount_spent''), (''f'', ''results''),
         (''f'', ''amount_spent''), (''f'', ''impressions''),
         (''f'', ''campaign_id''), (''c'', ''campaign_id''),
         (''f'', ''date_key'')]\<rparr>"

text \<open>A row of the result of the product-daily query.\<close>

record daily_row =
  q_full_date :: string
  q_ad_name :: string
  q_total_results :: "rat option"

text \<open>
  \<^verbatim>\<open>db.prepare(query).bind(...).all()\<close>: the values are bound, the statement is compiled
  against the schema, and a statement that compiles is run by the engine of the store,
  a parameter of the model. A column the schema does not have is an error of the store.
\<close>

definition d1_all ::
  "(sql_query \<Rightarrow> sqlval list \<Rightarrow> daily_row list) \<Rightarrow> sql_query \<Rightarrow> jsval list \<Rightarrow> error + daily_row list" where
  "d1_all engine q binds =
     (case d1_bind_all binds of
        Inl e \<Rightarrow> Inl e
      | Inr vs \<Rightarrow>
          (case unknown_column schema_sql q of
             Some (alias, col) \<Rightarrow> Inl (D1Error (''D1_ERROR: no such column: '' @ alias @ ''.'' @ col))
           | None \<Rightarrow> Inr (engine q vs)))"

text \<open>
  \<^verbatim>\<open>function getDateKey(dateStr) {
    if (!dateStr) return null;
    return parseInt(dateStr.replace(/-/g, ''));
  }\<close>
\<close>

definition getDateKey :: "jsval \<Rightarrow> error + jsval" where
  "getDateKey dateStr =
     (if \<not> truthy dateStr then Inr JNull
      else case dateStr of
        JStr s \<Rightarrow> Inr (JNum (parseInt_str (remove_all CHR ''-'' s)))
      | _ \<Rightarrow> Inl (TypeError ''dateStr.replace is not a function''))"

text \<open>\<^verbatim>\<open>obj[k] = (obj[k] || 0) + v\<close> on an object whose keys keep the order of insertion.\<close>

fun add_to :: "(string \<times> rat) list \<Rightarrow> string \<Rightarrow> rat \<Rightarrow> (string \<times> rat) list" where
  "add_to [] k v = [(k, 0 + v)]"
| "add_to ((k', t) # kts) k v = (if k' = k then (k', t + v) # kts else (k', t) # add_to kts k v)"

text \<open>
  \<^verbatim>\<open>const productTotals = {};
  for (const row of result.results) {
    const product = extractProductLine(row.ad_name);
    productTotals[product] = (productTotals[product] || 0) + (row.total_results || 0);
  }\<close>
\<close>

fun product_totals :: "js_env \<Rightarrow> daily_row list \<Rightarrow> (string \<times> rat) list \<Rightarrow> error + (string \<times> rat) list" where
  "product_totals env [] productTotals = Inr productTotals"
| "product_totals env (row # rows) productTotals =
     (case extractProductLine env (JStr (q_ad_name row)) of
        Inl e \<Rightarrow> Inl e
      | Inr product \<Rightarrow>
          product_totals env rows
            (add_to productTotals product (case q_total_results row of None \<Rightarrow> 0 | Some n \<Rightarrow> n)))"

text \<open>\<^verbatim>\<open>xs.slice(0, limit)\<close>: a negative limit counts from the end.\<close>

definition slice0 :: "int \<Rightarrow> 'a list \<Rightarrow> 'a list" where
  "slice0 limit xs = (if limit < 0 then take (nat (int (length xs) + limit)) xs else take (nat limit) xs)"

text \<open>
  \<^verbatim>\<open>const dateProductMap = {};
  for (const row of result.results) {
    const date = row.full_date;
    const product = extractProductLine(row.ad_name);
    if (!topProducts.includes(product)) continue;
    if (!dateProductMap[date]) { dateProductMap[date] = {}; }
    dateProductMap[date][product] = (dateProductMap[date][product] || 0) + (row.total_results || 0);
  }\<close>
\<close>

fun add_to_date ::
  "(string \<times> (string \<times> rat) list) list \<Rightarrow> string \<Rightarrow> string \<Rightarrow> rat \<Rightarrow> (string \<times> (string \<times> rat) list) list" where
  "add_to_date [] date product v = [(date, add_to [] product v)]"
| "add_to_date ((date', m) # dms) date product v =
     (if date' = date then (date', add_to m product v) # dms
      else (date', m) # add_to_date dms date product v)"

fun date_product_map ::
  "js_env \<Rightarrow> string list \<Rightarrow> daily_row list \<Rightarrow> (string \<times> (string \<times> rat) list) list
     \<Rightarrow> error + (string \<times> (string \<times> rat) list) list" where
  "date_product_map env topProducts [] dateProductMap = Inr dateProductMap"
| "date_product_map env topProducts (row # rows) dateProductMap =
     (case extractProductLine env (JStr (q_ad_name row)) of
        Inl e \<Rightarrow> Inl e
      | Inr product \<Rightarrow>
          if product \<notin> set topProducts then date_product_map env topProducts rows dateProductMap
          else date_product_map env topProducts rows
                 (add_to_date dateProductMap (q_full_date row) product
                    (case q_total_results row of None \<Rightarrow> 0 | Some n \<Rightarrow> n)))"

text \<open>
  The statements of the \<^verbatim>\<open>try\<close> block of \<^verbatim>\<open>getProductDaily\<close> that follow the query:
  \<^verbatim>\<open>const topProducts = Object.entries(productTotals)
    .sort((a, b) => b[1] - a[1]).slice(0, limit).map(([name]) => name);
  ...
  const dates = Object.keys(dateProductMap).sort();
  const series = topProducts.map(product => ({
    name: product,
    data: dates.map(date => dateProductMap[date][product] || 0)
  }));
  return jsonResponse({ dates, series, topProducts });\<close>
\<close>

definition product_daily_shape :: "js_env \<Rightarrow> int \<Rightarrow> daily_row list \<Rightarrow> error + response" where
  "product_daily_shape env limit results =
     (case product_totals env results [] of
        Inl e \<Rightarrow> Inl e
      | Inr productTotals \<Rightarrow>
          (let topProducts = map fst (slice0 limit (sort_key (\<lambda>(name, total). - total) productTotals))
           in case date_product_map env topProducts results [] of
                Inl e \<Rightarrow> Inl e
              | Inr dateProductMap \<Rightarrow>
                  (let dates = sort (map fst dateProductMap);
                       series =
                         map (\<lambda>product.
                                JObj [(''name'', JStr product),
                                      (''data'',
                                       JArr (map (\<lambda>date.
                                                    case map_of dateProductMap date of
                                                      None \<Rightarrow> JNum (Fin 0)
                                                    | Some m \<Rightarrow>
                                                        (case map_of m product of
                                                           None \<Rightarrow> JNum (Fin 0)
                                                         | Some n \<Rightarrow> JNum (Fin n)))
                                                 dates))])
                             topProducts
                   in Inr (jsonResponse
                             (JObj [(''dates'', JArr (map JStr dates)),
                                    (''series'', JArr series),
                                    (''topProducts'', JArr (map JStr topProducts))]) 200))))"

text \<open>
  \<^verbatim>\<open>async function getProductDaily(env, params) {
    const db = env.DB;
    const limit = parseInt(params.get('limit')) || 5;
    let startDate = params.get('startDate');
    let endDate = params.get('endDate');
    if (!startDate || !endDate) {
      const end = new Date();
      const start = new Date();
      start.setDate(start.getDate() - 30);
      endDate = end.toISOString().split('T')[0];
      startDate = start.toISOString().split('T')[0];
    }
    const startKey = getDateKey(startDate);
    const endKey = getDateKey(endDate);
    ...
    try {
      const result = await db.prepare(query).bind(startKey, endKey).all();
      ...
    } catch (e) {
      return jsonResponse({ error: e.message }, 500);
    }
  }\<close>
  \<open>params\<close> are the parameters of the request, \<^verbatim>\<open>params.get\<close> returning the first value
  of a name or \<^verbatim>\<open>null\<close>; \<open>now\<close> is the time value of \<^verbatim>\<open>new Date()\<close>. The result is
  the response, or the error that leaves the function.
\<close>

definition params_get :: "(string \<times> string) list \<Rightarrow> string \<Rightarrow> jsval" where
  "params_get params k = (case map_of params k of None \<Rightarrow> JNull | Some v \<Rightarrow> JStr v)"

definition default_window :: "int \<Rightarrow> error + jsval \<times> jsval" where
  "default_window now =
     (let end = Some now;
          start = setDate now (DateFromTime now - 30)
      in case toISOString end of
           Inl e \<Rightarrow> Inl e
         | Inr e_iso \<Rightarrow>
             (case toISOString start of
                Inl e \<Rightarrow> Inl e
              | Inr s_iso \<Rightarrow> Inr (JStr (split_T_0 s_iso), JStr (split_T_0 e_iso))))"

definition getProductDaily ::
  "js_env \<Rightarrow> (sql_query \<Rightarrow> sqlval list \<Rightarrow> daily_row list) \<Rightarrow> int \<Rightarrow> (string \<times> string) list
     \<Rightarrow> error + response" where
  "getProductDaily env engine now params =
     (case parseInt env (params_get params ''limit'') of
        Inl e \<Rightarrow> Inl e
      | Inr n \<Rightarrow>
     (let limit = js_or (JNum n) (JNum (Fin 5))
      in case (if \<not> truthy (params_get params ''startDate'') \<or> \<not> truthy (params_get params ''endDate'')
               then default_window now
               else Inr (params_get params ''startDate'', params_get params ''endDate'')) of
           Inl e \<Rightarrow> Inl e
         | Inr (startDate, endDate) \<Rightarrow>
             (case getDateKey startDate of
                Inl e \<Rightarrow> Inl e
              | Inr startKey \<Rightarrow>
                  (case getDateKey endDate of
                     Inl e \<Rightarrow> Inl e
                   | Inr endKey \<Rightarrow>
                       (case (case d1_all engine product_daily_query [startKey, endKey] of
                                Inl e \<Rightarrow> Inl e
                              | Inr results \<Rightarrow>
                                  product_daily_shape env
                                    (case limit of JNum (Fin l) \<Rightarrow> \<lfloor>l\<rfloor> | _ \<Rightarrow> 0) results) of
                          Inl e \<Rightarrow> Inr (jsonResponse (JObj [(''error'', JStr (message e))]) 500)
                        | Inr resp \<Rightarrow> Inr resp)))))"

section \<open>Sample values\<close>

text \<open>
  An environment whose case mappings change the ASCII letters only, and a store with
  empty tables; the examples below are evaluated on them.
\<close>

definition ascii_env :: js_env where
  "ascii_env =
     \<lparr>toUpperCase = map ascii_upper,
      toLowerCase = map ascii_lower,
      number_to_string = (\<lambda>r. ''0''),
      date_parse_other = (\<lambda>s. None)\<rparr>"

definition empty_store :: store where
  "empty_store =
     \<lparr>dim_campaign = [], seq_campaign = 0, dim_date = [],
      dim_age_group = [], seq_age_group = 0, dim_gender = [], seq_gender = 0,
      dim_region = [], seq_region = 0,
      fact_ads_performance = [], seq_performance = 0,
      fact_ads_demographics = [], seq_demographics = 0,
      fact_ads_regions = [], seq_regions = 0\<rparr>"

text \<open>
  The specification's reading of the product match: some keyword variant of the entry
  occurs in the upper-cased ad name.
\<close>

definition product_matches :: "js_env \<Rightarrow> string \<Rightarrow> string \<times> string list \<Rightarrow> bool" where
  "product_matches env s entry =
     list_ex (\<lambda>keyword. str_includes (toUpperCase env s) (toUpperCase env keyword)) (snd entry)"

text \<open>A store that already holds one campaign.\<close>

definition store_with_campaign :: store where
  "store_with_campaign =
     empty_store\<lparr>dim_campaign :=
                   [\<lparr>c_campaign_id = 1, c_campaign_name = ''Mess FB'',
                     c_platform = ''Facebook'', c_objective = ''Message''\<rparr>],
                 seq_campaign := 1\<rparr>"

section \<open>Stating the claims about ingestion\<close>

text \<open>
  The store in which the loop finds itself after the rows \<open>rows\<close>, and the outcome of the
  \<open>i\<close>-th row of a batch: what the body of the \<^verbatim>\<open>try\<close> block does on that row in the store
  that the rows before it have left. A row fails when its outcome is an error.
\<close>

fun store_after :: "(store \<Rightarrow> jsval \<Rightarrow> (error + unit) \<times> store) \<Rightarrow> store \<Rightarrow> jsval list \<Rightarrow> store" where
  "store_after body db [] = db"
| "store_after body db (row # rows) = store_after body (snd (body db row)) rows"

definition outcome ::
  "(store \<Rightarrow> jsval \<Rightarrow> (error + unit) \<times> store) \<Rightarrow> store \<Rightarrow> jsval list \<Rightarrow> nat \<Rightarrow> error + unit" where
  "outcome body db rows i = fst (body (store_after body db (take i rows)) (rows ! i))"

definition row_fails ::
  "(store \<Rightarrow> jsval \<Rightarrow> (error + unit) \<times> store) \<Rightarrow> store \<Rightarrow> jsval list \<Rightarrow> nat \<Rightarrow> bool" where
  "row_fails body db rows i = (case outcome body db rows i of Inl e \<Rightarrow> True | Inr u \<Rightarrow> False)"

text \<open>The \<^verbatim>\<open>data\<close> member of the envelope of a response.\<close>

definition response_data :: "response \<Rightarrow> jsval" where
  "response_data r = (case member (resp_body r) ''data'' of Some d \<Rightarrow> d | None \<Rightarrow> JUndefined)"

text \<open>
  A value that \<^verbatim>\<open>JSON.stringify\<close> writes as it is: it holds neither \<^verbatim>\<open>undefined\<close> nor a
  number that is NaN or infinite.
\<close>

fun json_value :: "jsval \<Rightarrow> bool"
  and json_values :: "jsval list \<Rightarrow> bool"
  and json_members :: "(string \<times> jsval) list \<Rightarrow> bool" where
  "json_value JUndefined = False"
| "json_value JNull = True"
| "json_value (JBool b) = True"
| "json_value (JNum n) = (case n of Fin r \<Rightarrow> True | _ \<Rightarrow> False)"
| "json_value (JStr s) = True"
| "json_value (JArr xs) = json_values xs"
| "json_value (JObj kvs) = json_members kvs"
| "json_values [] = True"
| "json_values (x # xs) = (json_value x \<and> json_values xs)"
| "json_members [] = True"
| "json_members ((k, v) # kvs) = (json_value v \<and> json_members kvs)"

text \<open>
  The eight values of a performance fact that the fields of the row determine, as they
  are stored: ad set, ad, indicator, action key, amount spent, results, cost per result
  and impressions. There are none when one of the four conversions of the row throws.
\<close>

definition stored :: "jsval \<Rightarrow> sqlval" where
  "stored v = (case d1_bind v of Inr x \<Rightarrow> x | Inl e \<Rightarrow> SNull)"

definition performance_fields :: "js_env \<Rightarrow> jsval \<Rightarrow> sqlval list" where
  "performance_fields env row =
     (case parseVietnameseNumber env (js_prop row ''AmountSpent'') of
        Inl e \<Rightarrow> []
      | Inr amountSpent \<Rightarrow>
     (case parseVietnameseNumber env (js_prop row ''CostPerResult'') of
        Inl e \<Rightarrow> []
      | Inr costPerResult \<Rightarrow>
     (case parseInt env (js_prop row ''Results'') of
        Inl e \<Rightarrow> []
      | Inr results \<Rightarrow>
     (case parseInt env (js_prop row ''Impressions'') of
        Inl e \<Rightarrow> []
      | Inr impressions \<Rightarrow>
          map stored
            [js_or (js_prop row ''AdSet'') JNull,
             js_or (js_prop row ''Ad'') JNull,
             js_or (js_prop row ''Indicator'') JNull,
             js_or (js_prop row ''ActionKey'') JNull,
             JNum amountSpent,
             js_or (JNum results) (JNum (Fin 0)),
             JNum costPerResult,
             js_or (JNum impressions) (JNum (Fin 0))]))))"

definition fact_fields :: "performance_row \<Rightarrow> sqlval list" where
  "fact_fields f =
     [f_adset_name f, f_ad_name f, f_indicator f, f_action_key f,
      f_amount_spent f, f_results f, f_cost_per_result f, f_impressions f]"

text \<open>
  The two keys of the fact of a row: the date key is the number that the digits of the
  \<^verbatim>\<open>Date\<close> of the row spell, and the campaign key is the key under which the campaign
  dimension of a store holds the \<^verbatim>\<open>Campaign\<close> of the row (NULL when there is none).
\<close>

definition row_date_key :: "jsval \<Rightarrow> sqlval" where
  "row_date_key row =
     (case js_prop row ''Date'' of
        JStr s \<Rightarrow> stored (JNum (parseInt_str (remove_all CHR ''-'' s)))
      | _ \<Rightarrow> SNull)"

definition row_campaign_id :: "store \<Rightarrow> jsval \<Rightarrow> sqlval" where
  "row_campaign_id db row =
     (case js_prop row ''Campaign'' of
        JStr s \<Rightarrow>
          (case find (\<lambda>r. c_campaign_name r = s) (dim_campaign db) of
             Some c \<Rightarrow> SNum (of_int (c_campaign_id c))
           | None \<Rightarrow> SNull)
      | _ \<Rightarrow> SNull)"

text \<open>
  A fact row is the fact of a row of the batch, in a store: it has the eight values of
  the row, the date key of the row and the key of its campaign in the store.
\<close>

definition fact_of_row :: "js_env \<Rightarrow> store \<Rightarrow> performance_row \<Rightarrow> jsval \<Rightarrow> bool" where
  "fact_of_row env db f row =
     (fact_fields f = performance_fields env row
      \<and> f_date_key f = row_date_key row \<and> f_date_key f \<noteq> SNull
      \<and> f_campaign_id f = row_campaign_id db row \<and> f_campaign_id f \<noteq> SNull)"

text \<open>The rows of a batch that do not fail, in their order.\<close>

fun successful_rows ::
  "(store \<Rightarrow> jsval \<Rightarrow> (error + unit) \<times> store) \<Rightarrow> store \<Rightarrow> jsval list \<Rightarrow> jsval list" where
  "successful_rows body db [] = []"
| "successful_rows body db (row # rows) =
     (case fst (body db row) of
        Inr u \<Rightarrow> row # successful_rows body (snd (body db row)) rows
      | Inl e \<Rightarrow> successful_rows body (snd (body db row)) rows)"

text \<open>A batch of three rows, the second of which names no campaign.\<close>

definition sample_batch :: "jsval list" where
  "sample_batch =
     [JObj [(''Campaign'', JStr ''Mess FB Perfume''), (''Date'', JStr ''2025-10-14''),
            (''Ad'', JStr ''DIRTY MILK 50ml Promo''), (''AmountSpent'', JStr ''5.676,62''),
            (''Results'', JStr ''12''), (''Impressions'', JStr ''1000'')],
      JObj [(''Date'', JStr ''2025-10-14''), (''AmountSpent'', JStr ''100''),
            (''Results'', JStr ''1''), (''Impressions'', JStr ''10'')],
      JObj [(''Campaign'', JStr ''Visit IG Launch''), (''Date'', JStr ''2025-10-15''),
            (''AmountSpent'', JNum (Fin 42)), (''Results'', JStr ''3''),
            (''Impressions'', JStr ''250'')]]"

section \<open>Stating the claim about the parsing of numbers\<close>

text \<open>
  The values that \<^verbatim>\<open>String(v)\<close> converts: every value but an object that has a member
  \<^verbatim>\<open>toString\<close> of its own, and an array that holds a value it does not convert.
\<close>

fun convertible :: "jsval \<Rightarrow> bool" and convertible_elems :: "jsval list \<Rightarrow> bool" where
  "convertible JUndefined = True"
| "convertible JNull = True"
| "convertible (JBool b) = True"
| "convertible (JNum n) = True"
| "convertible (JStr s) = True"
| "convertible (JArr xs) = convertible_elems xs"
| "convertible (JObj kvs) = (''toString'' \<notin> set (map fst kvs))"
| "convertible_elems [] = True"
| "convertible_elems (x # xs) = (convertible x \<and> convertible_elems xs)"

section \<open>Stating the claims about the date dimension\<close>

text \<open>
  The number of days from January 1 of the year to the date, and the day of the week of
  a date as JavaScript counts it (0 = Sunday, ..., 6 = Saturday; 1970-01-01, day 0, was a
  Thursday).
\<close>

definition days_since_jan1 :: "int \<Rightarrow> int \<Rightarrow> int \<Rightarrow> int" where
  "days_since_jan1 y m d = MakeDay y (m - 1) d - MakeDay y 0 1"

definition js_weekday :: "int \<Rightarrow> int \<Rightarrow> int \<Rightarrow> int" where
  "js_weekday y m d = (MakeDay y (m - 1) d + 4) mod 7"

text \<open>
  The week of the year in the specification's words: the days since January 1, divided
  by 7 and rounded up.
\<close>

definition spec_week_of_year :: "int \<Rightarrow> int \<Rightarrow> int \<Rightarrow> int" where
  "spec_week_of_year y m d = - ((- days_since_jan1 y m d) div 7)"

section \<open>Channel classification: proofs\<close>

lemma like_percent: "sql_like ''%'' s"
  by (induction s) auto

lemma like_tail: "\<forall>c\<in>set tok. c \<noteq> CHR ''%'' \<and> c \<noteq> CHR ''_'' \<Longrightarrow>
  sql_like (tok @ ''%'') s \<longleftrightarrow> (\<exists>mid suf. s = mid @ suf \<and> map ascii_lower mid = map ascii_lower tok)"
proof (induction tok arbitrary: s)
  case Nil
  then show ?case by (simp add: like_percent)
next
  case (Cons a tok)
  show ?case
  proof (cases s)
    case Nil
    then show ?thesis using Cons.prems by simp
  next
    case (Cons c t)
    have IH: "sql_like (tok @ ''%'') t \<longleftrightarrow> (\<exists>mid suf. t = mid @ suf \<and> map ascii_lower mid = map ascii_lower tok)"
      using Cons.IH Cons.prems by simp
    have "(\<exists>mid suf. c # t = mid @ suf \<and> map ascii_lower mid = map ascii_lower (a # tok))
       \<longleftrightarrow> (ascii_lower a = ascii_lower c \<and> (\<exists>mid suf. t = mid @ suf \<and> map ascii_lower mid = map ascii_lower tok))"
      (is "?L \<longleftrightarrow> ?R")
    proof
      assume ?L
      then obtain mid suf where h: "c # t = mid @ suf" "map ascii_lower mid = map ascii_lower (a # tok)" by blast
      from h(2) obtain m ms where mid: "mid = m # ms" by (cases mid) auto
      with h show ?R by auto
    next
      assume ?R
      then obtain mid suf where "t = mid @ suf" "map ascii_lower mid = map ascii_lower tok" "ascii_lower a = ascii_lower c" by blast
      then have "c # t = (c # mid) @ suf \<and> map ascii_lower (c # mid) = map ascii_lower (a # tok)" by simp
      then show ?L by blast
    qed
    then show ?thesis using Cons.prems IH unfolding Cons by simp
  qed
qed

lemma ci_contains_Cons:
  "ci_contains tok (c # s) \<longleftrightarrow>
     (\<exists>mid suf. c # s = mid @ suf \<and> map ascii_lower mid = map ascii_lower tok) \<or> ci_contains tok s"
  (is "?L \<longleftrightarrow> ?A \<or> ?B")
proof
  assume ?L
  then obtain pre mid suf where h: "c # s = pre @ mid @ suf" "map ascii_lower mid = map ascii_lower tok"
    unfolding ci_contains_def by blast
  show "?A \<or> ?B"
  proof (cases pre)
    case Nil
    with h show ?thesis by auto
  next
    case (Cons p ps)
    with h have "s = ps @ mid @ suf" by simp
    with h(2) show ?thesis unfolding ci_contains_def by blast
  qed
next
  assume "?A \<or> ?B"
  then show ?L
  proof
    assume ?A
    then obtain mid suf where "c # s = [] @ mid @ suf" "map ascii_lower mid = map ascii_lower tok" by auto
    then show ?L unfolding ci_contains_def by blast
  next
    assume ?B
    then obtain pre mid suf where "s = pre @ mid @ suf" "map ascii_lower mid = map ascii_lower tok"
      unfolding ci_contains_def by blast
    then have "c # s = (c # pre) @ mid @ suf" by simp
    with \<open>map ascii_lower mid = map ascii_lower tok\<close> show ?L unfolding ci_contains_def by blast
  qed
qed

lemma like_contains: 
  assumes "\<forall>c\<in>set tok. c \<noteq> CHR ''%'' \<and> c \<noteq> CHR ''_''"
  shows "sql_like (CHR ''%'' # tok @ ''%'') s \<longleftrightarrow> ci_contains tok s"
proof (induction s)
  case Nil
  show ?case using like_tail[OF assms, of "[]"] by (cases tok) (auto simp: ci_contains_def)
next
  case (Cons c s)
  have "sql_like (CHR ''%'' # tok @ ''%'') (c # s) \<longleftrightarrow> sql_like (tok @ ''%'') (c # s) \<or> sql_like (CHR ''%'' # tok @ ''%'') s"
    by simp
  then show ?case using Cons.IH like_tail[OF assms, of "c # s"] ci_contains_Cons[of tok c s] by simp
qed

lemma like_FB: "sql_like ''%FB%'' s \<longleftrightarrow> ci_contains ''FB'' s"
  using like_contains[of "''FB''" s] by simp

lemma like_Facebook: "sql_like ''%Facebook%'' s \<longleftrightarrow> ci_contains ''Facebook'' s"
  using like_contains[of "''Facebook''" s] by simp

lemma like_IG: "sql_like ''%IG%'' s \<longleftrightarrow> ci_contains ''IG'' s"
  using like_contains[of "''IG''" s] by simp

lemma like_Instagram: "sql_like ''%Instagram%'' s \<longleftrightarrow> ci_contains ''Instagram'' s"
  using like_contains[of "''Instagram''" s] by simp

text \<open>
  C7. For every campaign name the channel is decided by substring matches that ignore the
  case of letters, tried in a fixed order: Facebook when the name contains \<open>FB\<close> or
  \<open>Facebook\<close>, otherwise Instagram when it contains \<open>IG\<close> or \<open>Instagram\<close>, otherwise
  Other. A name that contains a Facebook token and an Instagram token is Facebook.
\<close>

theorem channel_classification:
  "channel name =
     (if ci_contains ''FB'' name \<or> ci_contains ''Facebook'' name then ''Facebook''
      else if ci_contains ''IG'' name \<or> ci_contains ''Instagram'' name then ''Instagram''
      else ''Other'')
   \<and> ((ci_contains ''FB'' name \<or> ci_contains ''Facebook'' name)
        \<and> (ci_contains ''IG'' name \<or> ci_contains ''Instagram'' name)
      \<longrightarrow> channel name = ''Facebook'')"
  by (simp add: channel_def like_FB like_Facebook like_IG like_Instagram)

theorem channel_classification_witness:
  "(ci_contains ''Facebook'' ''ig facebook'' \<and> ci_contains ''IG'' ''ig facebook'')
   \<and> channel ''ig facebook'' = ''Facebook''"
proof -
  have "sql_like ''%Facebook%'' ''ig facebook''" by code_simp
  then have a: "ci_contains ''Facebook'' ''ig facebook''"
    by (simp only: like_Facebook)
  have "sql_like ''%IG%'' ''ig facebook''" by code_simp
  then have b: "ci_contains ''IG'' ''ig facebook''"
    by (simp only: like_IG)
  show ?thesis using a b channel_classification[of "''ig facebook''"] by simp
qed

section \<open>Numbers, resolvers on missing keys, product lines: proofs\<close>

lemma ToString_convertible:
  "(convertible v \<longrightarrow> (\<exists>str. ToString env v = Inr str))
   \<and> (\<not> convertible v \<longrightarrow> ToString env v = Inl cannot_convert)"
  "(convertible_elems xs \<longrightarrow> (\<exists>strs. ToString_elems env xs = Inr strs))
   \<and> (\<not> convertible_elems xs \<longrightarrow> ToString_elems env xs = Inl cannot_convert)"
proof (induction env v and env xs rule: ToString_ToString_elems.induct)
  case (9 env x xs)
  show ?case
  proof (cases "x = JUndefined \<or> x = JNull")
    case True
    then show ?thesis using 9(2)[of "[]"] by auto
  next
    case False
    show ?thesis
    proof (cases "convertible x")
      case True
      with False 9(1) obtain str where str: "ToString env x = Inr str" by auto
      then show ?thesis using False True 9(2)[of str] by auto
    next
      case c: False
      with False 9(1) have "ToString env x = Inl cannot_convert" by auto
      then show ?thesis using False c by simp
    qed
  qed
qed auto

lemma parseVietnameseNumber_JStr:
  "parseVietnameseNumber env (JStr s) =
     Inr (case parseFloat (replace_first CHR '','' CHR ''.'' (remove_all CHR ''.'' s)) of
            NaN \<Rightarrow> Fin 0 | p \<Rightarrow> p)"
proof (cases "s = []")
  case True
  have "parseFloat [] = NaN" by code_simp
  then show ?thesis using True by (simp add: parseVietnameseNumber_def remove_all_def)
next
  case False
  then show ?thesis
    by (auto simp: parseVietnameseNumber_def Let_def split: jsnum.splits)
qed

lemma parseVietnameseNumber_convertible:
  assumes "convertible v"
  shows "\<exists>n. parseVietnameseNumber env v = Inr n \<and> n \<noteq> NaN"
proof -
  from assms obtain str where "ToString env v = Inr str"
    using ToString_convertible(1)[of v env] by auto
  then show ?thesis
    by (cases v) (auto simp: parseVietnameseNumber_def Let_def simp del: ToString.simps)
qed

lemma parseVietnameseNumber_not_convertible:
  assumes "\<not> convertible v"
  shows "parseVietnameseNumber env v = Inl cannot_convert"
proof -
  from assms have t: "ToString env v = Inl cannot_convert"
    using ToString_convertible(1)[of v env] by auto
  from assms have "(\<exists>xs. v = JArr xs) \<or> (\<exists>kvs. v = JObj kvs)" by (cases v) auto
  then show ?thesis using t by (auto simp: parseVietnameseNumber_def simp del: ToString.simps)
qed

text \<open>
  C10, as amended. parseVietnameseNumber returns a number, and never NaN, for every
  input that \<^verbatim>\<open>String(value)\<close> converts, which is every input but an object with a member
  \<^verbatim>\<open>toString\<close> of its own and an array holding such an object; on those it raises the
  TypeError of the conversion. A number is returned as it is, a string has its dots
  removed and its first comma made a dot before parseFloat reads it, and a failed parse or
  a missing or empty input gives 0. In particular \<open>5.676,62\<close> gives 5676.62, the empty
  string 0 and 42 gives 42.
\<close>

theorem parseVietnameseNumber_on_convertible:
  "(convertible v \<longrightarrow> (\<exists>r. parseVietnameseNumber env v = Inr r \<and> r \<noteq> NaN))
   \<and> (\<not> convertible v \<longrightarrow> parseVietnameseNumber env v = Inl cannot_convert)
   \<and> (n \<noteq> NaN \<longrightarrow> parseVietnameseNumber env (JNum n) = Inr n)
   \<and> parseVietnameseNumber env (JStr s) =
       Inr (case parseFloat (replace_first CHR '','' CHR ''.'' (remove_all CHR ''.'' s)) of
              NaN \<Rightarrow> Fin 0 | p \<Rightarrow> p)
   \<and> CHR ''.'' \<notin> set (remove_all CHR ''.'' s)
   \<and> parseVietnameseNumber env JUndefined = Inr (Fin 0)
   \<and> parseVietnameseNumber env JNull = Inr (Fin 0)
   \<and> parseVietnameseNumber env (JStr '''') = Inr (Fin 0)
   \<and> parseVietnameseNumber env (JStr ''5.676,62'') = Inr (Fin (567662 / 100))
   \<and> parseVietnameseNumber env (JNum (Fin 42)) = Inr (Fin 42)"
proof -
  have a: "n \<noteq> NaN \<longrightarrow> parseVietnameseNumber env (JNum n) = Inr n"
    by (auto simp: parseVietnameseNumber_def)
  have b: "CHR ''.'' \<notin> set (remove_all CHR ''.'' s)"
    by (simp add: remove_all_def)
  have c: "parseVietnameseNumber env JUndefined = Inr (Fin 0)"
    "parseVietnameseNumber env JNull = Inr (Fin 0)"
    "parseVietnameseNumber env (JStr '''') = Inr (Fin 0)"
    by (simp_all add: parseVietnameseNumber_def)
  have "parseFloat (replace_first CHR '','' CHR ''.'' (remove_all CHR ''.'' ''5.676,62'')) = Fin (567662 / 100)"
    by code_simp
  then have d: "parseVietnameseNumber env (JStr ''5.676,62'') = Inr (Fin (567662 / 100))"
    by (simp only: parseVietnameseNumber_JStr jsnum.case)
  have e: "parseVietnameseNumber env (JNum (Fin 42)) = Inr (Fin 42)"
    by (simp add: parseVietnameseNumber_def)
  show ?thesis
    using parseVietnameseNumber_convertible[of v env] parseVietnameseNumber_not_convertible[of v env]
      a b c d e parseVietnameseNumber_JStr[of env s]
    by blast
qed

theorem parseVietnameseNumber_on_convertible_witness:
  "convertible (JArr [JStr ''1.234,5'', JNull])
   \<and> (\<exists>r. parseVietnameseNumber ascii_env (JArr [JStr ''1.234,5'', JNull]) = Inr r \<and> r \<noteq> NaN)
   \<and> \<not> convertible (JArr [JNum (Fin 7), JObj [(''toString'', JNull)]])
   \<and> parseVietnameseNumber ascii_env (JArr [JNum (Fin 7), JObj [(''toString'', JNull)]])
       = Inl cannot_convert
   \<and> Fin (- 3 / 2) \<noteq> NaN
   \<and> parseVietnameseNumber ascii_env (JNum (Fin (- 3 / 2))) = Inr (Fin (- 3 / 2))"
proof -
  have c: "convertible (JArr [JStr ''1.234,5'', JNull])" by simp
  have d: "\<not> convertible (JArr [JNum (Fin 7), JObj [(''toString'', JNull)]])" by simp
  show ?thesis
    using c d
      parseVietnameseNumber_on_convertible[of "JArr [JStr ''1.234,5'', JNull]" ascii_env
        "Fin (- 3 / 2)" "[]"]
      parseVietnameseNumber_on_convertible[of "JArr [JNum (Fin 7), JObj [(''toString'', JNull)]]"
        ascii_env "Fin (- 3 / 2)" "[]"]
    by simp
qed

text \<open>
  C10 as stated fails: on the object \<^verbatim>\<open>{"toString": 1}\<close> the function raises a TypeError.
  A row of a batch can hold such an object as its \<^verbatim>\<open>AmountSpent\<close>; the error then leaves
  the \<^verbatim>\<open>try\<close> block of the row.
\<close>

theorem parseVietnameseNumber_raises_counterexample:
  "parseVietnameseNumber ascii_env (JObj [(''toString'', JNum (Fin 1))])
     = Inl (TypeError ''Cannot convert object to primitive value'')
   \<and> outcome (performance_body ascii_env) empty_store
        [JObj [(''Campaign'', JStr ''Mess FB Perfume''), (''Date'', JStr ''2025-10-14''),
               (''AmountSpent'', JObj [(''toString'', JNum (Fin 1))])]] 0
     = Inl (TypeError ''Cannot convert object to primitive value'')"
  by code_simp

text \<open>
  C5, as amended. On a missing or empty natural key (any falsy value) the campaign, date
  and region resolvers return \<^verbatim>\<open>null\<close>, the age resolver returns the key 1 of the first
  seeded age group and the gender resolver the key 3 of \<open>unknown\<close>; none of them touches
  the store.
\<close>

theorem resolvers_on_missing_key:
  "\<not> truthy v \<Longrightarrow>
     getOrCreateCampaign db v = (Inr JNull, db)
     \<and> getOrCreateDate env db v = (Inr JNull, db)
     \<and> getOrCreateRegion db v = (Inr JNull, db)
     \<and> getOrCreateAge db v = (Inr (JNum (Fin 1)), db)
     \<and> getOrCreateGender env db v = (Inr (JNum (Fin 3)), db)"
  by (simp add: getOrCreateCampaign_def getOrCreateDate_def getOrCreateRegion_def
        getOrCreateAge_def getOrCreateGender_def)

theorem resolvers_on_missing_key_witness:
  "\<not> truthy (JStr '''')
   \<and> getOrCreateCampaign empty_store (JStr '''') = (Inr JNull, empty_store)
   \<and> getOrCreateDate ascii_env empty_store (JStr '''') = (Inr JNull, empty_store)
   \<and> getOrCreateRegion empty_store (JStr '''') = (Inr JNull, empty_store)
   \<and> getOrCreateAge empty_store (JStr '''') = (Inr (JNum (Fin 1)), empty_store)
   \<and> getOrCreateGender ascii_env empty_store (JStr '''') = (Inr (JNum (Fin 3)), empty_store)"
  using resolvers_on_missing_key[of "JStr ''''" empty_store ascii_env] by simp

text \<open>
  C5 as stated fails: on a missing key the age and gender resolvers do not return
  \<^verbatim>\<open>null\<close>.
\<close>

theorem resolvers_null_counterexample:
  "fst (getOrCreateAge empty_store JUndefined) \<noteq> Inr JNull
   \<and> fst (getOrCreateGender ascii_env empty_store JUndefined) \<noteq> Inr JNull"
  by (simp add: getOrCreateAge_def getOrCreateGender_def)

lemma starts_with_iff: "starts_with k s \<longleftrightarrow> (\<exists>suf. s = k @ suf)"
  unfolding starts_with_def
  by (metis append_eq_conv_conj append_take_drop_id)

lemma str_includes_iff: "str_includes s k \<longleftrightarrow> (\<exists>pre suf. s = pre @ k @ suf)"
proof (induction s)
  case Nil
  then show ?case by auto
next
  case (Cons c s)
  have "(\<exists>pre suf. c # s = pre @ k @ suf) \<longleftrightarrow> (\<exists>suf. c # s = k @ suf) \<or> (\<exists>pre suf. s = pre @ k @ suf)"
    (is "?L \<longleftrightarrow> ?A \<or> ?B")
  proof
    assume ?L
    then obtain pre suf where h: "c # s = pre @ k @ suf" by blast
    show "?A \<or> ?B"
    proof (cases pre)
      case Nil
      with h show ?thesis by auto
    next
      case (Cons p ps)
      with h have "s = ps @ k @ suf" by simp
      then show ?thesis by blast
    qed
  next
    assume "?A \<or> ?B"
    then show ?L
    proof
      assume ?A
      then obtain suf where "c # s = [] @ k @ suf" by auto
      then show ?L by blast
    next
      assume ?B
      then obtain pre suf where "s = pre @ k @ suf" by blast
      then have "c # s = (c # pre) @ k @ suf" by simp
      then show ?L by blast
    qed
  qed
  then show ?case using Cons.IH by (simp add: starts_with_iff)
qed

lemma keyword_loop_iff:
  "keyword_loop env u kws \<longleftrightarrow> list_ex (\<lambda>keyword. str_includes u (toUpperCase env keyword)) kws"
  by (induction kws) auto

lemma product_loop_none:
  "(\<forall>i < length m. \<not> product_matches env s (m ! i)) \<Longrightarrow> product_loop env (toUpperCase env s) m = None"
proof (induction m)
  case Nil
  then show ?case by simp
next
  case (Cons e m)
  obtain p kws where e: "e = (p, kws)" by (cases e)
  from Cons.prems have "\<not> product_matches env s ((e # m) ! 0)" by blast
  then have h0: "\<not> keyword_loop env (toUpperCase env s) kws"
    by (simp add: e product_matches_def keyword_loop_iff)
  have "\<forall>i < length m. \<not> product_matches env s (m ! i)"
  proof (intro allI impI)
    fix i assume "i < length m"
    then have "Suc i < length (e # m)" by simp
    with Cons.prems have "\<not> product_matches env s ((e # m) ! Suc i)" by blast
    then show "\<not> product_matches env s (m ! i)" by simp
  qed
  with Cons.IH h0 show ?case by (simp add: e)
qed

lemma product_loop_first:
  "i < length m \<Longrightarrow> product_matches env s (m ! i) \<Longrightarrow> (\<forall>j < i. \<not> product_matches env s (m ! j))
   \<Longrightarrow> product_loop env (toUpperCase env s) m = Some (fst (m ! i))"
proof (induction m arbitrary: i)
  case Nil
  then show ?case by simp
next
  case (Cons e m)
  obtain p kws where e: "e = (p, kws)" by (cases e)
  show ?case
  proof (cases i)
    case 0
    with Cons.prems show ?thesis by (simp add: e product_matches_def keyword_loop_iff)
  next
    case (Suc k)
    with Cons.prems have "\<not> product_matches env s ((e # m) ! 0)" by blast
    then have h0: "\<not> keyword_loop env (toUpperCase env s) kws"
      by (simp add: e product_matches_def keyword_loop_iff)
    have k: "k < length m" "product_matches env s (m ! k)" using Cons.prems Suc by auto
    have "\<forall>j < k. \<not> product_matches env s (m ! j)"
    proof (intro allI impI)
      fix j assume "j < k"
      then have "Suc j < i" using Suc by simp
      with Cons.prems have "\<not> product_matches env s ((e # m) ! Suc j)" by blast
      then show "\<not> product_matches env s (m ! j)" by simp
    qed
    with Cons.IH[OF k] h0 show ?thesis by (simp add: e Suc)
  qed
qed

text \<open>
  C8. The ad name is upper-cased and tested against the product table in the order of
  its declaration: the first product with a keyword variant that occurs in the name is
  the result, \<open>Mix Product\<close> when there is none; an empty or absent name is
  \<open>Mix Product\<close> at once, before any upper-casing (which would throw on \<^verbatim>\<open>null\<close>).
\<close>

theorem extractProductLine_first_match:
  "(\<not> truthy adName \<longrightarrow> extractProductLine env adName = Inr ''Mix Product'')
   \<and> (s \<noteq> [] \<longrightarrow>
        ((\<forall>i < length productMapping. \<not> product_matches env s (productMapping ! i))
            \<longrightarrow> extractProductLine env (JStr s) = Inr ''Mix Product'')
      \<and> (\<forall>i < length productMapping.
            product_matches env s (productMapping ! i)
            \<and> (\<forall>j < i. \<not> product_matches env s (productMapping ! j))
            \<longrightarrow> extractProductLine env (JStr s) = Inr (fst (productMapping ! i))))"
proof -
  have a: "\<not> truthy adName \<longrightarrow> extractProductLine env adName = Inr ''Mix Product''"
    by (simp add: extractProductLine_def extractProductLine_in_def)
  have b: "extractProductLine env (JStr s) = Inr ''Mix Product''"
    if "s \<noteq> []" "\<forall>i < length productMapping. \<not> product_matches env s (productMapping ! i)"
    using that product_loop_none[of productMapping env s]
    by (simp add: extractProductLine_def extractProductLine_in_def)
  have c: "extractProductLine env (JStr s) = Inr (fst (productMapping ! i))"
    if "s \<noteq> []" "i < length productMapping" "product_matches env s (productMapping ! i)"
       "\<forall>j < i. \<not> product_matches env s (productMapping ! j)" for i
    using that product_loop_first[of i productMapping env s]
    by (simp add: extractProductLine_def extractProductLine_in_def)
  show ?thesis using a b c by blast
qed

theorem extractProductLine_first_match_witness:
  "\<not> truthy JNull \<and> extractProductLine ascii_env JNull = Inr ''Mix Product''
   \<and> ''DIRTY MILK 50ml Promo'' \<noteq> []
   \<and> (0::nat) < length productMapping
   \<and> product_matches ascii_env ''DIRTY MILK 50ml Promo'' (productMapping ! 0)
   \<and> extractProductLine ascii_env (JStr ''DIRTY MILK 50ml Promo'') = Inr ''DIRTY MILK''
   \<and> list_all (\<lambda>entry. \<not> product_matches ascii_env ''Random Ad'' entry) productMapping
   \<and> extractProductLine ascii_env (JStr ''Random Ad'') = Inr ''Mix Product''"
proof -
  have l: "(0::nat) < length productMapping" by (simp add: productMapping_def)
  have f: "fst (productMapping ! 0) = ''DIRTY MILK''" by (simp add: productMapping_def)
  have m: "product_matches ascii_env ''DIRTY MILK 50ml Promo'' (productMapping ! 0)"
    by code_simp
  have n0: "list_all (\<lambda>entry. \<not> product_matches ascii_env ''Random Ad'' entry) productMapping"
    by code_simp
  have n: "\<forall>i < length productMapping. \<not> product_matches ascii_env ''Random Ad'' (productMapping ! i)"
    using n0 by (simp add: list_all_length)
  note t1 = extractProductLine_first_match[of JNull ascii_env "''DIRTY MILK 50ml Promo''"]
  note t2 = extractProductLine_first_match[of JNull ascii_env "''Random Ad''"]
  have a: "extractProductLine ascii_env JNull = Inr ''Mix Product''"
    using t1 by simp
  have "extractProductLine ascii_env (JStr ''DIRTY MILK 50ml Promo'') = Inr (fst (productMapping ! 0))"
    using t1 l m by blast
  then have b: "extractProductLine ascii_env (JStr ''DIRTY MILK 50ml Promo'') = Inr ''DIRTY MILK''"
    by (simp only: f)
  have c: "extractProductLine ascii_env (JStr ''Random Ad'') = Inr ''Mix Product''"
    using t2 n by blast
  show ?thesis using a b c l m n0 by simp
qed

section \<open>Campaign resolution: proofs\<close>

lemma find_None_iff_set: "find P xs = None \<longleftrightarrow> (\<forall>x \<in> set xs. \<not> P x)"
  by (induction xs) auto

lemma find_snoc_new: "find P xs = None \<Longrightarrow> P x \<Longrightarrow> find P (xs @ [x]) = Some x"
  by (induction xs) (auto split: if_splits)

lemma find_Some_holds: "find P xs = Some x \<Longrightarrow> P x \<and> x \<in> set xs"
  by (induction xs) (auto split: if_splits)

text \<open>
  C9, as amended. For every non-empty campaign name and every store, resolving the name
  twice succeeds both times with the same key, and the second resolve leaves the store
  as the first left it. The first resolve inserts one row when the store does not hold
  the name, and nothing when it does: at most one insert, never an update.
\<close>

theorem getOrCreateCampaign_idempotent:
  assumes "s \<noteq> []"
  shows "\<exists>k db1.
           getOrCreateCampaign db (JStr s) = (Inr (JNum (Fin (of_int k))), db1)
         \<and> getOrCreateCampaign db1 (JStr s) = (Inr (JNum (Fin (of_int k))), db1)
         \<and> (if \<exists>r \<in> set (dim_campaign db). c_campaign_name r = s then db1 = db
            else \<exists>row. c_campaign_name row = s \<and> c_campaign_id row = k
                   \<and> db1 = db\<lparr>dim_campaign := dim_campaign db @ [row], seq_campaign := k\<rparr>)"
proof (cases "find (\<lambda>r. c_campaign_name r = s) (dim_campaign db)")
  case (Some existing)
  then have ex: "\<exists>r \<in> set (dim_campaign db). c_campaign_name r = s"
    using find_Some_holds[OF Some] by blast
  have "getOrCreateCampaign db (JStr s) = (Inr (JNum (Fin (of_int (c_campaign_id existing)))), db)"
    using assms Some by (simp add: getOrCreateCampaign_def)
  with ex show ?thesis by auto
next
  case None
  then have nex: "\<not> (\<exists>r \<in> set (dim_campaign db). c_campaign_name r = s)"
    by (simp add: find_None_iff_set)
  define objective where "objective =
     (if str_includes s ''Impression'' then ''Impression''
      else if str_includes s ''Visit'' then ''Visit''
      else if str_includes s ''Mess'' then ''Message''
      else ''Unknown'')"
  define k where "k = next_rowid (seq_campaign db) (map c_campaign_id (dim_campaign db))"
  define row where "row = \<lparr>c_campaign_id = k, c_campaign_name = s,
                          c_platform = ''Facebook'', c_objective = objective\<rparr>"
  define db1 where "db1 = db\<lparr>dim_campaign := dim_campaign db @ [row], seq_campaign := k\<rparr>"
  have ins: "insert_campaign db s objective = Inr (k, db1)"
    using nex by (simp add: insert_campaign_def k_def row_def db1_def Let_def)
  have first: "getOrCreateCampaign db (JStr s) = (Inr (JNum (Fin (of_int k))), db1)"
    using assms None ins by (simp add: getOrCreateCampaign_def objective_def)
  have "find (\<lambda>r. c_campaign_name r = s) (dim_campaign db1) = Some row"
    using find_snoc_new[OF None, of row] by (simp add: db1_def row_def)
  then have second: "getOrCreateCampaign db1 (JStr s) = (Inr (JNum (Fin (of_int k))), db1)"
    using assms by (simp add: getOrCreateCampaign_def row_def)
  have "c_campaign_name row = s \<and> c_campaign_id row = k
        \<and> db1 = db\<lparr>dim_campaign := dim_campaign db @ [row], seq_campaign := k\<rparr>"
    by (simp add: row_def db1_def)
  with first second nex show ?thesis by auto
qed

theorem getOrCreateCampaign_idempotent_witness:
  "''Visit IG'' \<noteq> []
   \<and> getOrCreateCampaign empty_store (JStr ''Visit IG'')
       = (Inr (JNum (Fin 1)),
          empty_store\<lparr>dim_campaign := [\<lparr>c_campaign_id = 1, c_campaign_name = ''Visit IG'',
                                        c_platform = ''Facebook'', c_objective = ''Visit''\<rparr>],
                      seq_campaign := 1\<rparr>)
   \<and> getOrCreateCampaign (snd (getOrCreateCampaign empty_store (JStr ''Visit IG''))) (JStr ''Visit IG'')
       = getOrCreateCampaign empty_store (JStr ''Visit IG'')"
proof -
  have ne: "''Visit IG'' \<noteq> []" by simp
  obtain k db1 where
    h: "getOrCreateCampaign empty_store (JStr ''Visit IG'') = (Inr (JNum (Fin (of_int k))), db1)"
       "getOrCreateCampaign db1 (JStr ''Visit IG'') = (Inr (JNum (Fin (of_int k))), db1)"
    using getOrCreateCampaign_idempotent[OF ne, of empty_store] by blast
  have v: "getOrCreateCampaign empty_store (JStr ''Visit IG'')
       = (Inr (JNum (Fin 1)),
          empty_store\<lparr>dim_campaign := [\<lparr>c_campaign_id = 1, c_campaign_name = ''Visit IG'',
                                        c_platform = ''Facebook'', c_objective = ''Visit''\<rparr>],
                      seq_campaign := 1\<rparr>)"
    by code_simp
  show ?thesis using ne h v by simp
qed

text \<open>
  C9 as stated fails: in a store that holds the campaign already, the two resolves
  insert no row at all.
\<close>

theorem getOrCreateCampaign_one_insert_counterexample:
  "length (dim_campaign
             (snd (getOrCreateCampaign
                     (snd (getOrCreateCampaign store_with_campaign (JStr ''Mess FB'')))
                     (JStr ''Mess FB''))))
     = length (dim_campaign store_with_campaign)
   \<and> fst (getOrCreateCampaign store_with_campaign (JStr ''Mess FB'')) = Inr (JNum (Fin 1))"
  by code_simp

section \<open>The ingestion loop: proofs\<close>

text \<open>The error entries and the count of successes that the loop adds, row by row.\<close>

lemma outcome_0: "outcome body db (row # rows) 0 = fst (body db row)"
  by (simp add: outcome_def)

lemma outcome_Suc: "outcome body db (row # rows) (Suc i) = outcome body (snd (body db row)) rows i"
  by (simp add: outcome_def)

lemma ingest_loop_store:
  "fst (ingest_loop body rows db p es) = store_after body db rows"
  by (induction rows arbitrary: db p es) (auto split: prod.splits sum.splits)

lemma ingest_loop_all_succeed:
  "(\<forall>i < length rows. outcome body db rows i = Inr ()) \<Longrightarrow>
     ingest_loop body rows db p es = (store_after body db rows, p + int (length rows), es)"
proof (induction rows arbitrary: db p es)
  case Nil
  then show ?case by simp
next
  case (Cons row rows)
  from Cons.prems have h0: "fst (body db row) = Inr ()"
    using outcome_0[of body db row rows] by auto
  have hs: "\<forall>i < length rows. outcome body (snd (body db row)) rows i = Inr ()"
  proof (intro allI impI)
    fix i assume "i < length rows"
    then have "Suc i < length (row # rows)" by simp
    with Cons.prems have "outcome body db (row # rows) (Suc i) = Inr ()" by blast
    then show "outcome body (snd (body db row)) rows i = Inr ()" by (simp add: outcome_Suc)
  qed
  obtain r db' where b: "body db row = (r, db')" by (cases "body db row")
  with h0 have r: "r = Inr ()" by simp
  show ?case using Cons.IH[OF hs, of "p + 1" es] b r by simp
qed

lemma ingest_loop_one_fails:
  "k < length rows \<Longrightarrow> outcome body db rows k = Inl e \<Longrightarrow>
   (\<forall>i < length rows. i \<noteq> k \<longrightarrow> outcome body db rows i = Inr ()) \<Longrightarrow>
     ingest_loop body rows db p es =
       (store_after body db rows, p + int (length rows) - 1,
        es @ [JObj [(''row'', rows ! k), (''error'', JStr (message e))]])"
proof (induction rows arbitrary: db p es k)
  case Nil
  then show ?case by simp
next
  case (Cons row rows)
  obtain r db' where b: "body db row = (r, db')" by (cases "body db row")
  show ?case
  proof (cases k)
    case 0
    with Cons.prems have r: "r = Inl e" using b by (simp add: outcome_0)
    have hs: "\<forall>i < length rows. outcome body db' rows i = Inr ()"
    proof (intro allI impI)
      fix i assume "i < length rows"
      then have "Suc i < length (row # rows)" "Suc i \<noteq> k" using 0 by simp_all
      with Cons.prems have "outcome body db (row # rows) (Suc i) = Inr ()" by blast
      then show "outcome body db' rows i = Inr ()" using b by (simp add: outcome_Suc)
    qed
    show ?thesis
      using ingest_loop_all_succeed[OF hs, of p "es @ [JObj [(''row'', row), (''error'', JStr (message e))]]"]
        b r 0 by simp
  next
    case (Suc j)
    with Cons.prems have "outcome body db (row # rows) 0 = Inr ()" by blast
    then have r: "r = Inr ()" using b by (simp add: outcome_0)
    have j: "j < length rows" "outcome body db' rows j = Inl e"
      using Cons.prems Suc b by (simp_all add: outcome_Suc)
    have hs: "\<forall>i < length rows. i \<noteq> j \<longrightarrow> outcome body db' rows i = Inr ()"
    proof (intro allI impI)
      fix i assume "i < length rows" "i \<noteq> j"
      then have "Suc i < length (row # rows)" "Suc i \<noteq> k" using Suc by simp_all
      with Cons.prems have "outcome body db (row # rows) (Suc i) = Inr ()" by blast
      then show "outcome body db' rows i = Inr ()" using b by (simp add: outcome_Suc)
    qed
    show ?thesis using Cons.IH[OF j hs, of "p + 1" es] b r Suc by simp
  qed
qed

lemma length_filter_upt_Suc:
  "length (filter P [0..<Suc n]) = (if P 0 then 1 else 0) + length (filter (\<lambda>i. P (Suc i)) [0..<n])"
proof -
  have "[0..<Suc n] = 0 # map Suc [0..<n]"
    by (simp add: upt_conv_Cons map_Suc_upt del: upt_Suc)
  then show ?thesis by (simp add: filter_map comp_def del: upt_Suc)
qed

text \<open>In general: every row is counted once, as processed or as an error.\<close>

lemma ingest_loop_counts:
  "ingest_loop body rows db p es = (db', p', es') \<Longrightarrow>
     p' - p = int (length (filter (\<lambda>i. \<not> row_fails body db rows i) [0..<length rows]))
   \<and> (\<exists>new. es' = es @ new \<and> length new = length (filter (row_fails body db rows) [0..<length rows]))"
proof (induction rows arbitrary: db p es)
  case Nil
  then show ?case by simp
next
  case (Cons row rows)
  obtain r db1 where b: "body db row = (r, db1)" by (cases "body db row")
  have rf: "row_fails body db (row # rows) (Suc i) = row_fails body db1 rows i" for i
    using b by (simp add: row_fails_def outcome_Suc)
  show ?case
  proof (cases r)
    case (Inl e)
    then have f0: "row_fails body db (row # rows) 0" using b by (simp add: row_fails_def outcome_0)
    from Cons.prems b Inl have
      "ingest_loop body rows db1 p (es @ [JObj [(''row'', row), (''error'', JStr (message e))]]) = (db', p', es')"
      by simp
    from Cons.IH[OF this] obtain new where
      n: "p' - p = int (length (filter (\<lambda>i. \<not> row_fails body db1 rows i) [0..<length rows]))"
         "es' = (es @ [JObj [(''row'', row), (''error'', JStr (message e))]]) @ new"
         "length new = length (filter (row_fails body db1 rows) [0..<length rows])"
      by blast
    have "es' = es @ (JObj [(''row'', row), (''error'', JStr (message e))] # new)"
      using n(2) by simp
    moreover have "length (JObj [(''row'', row), (''error'', JStr (message e))] # new)
        = length (filter (row_fails body db (row # rows)) [0..<length (row # rows)])"
      using n(3) f0 by (simp add: length_filter_upt_Suc rf del: upt_Suc)
    moreover have "p' - p = int (length (filter (\<lambda>i. \<not> row_fails body db (row # rows) i) [0..<length (row # rows)]))"
      using n(1) f0 by (simp add: length_filter_upt_Suc rf del: upt_Suc)
    ultimately show ?thesis by blast
  next
    case (Inr u)
    then have f0: "\<not> row_fails body db (row # rows) 0" using b by (simp add: row_fails_def outcome_0)
    from Cons.prems b Inr have "ingest_loop body rows db1 (p + 1) es = (db', p', es')"
      by simp
    from Cons.IH[OF this] obtain new where
      n: "p' - (p + 1) = int (length (filter (\<lambda>i. \<not> row_fails body db1 rows i) [0..<length rows]))"
         "es' = es @ new"
         "length new = length (filter (row_fails body db1 rows) [0..<length rows])"
      by blast
    have "length new = length (filter (row_fails body db (row # rows)) [0..<length (row # rows)])"
      using n(3) f0 by (simp add: length_filter_upt_Suc rf del: upt_Suc)
    moreover have "p' - p = int (length (filter (\<lambda>i. \<not> row_fails body db (row # rows) i) [0..<length (row # rows)]))"
      using n(1) f0 by (simp add: length_filter_upt_Suc rf del: upt_Suc)
    ultimately show ?thesis using n(2) by blast
  qed
qed


lemma successful_rows_all:
  "(\<forall>i < length rows. outcome body db rows i = Inr ()) \<Longrightarrow> successful_rows body db rows = rows"
proof (induction rows arbitrary: db)
  case Nil
  then show ?case by simp
next
  case (Cons row rows)
  from Cons.prems have h0: "fst (body db row) = Inr ()"
    using outcome_0[of body db row rows] by auto
  have hs: "\<forall>i < length rows. outcome body (snd (body db row)) rows i = Inr ()"
  proof (intro allI impI)
    fix i assume "i < length rows"
    then have "Suc i < length (row # rows)" by simp
    with Cons.prems have "outcome body db (row # rows) (Suc i) = Inr ()" by blast
    then show "outcome body (snd (body db row)) rows i = Inr ()" by (simp add: outcome_Suc)
  qed
  show ?case using Cons.IH[OF hs] h0 by simp
qed

lemma successful_rows_one_fails:
  "k < length rows \<Longrightarrow> outcome body db rows k = Inl e \<Longrightarrow>
   (\<forall>i < length rows. i \<noteq> k \<longrightarrow> outcome body db rows i = Inr ()) \<Longrightarrow>
     successful_rows body db rows = take k rows @ drop (Suc k) rows"
proof (induction rows arbitrary: db k)
  case Nil
  then show ?case by simp
next
  case (Cons row rows)
  show ?case
  proof (cases k)
    case 0
    with Cons.prems have r: "fst (body db row) = Inl e" by (simp add: outcome_0)
    have hs: "\<forall>i < length rows. outcome body (snd (body db row)) rows i = Inr ()"
    proof (intro allI impI)
      fix i assume "i < length rows"
      then have "Suc i < length (row # rows)" "Suc i \<noteq> k" using 0 by simp_all
      with Cons.prems have "outcome body db (row # rows) (Suc i) = Inr ()" by blast
      then show "outcome body (snd (body db row)) rows i = Inr ()" by (simp add: outcome_Suc)
    qed
    show ?thesis using successful_rows_all[OF hs] r 0 by simp
  next
    case (Suc j)
    with Cons.prems have "outcome body db (row # rows) 0 = Inr ()" by blast
    then have r: "fst (body db row) = Inr ()" by (simp add: outcome_0)
    have j: "j < length rows" "outcome body (snd (body db row)) rows j = Inl e"
      using Cons.prems Suc by (simp_all add: outcome_Suc)
    have hs: "\<forall>i < length rows. i \<noteq> j \<longrightarrow> outcome body (snd (body db row)) rows i = Inr ()"
    proof (intro allI impI)
      fix i assume "i < length rows" "i \<noteq> j"
      then have "Suc i < length (row # rows)" "Suc i \<noteq> k" using Suc by simp_all
      with Cons.prems have "outcome body db (row # rows) (Suc i) = Inr ()" by blast
      then show "outcome body (snd (body db row)) rows i = Inr ()" by (simp add: outcome_Suc)
    qed
    show ?thesis using Cons.IH[OF j hs] r Suc by simp
  qed
qed

lemma length_successful_rows:
  "length (successful_rows body db rows)
     = length (filter (\<lambda>i. \<not> row_fails body db rows i) [0..<length rows])"
proof (induction rows arbitrary: db)
  case Nil
  then show ?case by simp
next
  case (Cons row rows)
  have rf: "row_fails body db (row # rows) (Suc i) = row_fails body (snd (body db row)) rows i" for i
    by (simp add: row_fails_def outcome_Suc)
  have f0: "row_fails body db (row # rows) 0 = (case fst (body db row) of Inl e \<Rightarrow> True | Inr u \<Rightarrow> False)"
    by (simp add: row_fails_def outcome_0)
  show ?case
    using Cons.IH[of "snd (body db row)"]
    by (simp add: length_filter_upt_Suc rf f0 del: upt_Suc split: sum.splits)
qed

section \<open>The performance facts of a batch: proofs\<close>

lemma d1_bind_all_stored: "d1_bind_all vs = Inr xs \<Longrightarrow> xs = map stored vs"
  by (induction vs arbitrary: xs) (auto simp: stored_def split: sum.splits)

lemma getOrCreateCampaign_facts:
  "fact_ads_performance (snd (getOrCreateCampaign db v)) = fact_ads_performance db"
  by (auto simp: getOrCreateCampaign_def insert_campaign_def Let_def
           split: jsval.splits option.splits sum.splits if_splits)

lemma insert_date_facts:
  "insert_date db binds = Inr db' \<Longrightarrow>
     fact_ads_performance db' = fact_ads_performance db \<and> dim_campaign db' = dim_campaign db"
  by (auto simp: insert_date_def Let_def split: sum.splits if_splits)

lemma getOrCreateDate_facts:
  "fact_ads_performance (snd (getOrCreateDate env db v)) = fact_ads_performance db"
  "dim_campaign (snd (getOrCreateDate env db v)) = dim_campaign db"
  using insert_date_facts
  by (auto simp: getOrCreateDate_def Let_def
           split: jsval.splits option.splits sum.splits if_splits)

text \<open>
  The campaign resolver only appends to the campaign dimension; a key that it returns is
  the key of the row that the dimension then holds under the name.
\<close>

lemma getOrCreateCampaign_extends:
  "\<exists>ext. dim_campaign (snd (getOrCreateCampaign db v)) = dim_campaign db @ ext"
  by (auto simp: getOrCreateCampaign_def insert_campaign_def Let_def
           split: jsval.splits option.splits sum.splits if_splits)

lemma getOrCreateCampaign_key:
  assumes "getOrCreateCampaign db v = (Inr campaignId, db1)" and "stored campaignId \<noteq> SNull"
  shows "\<exists>s c. v = JStr s \<and> find (\<lambda>r. c_campaign_name r = s) (dim_campaign db1) = Some c
               \<and> stored campaignId = SNum (of_int (c_campaign_id c))"
proof -
  have t: "truthy v"
    using assms by (cases "truthy v") (simp_all add: getOrCreateCampaign_def stored_def)
  then obtain s where s: "v = JStr s"
    using assms(1) by (cases v) (auto simp: getOrCreateCampaign_def d1_type_error_object_def)
  have ne: "s \<noteq> []" using t s by simp
  define objective where "objective =
     (if str_includes s ''Impression'' then ''Impression''
      else if str_includes s ''Visit'' then ''Visit''
      else if str_includes s ''Mess'' then ''Message''
      else ''Unknown'')"
  have g: "getOrCreateCampaign db (JStr s) =
      (case find (\<lambda>r. c_campaign_name r = s) (dim_campaign db) of
         Some existing \<Rightarrow> (Inr (JNum (Fin (of_int (c_campaign_id existing)))), db)
       | None \<Rightarrow>
           (case insert_campaign db s objective of
              Inl e \<Rightarrow> (Inl e, db)
            | Inr (new_id, db') \<Rightarrow> (Inr (JNum (Fin (of_int new_id))), db')))"
    unfolding getOrCreateCampaign_def objective_def Let_def using ne by simp
  show ?thesis
  proof (cases "find (\<lambda>r. c_campaign_name r = s) (dim_campaign db)")
    case (Some c)
    then have "campaignId = JNum (Fin (of_int (c_campaign_id c)))" "db1 = db"
      using assms(1) s g by simp_all
    then show ?thesis using s Some by (simp add: stored_def)
  next
    case None
    then have no: "\<not> (\<exists>r \<in> set (dim_campaign db). c_campaign_name r = s)"
      by (simp add: find_None_iff_set)
    define new_id where "new_id = next_rowid (seq_campaign db) (map c_campaign_id (dim_campaign db))"
    define c where "c = \<lparr>c_campaign_id = new_id, c_campaign_name = s,
                          c_platform = ''Facebook'', c_objective = objective\<rparr>"
    have ins: "insert_campaign db s objective =
                 Inr (new_id, db\<lparr>dim_campaign := dim_campaign db @ [c], seq_campaign := new_id\<rparr>)"
      using no by (simp add: insert_campaign_def Let_def new_id_def c_def)
    have "getOrCreateCampaign db (JStr s) =
            (Inr (JNum (Fin (of_int new_id))),
             db\<lparr>dim_campaign := dim_campaign db @ [c], seq_campaign := new_id\<rparr>)"
      unfolding g None ins by simp
    with assms(1) s have r: "campaignId = JNum (Fin (of_int new_id))"
      "db1 = db\<lparr>dim_campaign := dim_campaign db @ [c], seq_campaign := new_id\<rparr>"
      by simp_all
    have "find (\<lambda>r. c_campaign_name r = s) (dim_campaign db @ [c]) = Some c"
      by (rule find_snoc_new[OF None]) (simp add: c_def)
    then show ?thesis using s r by (simp add: stored_def c_def)
  qed
qed

text \<open>A date key that the date resolver returns is the number its string spells.\<close>

lemma getOrCreateDate_key:
  assumes "getOrCreateDate env db v = (Inr dateKey, db2)" and "stored dateKey \<noteq> SNull"
  shows "\<exists>s. v = JStr s \<and> dateKey = JNum (parseInt_str (remove_all CHR ''-'' s))"
proof -
  have t: "truthy v"
    using assms by (cases "truthy v") (simp_all add: getOrCreateDate_def stored_def)
  then obtain s where s: "v = JStr s"
    using assms(1) by (cases v) (auto simp: getOrCreateDate_def split: sum.splits)
  have ne: "s \<noteq> []" using t s by simp
  let ?key = "parseInt_str (remove_all CHR ''-'' s)"
  let ?found = "case ?key of Fin k \<Rightarrow> find (\<lambda>r. of_int (d_date_key r) = k) (dim_date db) | _ \<Rightarrow> None"
  have g: "fst (getOrCreateDate env db (JStr s)) = Inr dateKey"
    using assms(1) s by simp
  show ?thesis
  proof (cases ?found)
    case (Some existing)
    then obtain k where k: "?key = Fin k" "find (\<lambda>r. of_int (d_date_key r) = k) (dim_date db) = Some existing"
      by (cases ?key) auto
    from find_Some_holds[OF k(2)] have "of_int (d_date_key existing) = k" by simp
    moreover have "fst (getOrCreateDate env db (JStr s)) = Inr (JNum (Fin (of_int (d_date_key existing))))"
      unfolding getOrCreateDate_def Let_def using ne Some by simp
    ultimately show ?thesis using s k(1) g by simp
  next
    case None
    have "fst (getOrCreateDate env db (JStr s)) = Inr (JNum ?key)
          \<or> (\<exists>e. fst (getOrCreateDate env db (JStr s)) = Inl e)"
      unfolding getOrCreateDate_def Let_def using ne None by (simp split: sum.splits)
    then show ?thesis using s g by auto
  qed
qed

lemma insert_performance_Inr:
  assumes "insert_performance db binds = Inr db'"
  shows "\<exists>f. fact_ads_performance db' = fact_ads_performance db @ [f]
            \<and> dim_campaign db' = dim_campaign db
            \<and> f_date_key f = map stored binds ! 0 \<and> f_campaign_id f = map stored binds ! 1
            \<and> f_date_key f \<noteq> SNull \<and> f_campaign_id f \<noteq> SNull
            \<and> fact_fields f = map (\<lambda>i. map stored binds ! i) [2, 3, 4, 5, 6, 7, 8, 9]"
proof -
  from assms obtain vs where vs: "d1_bind_all binds = Inr vs"
    by (auto simp: insert_performance_def split: sum.splits)
  then have m: "vs = map stored binds" by (rule d1_bind_all_stored)
  from assms vs show ?thesis
    unfolding insert_performance_def m fact_fields_def
    by (auto simp: Let_def split: if_splits)
qed

text \<open>
  What one run of the \<^verbatim>\<open>try\<close> block does to the fact table and to the campaign
  dimension: a run that fails adds no fact, a run that succeeds adds the fact of its row.
\<close>

lemma performance_body_cases:
  obtains (fails) e db1 where "performance_body env db row = (Inl e, db1)"
      "fact_ads_performance db1 = fact_ads_performance db"
      "\<exists>ext. dim_campaign db1 = dim_campaign db @ ext"
  | (succeeds) db3 f where "performance_body env db row = (Inr (), db3)"
      "fact_ads_performance db3 = fact_ads_performance db @ [f]"
      "\<exists>ext. dim_campaign db3 = dim_campaign db @ ext"
      "fact_of_row env db3 f row"
proof (cases "js_get row ''Campaign''")
  case (Inl e)
  then have "performance_body env db row = (Inl e, db)" by (simp add: performance_body_def)
  then show ?thesis using fails[of e db] by simp
next
  case jg: (Inr campaign)
  then have cp: "campaign = js_prop row ''Campaign''"
    by (auto simp: js_get_def split: if_splits)
  obtain c db1 where c: "getOrCreateCampaign db campaign = (c, db1)"
    by (cases "getOrCreateCampaign db campaign")
  obtain d db2 where d: "getOrCreateDate env db1 (js_prop row ''Date'') = (d, db2)"
    by (cases "getOrCreateDate env db1 (js_prop row ''Date'')")
  have f1: "fact_ads_performance db1 = fact_ads_performance db"
    using getOrCreateCampaign_facts[of db campaign] c by simp
  obtain ext where e1: "dim_campaign db1 = dim_campaign db @ ext"
    using getOrCreateCampaign_extends[of db campaign] c by auto
  have f2: "fact_ads_performance db2 = fact_ads_performance db" "dim_campaign db2 = dim_campaign db1"
    using getOrCreateDate_facts[of env db1 "js_prop row ''Date''"] d f1 by simp_all
  have e2: "\<exists>ext. dim_campaign db2 = dim_campaign db @ ext" using e1 f2 by simp
  have fl1: thesis if "performance_body env db row = (Inl e, db1)" for e
    using fails[OF that f1] e1 by blast
  have fl2: thesis if "performance_body env db row = (Inl e, db2)" for e
    using fails[OF that f2(1) e2] .
  show ?thesis
  proof (cases c)
    case (Inl e)
    show ?thesis by (rule fl1[of e]) (simp add: performance_body_def jg c Inl)
  next
    case ci: (Inr campaignId)
    show ?thesis
    proof (cases d)
      case (Inl e)
      show ?thesis by (rule fl2[of e]) (simp add: performance_body_def jg c ci d Inl)
    next
      case di: (Inr dateKey)
      show ?thesis
      proof (cases "parseVietnameseNumber env (js_prop row ''AmountSpent'')")
        case (Inl e)
        show ?thesis by (rule fl2[of e]) (simp add: performance_body_def jg c ci d di Inl)
      next
        case p1: (Inr amountSpent)
        show ?thesis
        proof (cases "parseVietnameseNumber env (js_prop row ''CostPerResult'')")
          case (Inl e)
          show ?thesis by (rule fl2[of e]) (simp add: performance_body_def jg c ci d di p1 Inl)
        next
          case p2: (Inr costPerResult)
          show ?thesis
          proof (cases "parseInt env (js_prop row ''Results'')")
            case (Inl e)
            show ?thesis by (rule fl2[of e]) (simp add: performance_body_def jg c ci d di p1 p2 Inl)
          next
            case p3: (Inr results)
            show ?thesis
            proof (cases "parseInt env (js_prop row ''Impressions'')")
              case (Inl e)
              show ?thesis
                by (rule fl2[of e]) (simp add: performance_body_def jg c ci d di p1 p2 p3 Inl)
            next
              case p4: (Inr impressions)
              let ?binds = "[dateKey, campaignId,
                  js_or (js_prop row ''AdSet'') JNull,
                  js_or (js_prop row ''Ad'') JNull,
                  js_or (js_prop row ''Indicator'') JNull,
                  js_or (js_prop row ''ActionKey'') JNull,
                  JNum amountSpent,
                  js_or (JNum results) (JNum (Fin 0)),
                  JNum costPerResult,
                  js_or (JNum impressions) (JNum (Fin 0))]"
              show ?thesis
              proof (cases "insert_performance db2 ?binds")
                case (Inl e)
                show ?thesis
                  by (rule fl2[of e]) (simp add: performance_body_def jg c ci d di p1 p2 p3 p4 Inl)
              next
                case ins: (Inr db3)
                have body: "performance_body env db row = (Inr (), db3)"
                  by (simp add: performance_body_def jg c ci d di p1 p2 p3 p4 ins)
                from insert_performance_Inr[OF ins] obtain f where
                  f: "fact_ads_performance db3 = fact_ads_performance db2 @ [f]"
                     "dim_campaign db3 = dim_campaign db2"
                     "f_date_key f = stored dateKey" "f_campaign_id f = stored campaignId"
                     "f_date_key f \<noteq> SNull" "f_campaign_id f \<noteq> SNull"
                     "fact_fields f = performance_fields env row"
                  by (auto simp: performance_fields_def p1 p2 p3 p4)
                from getOrCreateCampaign_key[OF c[unfolded ci]] f(4,6) obtain s cr where
                  ck: "campaign = JStr s"
                      "find (\<lambda>r. c_campaign_name r = s) (dim_campaign db1) = Some cr"
                      "stored campaignId = SNum (of_int (c_campaign_id cr))"
                  by auto
                have rc: "row_campaign_id db3 row = stored campaignId"
                  using ck cp f(2) f2(2) by (simp add: row_campaign_id_def)
                from getOrCreateDate_key[OF d[unfolded di]] f(3,5) obtain ds where
                  dk: "js_prop row ''Date'' = JStr ds"
                      "dateKey = JNum (parseInt_str (remove_all CHR ''-'' ds))"
                  by auto
                have rd: "row_date_key row = stored dateKey"
                  using dk by (simp add: row_date_key_def)
                have fr: "fact_of_row env db3 f row"
                  using f rc rd by (simp add: fact_of_row_def)
                have ff: "fact_ads_performance db3 = fact_ads_performance db @ [f]"
                  using f(1) f2(1) by simp
                have fe: "\<exists>ext. dim_campaign db3 = dim_campaign db @ ext"
                  using f(2) e2 by simp
                show ?thesis by (rule succeeds[OF body ff fe fr])
              qed
            qed
          qed
        qed
      qed
    qed
  qed
qed

lemma find_append_Some: "find P xs = Some x \<Longrightarrow> find P (xs @ ys) = Some x"
  by (induction xs) auto

lemma fact_of_row_extends:
  assumes "fact_of_row env db f row" and "dim_campaign db' = dim_campaign db @ ext"
  shows "fact_of_row env db' f row"
proof -
  from assms(1) have n: "row_campaign_id db row \<noteq> SNull"
    by (auto simp: fact_of_row_def)
  then obtain s c where s: "js_prop row ''Campaign'' = JStr s"
      "find (\<lambda>r. c_campaign_name r = s) (dim_campaign db) = Some c"
    by (auto simp: row_campaign_id_def split: jsval.splits option.splits)
  have "row_campaign_id db' row = row_campaign_id db row"
    using s find_append_Some[OF s(2), of ext] assms(2) by (simp add: row_campaign_id_def)
  then show ?thesis using assms(1) by (auto simp: fact_of_row_def)
qed

lemma store_after_extends:
  "\<exists>ext. dim_campaign (store_after (performance_body env) db rows) = dim_campaign db @ ext"
proof (induction rows arbitrary: db)
  case Nil
  then show ?case by simp
next
  case (Cons row rows)
  obtain ext1 where e1: "dim_campaign (snd (performance_body env db row)) = dim_campaign db @ ext1"
    by (cases rule: performance_body_cases[of env db row]) auto
  from Cons[of "snd (performance_body env db row)"] obtain ext2 where
    "dim_campaign (store_after (performance_body env) (snd (performance_body env db row)) rows)
       = dim_campaign (snd (performance_body env db row)) @ ext2"
    by blast
  then show ?case using e1 by simp
qed

text \<open>
  The facts that a batch appends are the facts of its successful rows, in their order,
  with the keys that the store holds at the end of the batch.
\<close>

lemma performance_facts:
  "\<exists>fs. fact_ads_performance (store_after (performance_body env) db rows) = fact_ads_performance db @ fs
       \<and> list_all2 (fact_of_row env (store_after (performance_body env) db rows))
            fs (successful_rows (performance_body env) db rows)"
proof (induction rows arbitrary: db)
  case Nil
  then show ?case by simp
next
  case (Cons row rows)
  define B where "B = performance_body env"
  define db1 where "db1 = snd (B db row)"
  define F where "F = store_after B db (row # rows)"
  have F: "F = store_after B db1 rows" by (simp add: F_def db1_def)
  from Cons[of db1] obtain fs where
    fs: "fact_ads_performance F = fact_ads_performance db1 @ fs"
        "list_all2 (fact_of_row env F) fs (successful_rows B db1 rows)"
    unfolding F B_def by blast
  have "\<exists>gs. fact_ads_performance F = fact_ads_performance db @ gs
            \<and> list_all2 (fact_of_row env F) gs (successful_rows B db (row # rows))"
  proof (cases rule: performance_body_cases[of env db row])
    case (fails e db1')
    then have d: "db1 = db1'" by (simp add: db1_def B_def)
    have a: "fact_ads_performance F = fact_ads_performance db @ fs"
      using fs(1) fails(2) d by simp
    have b: "successful_rows B db (row # rows) = successful_rows B db1 rows"
      using fails(1) d by (simp add: B_def)
    show ?thesis using a fs(2) unfolding b by blast
  next
    case (succeeds db3 f)
    then have d: "db1 = db3" by (simp add: db1_def B_def)
    obtain ext where "dim_campaign F = dim_campaign db3 @ ext"
      using store_after_extends[of env db3 rows] F d by (auto simp: B_def)
    from fact_of_row_extends[OF succeeds(4) this] have ff: "fact_of_row env F f row" .
    have a: "fact_ads_performance F = fact_ads_performance db @ (f # fs)"
      using fs(1) succeeds(2) d by simp
    have b: "successful_rows B db (row # rows) = row # successful_rows B db1 rows"
      using succeeds(1) d by (simp add: B_def)
    have c: "list_all2 (fact_of_row env F) (f # fs) (row # successful_rows B db1 rows)"
      using ff fs(2) by simp
    show ?thesis using a c unfolding b by blast
  qed
  then show ?case by (simp add: F_def B_def)
qed


section \<open>The result of an ingestion: proofs\<close>

lemma length_JSON_elements: "length (JSON_elements xs) = length xs"
  by (induction xs) auto

lemma response_data_jsonResponse:
  "d \<noteq> JUndefined \<Longrightarrow> response_data (jsonResponse d st) = JSON_stringify d"
  by (simp add: response_data_def jsonResponse_def member_def members_def)

lemma not_row_fails_iff: "\<not> row_fails body db rows i \<longleftrightarrow> outcome body db rows i = Inr ()"
  by (cases "outcome body db rows i") (simp_all add: row_fails_def)

lemma ingest_array:
  "ingest body db (JArr rows) =
     (jsonResponse
        (JObj [(''processed'', JNum (Fin (of_int (fst (snd (ingest_loop body rows db 0 []))))) ),
               (''errors'', if length (snd (snd (ingest_loop body rows db 0 []))) > 0
                            then JArr (snd (snd (ingest_loop body rows db 0 []))) else JNull)]) 200,
      store_after body db rows)"
  using ingest_loop_store[of body rows db 0 "[]"]
  by (cases "ingest_loop body rows db 0 []") (simp add: ingest_def)

lemma json_value_stringify:
  "json_value v \<longrightarrow> JSON_stringify v = v \<and> v \<noteq> JUndefined"
  "json_values xs \<longrightarrow> JSON_elements xs = xs"
  "json_members kvs \<longrightarrow> JSON_members kvs = kvs"
proof (induction v and xs and kvs rule: JSON_stringify_JSON_elements_JSON_members.induct)
  case (4 n)
  then show ?case by (cases n) simp_all
qed auto

text \<open>
  C2. In a batch of N rows of which exactly one, row \<open>k\<close>, fails and the others succeed,
  the failure is caught and the loop goes on: the response has status 200 and the body
  \<open>{success: true, data: {processed: N - 1, errors: [entry]}}\<close>, where the one entry
  holds the message of the error of row \<open>k\<close> and that row as \<^verbatim>\<open>JSON.stringify\<close> writes
  it (the row itself, when it holds no \<^verbatim>\<open>undefined\<close> and no number that is not finite).
  The facts of the other N - 1 rows are appended to the fact table, in their order: each
  has the eight values of its row, the date key that the \<^verbatim>\<open>Date\<close> of its row spells and
  the key under which the campaign dimension holds the \<^verbatim>\<open>Campaign\<close> of its row.
\<close>

theorem ingestPerformance_one_row_fails:
  assumes "k < length rows"
    and "outcome (performance_body env) db rows k = Inl e"
    and "\<forall>i < length rows. i \<noteq> k \<longrightarrow> outcome (performance_body env) db rows i = Inr ()"
  shows "\<exists>r db' fs entry.
           ingestPerformance env db (JArr rows) = (r, db')
         \<and> resp_status r = 200
         \<and> resp_body r =
             JObj [(''success'', JBool True),
                   (''data'', JObj [(''processed'', JNum (Fin (of_int (int (length rows) - 1)))),
                                    (''errors'', JArr [entry])])]
         \<and> member entry ''error'' = Some (JStr (message e))
         \<and> member entry ''row''
             = (if rows ! k = JUndefined then None else Some (JSON_stringify (rows ! k)))
         \<and> (json_value (rows ! k) \<longrightarrow>
               entry = JObj [(''row'', rows ! k), (''error'', JStr (message e))])
         \<and> fact_ads_performance db' = fact_ads_performance db @ fs
         \<and> length fs = length rows - 1
         \<and> list_all2 (fact_of_row env db') fs (take k rows @ drop (Suc k) rows)"
proof -
  define db' where "db' = store_after (performance_body env) db rows"
  define entry where "entry = JObj (JSON_members [(''row'', rows ! k), (''error'', JStr (message e))])"
  define r where "r = jsonResponse
                (JObj [(''processed'', JNum (Fin (of_int (int (length rows) - 1)))),
                       (''errors'', JArr [JObj [(''row'', rows ! k), (''error'', JStr (message e))]])])
                200"
  have loop: "ingest_loop (performance_body env) rows db 0 [] =
       (db', int (length rows) - 1, [JObj [(''row'', rows ! k), (''error'', JStr (message e))]])"
    using ingest_loop_one_fails[OF assms, of 0 "[]"] by (simp add: db'_def)
  have resp: "ingestPerformance env db (JArr rows) = (r, db')"
    by (simp add: ingestPerformance_def ingest_array loop r_def db'_def)
  have st: "resp_status r = 200" by (simp add: r_def jsonResponse_def)
  have body: "resp_body r =
             JObj [(''success'', JBool True),
                   (''data'', JObj [(''processed'', JNum (Fin (of_int (int (length rows) - 1)))),
                                    (''errors'', JArr [entry])])]"
    by (simp add: r_def jsonResponse_def entry_def)
  have m1: "member entry ''error'' = Some (JStr (message e))"
    by (simp add: entry_def member_def members_def)
  have m2: "member entry ''row''
             = (if rows ! k = JUndefined then None else Some (JSON_stringify (rows ! k)))"
    by (simp add: entry_def member_def members_def)
  have m3: "json_value (rows ! k) \<longrightarrow>
               entry = JObj [(''row'', rows ! k), (''error'', JStr (message e))]"
    using json_value_stringify(1)[of "rows ! k"] by (simp add: entry_def)
  obtain fs where
    fs: "fact_ads_performance db' = fact_ads_performance db @ fs"
        "list_all2 (fact_of_row env db') fs (successful_rows (performance_body env) db rows)"
    using performance_facts[of env db rows] unfolding db'_def by blast
  have sr: "successful_rows (performance_body env) db rows = take k rows @ drop (Suc k) rows"
    by (rule successful_rows_one_fails[OF assms])
  have "length fs = length (take k rows @ drop (Suc k) rows)"
    using fs(2) sr by (simp add: list_all2_lengthD)
  then have len: "length fs = length rows - 1"
    using assms(1) by simp
  have l2: "list_all2 (fact_of_row env db') fs (take k rows @ drop (Suc k) rows)"
    using fs(2) sr by simp
  show ?thesis
    using resp st body m1 m2 m3 fs(1) len l2 by blast
qed

text \<open>
  C3, as amended. When no row of the batch fails, the result holds \<open>processed\<close>, the
  number of fact rows inserted, and the member \<open>errors\<close>, which is present with the
  value \<^verbatim>\<open>null\<close>; when at least one row fails, \<open>errors\<close> is a non-empty list with one
  entry for each failed row. In both cases \<open>processed\<close> is the number of fact rows
  inserted.
\<close>

theorem ingestPerformance_result:
  "((\<forall>i < length rows. \<not> row_fails (performance_body env) db rows i) \<longrightarrow>
       fst (ingestPerformance env db (JArr rows)) =
         jsonResponse (JObj [(''processed'', JNum (Fin (of_int (int (length rows))))),
                             (''errors'', JNull)]) 200
     \<and> member (response_data (fst (ingestPerformance env db (JArr rows)))) ''errors'' = Some JNull
     \<and> length (fact_ads_performance (snd (ingestPerformance env db (JArr rows))))
         = length (fact_ads_performance db) + length rows)
   \<and> ((\<exists>i < length rows. row_fails (performance_body env) db rows i) \<longrightarrow>
       (\<exists>es. es \<noteq> []
            \<and> member (response_data (fst (ingestPerformance env db (JArr rows)))) ''errors'' = Some (JArr es)
            \<and> length es = length (filter (row_fails (performance_body env) db rows) [0..<length rows])))
   \<and> member (response_data (fst (ingestPerformance env db (JArr rows)))) ''processed''
       = Some (JNum (Fin (of_int (int (length (fact_ads_performance (snd (ingestPerformance env db (JArr rows)))))
                                    - int (length (fact_ads_performance db))))))"
proof -
  let ?body = "performance_body env"
  obtain db' p es where loop: "ingest_loop ?body rows db 0 [] = (db', p, es)"
    by (cases "ingest_loop ?body rows db 0 []") auto
  from ingest_loop_counts[OF loop] have
    p: "p = int (length (filter (\<lambda>i. \<not> row_fails ?body db rows i) [0..<length rows]))"
    and es: "length es = length (filter (row_fails ?body db rows) [0..<length rows])"
    by auto
  obtain fs where
    fs: "fact_ads_performance (store_after ?body db rows) = fact_ads_performance db @ fs"
        "list_all2 (fact_of_row env (store_after ?body db rows)) fs (successful_rows ?body db rows)"
    using performance_facts[of env db rows] by blast
  have lfs: "int (length fs) = p"
    using fs(2) p by (simp add: list_all2_lengthD length_successful_rows)
  have r: "ingestPerformance env db (JArr rows) =
     (jsonResponse (JObj [(''processed'', JNum (Fin (of_int p))),
                          (''errors'', if length es > 0 then JArr es else JNull)]) 200,
      store_after ?body db rows)"
    by (simp add: ingestPerformance_def ingest_array loop)
  have data: "response_data
       (jsonResponse (JObj [(''processed'', JNum (Fin (of_int p))),
                            (''errors'', if length es > 0 then JArr es else JNull)]) 200) =
     JObj [(''processed'', JNum (Fin (of_int p))),
           (''errors'', if length es > 0 then JArr (JSON_elements es) else JNull)]"
    by (simp add: response_data_jsonResponse)
  have c3: "member (response_data (fst (ingestPerformance env db (JArr rows)))) ''processed''
       = Some (JNum (Fin (of_int (int (length (fact_ads_performance (snd (ingestPerformance env db (JArr rows)))))
                                    - int (length (fact_ads_performance db))))))"
    using lfs fs(1) unfolding r fst_conv snd_conv data by (simp add: member_def members_def)
  have c1: "fst (ingestPerformance env db (JArr rows)) =
         jsonResponse (JObj [(''processed'', JNum (Fin (of_int (int (length rows))))),
                             (''errors'', JNull)]) 200
     \<and> member (response_data (fst (ingestPerformance env db (JArr rows)))) ''errors'' = Some JNull
     \<and> length (fact_ads_performance (snd (ingestPerformance env db (JArr rows))))
         = length (fact_ads_performance db) + length rows"
    if h: "\<forall>i < length rows. \<not> row_fails ?body db rows i"
  proof -
    have all: "\<forall>i < length rows. outcome ?body db rows i = Inr ()"
      using h by (simp add: not_row_fails_iff)
    have "ingest_loop ?body rows db 0 [] = (store_after ?body db rows, int (length rows), [])"
      using ingest_loop_all_succeed[OF all, of 0 "[]"] by simp
    with loop have pe: "p = int (length rows)" "es = []" by simp_all
    have "length fs = length rows" using lfs pe by simp
    then show ?thesis using fs(1) unfolding r fst_conv snd_conv data by (simp add: pe member_def members_def)
  qed
  have c2: "\<exists>es'. es' \<noteq> []
            \<and> member (response_data (fst (ingestPerformance env db (JArr rows)))) ''errors'' = Some (JArr es')
            \<and> length es' = length (filter (row_fails ?body db rows) [0..<length rows])"
    if h: "\<exists>i < length rows. row_fails ?body db rows i"
  proof -
    from h obtain i where i: "i < length rows" "row_fails ?body db rows i" by blast
    then have "i \<in> set (filter (row_fails ?body db rows) [0..<length rows])" by simp
    then have "filter (row_fails ?body db rows) [0..<length rows] \<noteq> []"
      by (metis empty_iff list.set(1))
    then have "length (filter (row_fails ?body db rows) [0..<length rows]) > 0"
      by simp
    with es have pos: "length es > 0" by simp
    then have "JSON_elements es \<noteq> []"
      using length_JSON_elements[of es] by auto
    moreover have "member (response_data (fst (ingestPerformance env db (JArr rows)))) ''errors''
        = Some (JArr (JSON_elements es))"
      using pos unfolding r fst_conv snd_conv data by (simp add: member_def members_def)
    moreover have "length (JSON_elements es) = length (filter (row_fails ?body db rows) [0..<length rows])"
      using es by (simp add: length_JSON_elements)
    ultimately show ?thesis by blast
  qed
  show ?thesis using c1 c2 c3 by blast
qed

text \<open>
  C3 as stated fails: the result of a batch without failures has the member \<open>errors\<close>.
\<close>

theorem ingestPerformance_errors_omitted_counterexample:
  "member (response_data (fst (ingestPerformance ascii_env empty_store (JArr [])))) ''errors'' \<noteq> None
   \<and> member (response_data (fst (ingestPerformance ascii_env empty_store (JArr [hd sample_batch])))) ''errors''
       \<noteq> None"
  by code_simp


theorem ingestPerformance_one_row_fails_witness:
  "(1::nat) < length sample_batch
   \<and> outcome (performance_body ascii_env) empty_store sample_batch 1
       = Inl (D1Error ''NOT NULL constraint failed: fact_ads_performance.campaign_id'')
   \<and> outcome (performance_body ascii_env) empty_store sample_batch 0 = Inr ()
   \<and> outcome (performance_body ascii_env) empty_store sample_batch 2 = Inr ()
   \<and> json_value (sample_batch ! 1)
   \<and> resp_status (fst (ingestPerformance ascii_env empty_store (JArr sample_batch))) = 200
   \<and> resp_body (fst (ingestPerformance ascii_env empty_store (JArr sample_batch))) =
       JObj [(''success'', JBool True),
             (''data'',
              JObj [(''processed'', JNum (Fin 2)),
                    (''errors'',
                     JArr [JObj [(''row'', sample_batch ! 1),
                                 (''error'', JStr ''NOT NULL constraint failed: fact_ads_performance.campaign_id'')]])])]
   \<and> length (fact_ads_performance (snd (ingestPerformance ascii_env empty_store (JArr sample_batch)))) = 2
   \<and> list_all2 (fact_of_row ascii_env (snd (ingestPerformance ascii_env empty_store (JArr sample_batch))))
        (fact_ads_performance (snd (ingestPerformance ascii_env empty_store (JArr sample_batch))))
        [sample_batch ! 0, sample_batch ! 2]"
proof -
  have l: "length sample_batch = 3" by (simp add: sample_batch_def)
  have h1: "(1::nat) < length sample_batch" using l by simp
  have h2: "outcome (performance_body ascii_env) empty_store sample_batch 1
       = Inl (D1Error ''NOT NULL constraint failed: fact_ads_performance.campaign_id'')"
    by code_simp
  have o0: "outcome (performance_body ascii_env) empty_store sample_batch 0 = Inr ()"
    by code_simp
  have o2: "outcome (performance_body ascii_env) empty_store sample_batch 2 = Inr ()"
    by code_simp
  have j: "json_value (sample_batch ! 1)" by code_simp
  have h3: "\<forall>i < length sample_batch. i \<noteq> 1 \<longrightarrow>
          outcome (performance_body ascii_env) empty_store sample_batch i = Inr ()"
  proof (intro allI impI)
    fix i :: nat assume "i < length sample_batch" "i \<noteq> 1"
    then have "i = 0 \<or> i = 2" using l by auto
    then show "outcome (performance_body ascii_env) empty_store sample_batch i = Inr ()"
      using o0 o2 by auto
  qed
  have td: "take 1 sample_batch @ drop (Suc 1) sample_batch = [sample_batch ! 0, sample_batch ! 2]"
    by (simp add: sample_batch_def)
  obtain r db' fs entry where
    r: "ingestPerformance ascii_env empty_store (JArr sample_batch) = (r, db')"
       "resp_status r = 200"
       "resp_body r =
             JObj [(''success'', JBool True),
                   (''data'', JObj [(''processed'', JNum (Fin (of_int (int (length sample_batch) - 1)))),
                                    (''errors'', JArr [entry])])]"
       "json_value (sample_batch ! 1) \<longrightarrow>
          entry = JObj [(''row'', sample_batch ! 1),
                        (''error'', JStr (message (D1Error ''NOT NULL constraint failed: fact_ads_performance.campaign_id'')))]"
       "fact_ads_performance db' = fact_ads_performance empty_store @ fs"
       "length fs = length sample_batch - 1"
       "list_all2 (fact_of_row ascii_env db') fs (take 1 sample_batch @ drop (Suc 1) sample_batch)"
    using ingestPerformance_one_row_fails[OF h1 h2 h3] by blast
  have e: "fact_ads_performance empty_store = []" by (simp add: empty_store_def)
  have en: "entry = JObj [(''row'', sample_batch ! 1),
                          (''error'', JStr ''NOT NULL constraint failed: fact_ads_performance.campaign_id'')]"
    using r(4) j by simp
  have c1: "resp_status (fst (ingestPerformance ascii_env empty_store (JArr sample_batch))) = 200"
    using r(1,2) by simp
  have c2: "resp_body (fst (ingestPerformance ascii_env empty_store (JArr sample_batch))) =
       JObj [(''success'', JBool True),
             (''data'',
              JObj [(''processed'', JNum (Fin 2)),
                    (''errors'',
                     JArr [JObj [(''row'', sample_batch ! 1),
                                 (''error'', JStr ''NOT NULL constraint failed: fact_ads_performance.campaign_id'')]])])]"
    using r(1,3) en l by simp
  have c3: "length (fact_ads_performance (snd (ingestPerformance ascii_env empty_store (JArr sample_batch)))) = 2"
    using r(1,5,6) e l by simp
  have c4: "list_all2 (fact_of_row ascii_env (snd (ingestPerformance ascii_env empty_store (JArr sample_batch))))
        (fact_ads_performance (snd (ingestPerformance ascii_env empty_store (JArr sample_batch))))
        [sample_batch ! 0, sample_batch ! 2]"
    using r(1,5,7) e unfolding td by simp
  show ?thesis using h1 h2 o0 o2 j c1 c2 c3 c4 by blast
qed

theorem ingestPerformance_result_witness:
  "\<not> row_fails (performance_body ascii_env) empty_store [hd sample_batch] 0
   \<and> member (response_data (fst (ingestPerformance ascii_env empty_store (JArr [hd sample_batch])))) ''errors''
       = Some JNull
   \<and> member (response_data (fst (ingestPerformance ascii_env empty_store (JArr [hd sample_batch])))) ''processed''
       = Some (JNum (Fin 1))
   \<and> (\<exists>i < length sample_batch. row_fails (performance_body ascii_env) empty_store sample_batch i)
   \<and> (\<exists>es. es \<noteq> []
          \<and> member (response_data (fst (ingestPerformance ascii_env empty_store (JArr sample_batch)))) ''errors''
              = Some (JArr es))"
proof -
  have a0: "\<not> row_fails (performance_body ascii_env) empty_store [hd sample_batch] 0"
    by code_simp
  have a: "\<forall>i < length [hd sample_batch]. \<not> row_fails (performance_body ascii_env) empty_store [hd sample_batch] i"
    using a0 by simp
  have b1: "row_fails (performance_body ascii_env) empty_store sample_batch 1"
    by code_simp
  have "(1::nat) < length sample_batch" by (simp add: sample_batch_def)
  with b1 have b: "\<exists>i < length sample_batch. row_fails (performance_body ascii_env) empty_store sample_batch i"
    by blast
  note t1 = ingestPerformance_result[of "[hd sample_batch]" ascii_env empty_store]
  note t2 = ingestPerformance_result[of sample_batch ascii_env empty_store]
  have c1: "member (response_data (fst (ingestPerformance ascii_env empty_store (JArr [hd sample_batch])))) ''errors''
       = Some JNull"
    using t1 a by blast
  have "fst (ingestPerformance ascii_env empty_store (JArr [hd sample_batch])) =
         jsonResponse (JObj [(''processed'', JNum (Fin (of_int (int (length [hd sample_batch]))))),
                             (''errors'', JNull)]) 200"
    using t1 a by blast
  then have c2: "member (response_data (fst (ingestPerformance ascii_env empty_store (JArr [hd sample_batch])))) ''processed''
       = Some (JNum (Fin 1))"
    by (simp add: response_data_jsonResponse member_def members_def)
  have c3: "\<exists>es. es \<noteq> []
          \<and> member (response_data (fst (ingestPerformance ascii_env empty_store (JArr sample_batch)))) ''errors''
              = Some (JArr es)"
    using t2 b by blast
  show ?thesis using a0 b c1 c2 c3 by blast
qed

section \<open>The calendar: proofs\<close>

lemma div_succ:
  fixes x k :: int
  assumes "0 < k"
  shows "(x + 1) div k = x div k + (if (x + 1) mod k = 0 then 1 else 0)"
proof -
  define q where "q = x div k"
  define r where "r = x mod k"
  have x: "x = r + q * k" unfolding q_def r_def by simp
  have r: "0 \<le> r" "r < k" unfolding r_def using assms by simp_all
  have x1: "x + 1 = (r + 1) + q * k" using x by simp
  have k0: "k \<noteq> 0" using assms by simp
  have d: "(x + 1) div k = q + (r + 1) div k"
    unfolding x1 by (rule div_mult_self1[OF k0])
  have m: "(x + 1) mod k = (r + 1) mod k"
    unfolding x1 by (rule mod_mult_self1)
  show ?thesis
  proof (cases "r + 1 < k")
    case True
    then have "(r + 1) div k = 0" "(r + 1) mod k = r + 1" using r by simp_all
    then show ?thesis using d m r by (simp add: q_def)
  next
    case False
    then have "r + 1 = k" using r by simp
    then have "(r + 1) div k = 1" "(r + 1) mod k = 0" using assms by simp_all
    then show ?thesis using d m by (simp add: q_def)
  qed
qed

lemma mod_shift: "(y - c * k) mod k = (y::int) mod k"
  by (metis mod_diff_right_eq mod_mult_self2_is_0 diff_zero mod_mod_trivial mult.commute)

lemma c400: "((y::int) + 1 - 1601) div 400 = (y - 1601) div 400 + (if y mod 400 = 0 then 1 else 0)"
proof -
  have "(y - 1601 + 1) mod 400 = (y - 4 * 400) mod 400" by simp
  then have "(y - 1601 + 1) mod 400 = y mod 400" by (simp only: mod_shift)
  then show ?thesis using div_succ[of 400 "y - 1601"] by (simp add: algebra_simps)
qed

lemma b100: "((y::int) + 1 - 1901) div 100 = (y - 1901) div 100 + (if y mod 100 = 0 then 1 else 0)"
proof -
  have "(y - 1901 + 1) mod 100 = (y - 19 * 100) mod 100" by simp
  then have "(y - 1901 + 1) mod 100 = y mod 100" by (simp only: mod_shift)
  then show ?thesis using div_succ[of 100 "y - 1901"] by (simp add: algebra_simps)
qed

lemma a4: "((y::int) + 1 - 1969) div 4 = (y - 1969) div 4 + (if y mod 4 = 0 then 1 else 0)"
proof -
  have "(y - 1969 + 1) mod 4 = (y - 492 * 4) mod 4" by simp
  then have "(y - 1969 + 1) mod 4 = y mod 4" by (simp only: mod_shift)
  then show ?thesis using div_succ[of 4 "y - 1969"] by (simp add: algebra_simps)
qed

lemma mod_400_100: "(y::int) mod 400 = 0 \<Longrightarrow> y mod 100 = 0"
proof -
  assume "y mod 400 = 0"
  then have "400 dvd y" by (simp add: mod_eq_0_iff_dvd)
  moreover have "(100::int) dvd 400" by simp
  ultimately have "100 dvd y" by (rule dvd_trans[rotated])
  then show ?thesis by (simp add: mod_eq_0_iff_dvd)
qed

lemma mod_100_4: "(y::int) mod 100 = 0 \<Longrightarrow> y mod 4 = 0"
proof -
  assume "y mod 100 = 0"
  then have "100 dvd y" by (simp add: mod_eq_0_iff_dvd)
  moreover have "(4::int) dvd 100" by simp
  ultimately have "4 dvd y" by (rule dvd_trans[rotated])
  then show ?thesis by (simp add: mod_eq_0_iff_dvd)
qed

lemma DayFromYear_Suc: "DayFromYear (y + 1) = DayFromYear y + DaysInYear y"
  unfolding DayFromYear_def DaysInYear_def a4 b100 c400
  using mod_400_100[of y] mod_100_4[of y] by auto


lemma DaysInYear_cases: "DaysInYear y = 365 \<or> DaysInYear y = 366"
  by (simp add: DaysInYear_def)

lemma div_bounds:
  fixes x :: int
  assumes "0 < k"
  shows "k * (x div k) \<le> x" "x < k * (x div k) + k"
proof -
  have e: "x div k * k + x mod k = x" by (rule div_mult_mod_eq)
  have m: "0 \<le> x mod k" "x mod k < k" using assms by simp_all
  have e': "k * (x div k) + x mod k = x" using e by (simp add: mult.commute)
  show "k * (x div k) \<le> x" using e' m by linarith
  show "x < k * (x div k) + k" using e' m by linarith
qed

lemma DayFromYear_expand:
  "DayFromYear y = 365 * y - 719050 + (y - 1969) div 4 - (y - 1901) div 100 + (y - 1601) div 400"
  by (simp add: DayFromYear_def)

lemma DayFromYear_upper: "400 * DayFromYear y \<le> 146097 * y - 287810497"
proof -
  define a where "a = (y - 1969) div 4"
  define b where "b = (y - 1901) div 100"
  define c where "c = (y - 1601) div 400"
  have a: "4 * a \<le> y - 1969" unfolding a_def by (rule div_bounds) simp
  have b: "y - 1901 < 100 * b + 100" unfolding b_def by (rule div_bounds) simp
  have c: "400 * c \<le> y - 1601" unfolding c_def by (rule div_bounds) simp
  have "DayFromYear y = 365 * y - 719050 + a - b + c"
    by (simp only: DayFromYear_expand a_def b_def c_def)
  then show ?thesis using a b c by linarith
qed

lemma DayFromYear_lower: "146097 * y - 287811697 \<le> 400 * DayFromYear y"
proof -
  define a where "a = (y - 1969) div 4"
  define b where "b = (y - 1901) div 100"
  define c where "c = (y - 1601) div 400"
  have a: "y - 1969 < 4 * a + 4" unfolding a_def by (rule div_bounds) simp
  have b: "100 * b \<le> y - 1901" unfolding b_def by (rule div_bounds) simp
  have c: "y - 1601 < 400 * c + 400" unfolding c_def by (rule div_bounds) simp
  have "DayFromYear y = 365 * y - 719050 + a - b + c"
    by (simp only: DayFromYear_expand a_def b_def c_def)
  then show ?thesis using a b c by linarith
qed

lemma YearFromDay_bounds:
  "DayFromYear (YearFromDay d) \<le> d \<and> d < DayFromYear (YearFromDay d + 1)"
proof -
  define q where "q = (d * 400) div 146097"
  define y1 where "y1 = 1970 + q - 1"
  define y2 where "y2 = 1970 + q + 2"
  have "146097 * q \<le> d * 400" unfolding q_def by (rule div_bounds) simp
  then have q1: "146097 * q \<le> 400 * d" by simp
  have "d * 400 < 146097 * q + 146097" unfolding q_def by (rule div_bounds) simp
  then have q2: "400 * d < 146097 * q + 146097" by simp
  have y1: "y1 = q + 1969" and y2: "y2 = q + 1972" by (simp_all add: y1_def y2_def)
  have "DayFromYear y1 \<le> d"
    using DayFromYear_upper[of y1] q1 y1 by linarith
  then have lo: "DayFromYear (1970 + q - 1) \<le> d" by (simp only: y1_def)
  have "d < DayFromYear y2"
    using DayFromYear_lower[of y2] q2 y2 by linarith
  then have hi: "d < DayFromYear (1970 + q + 2)" by (simp only: y2_def)
  have e1: "1970 + q + 1 + 1 = 1970 + q + 2" by simp
  have e2: "1970 + q - 1 + 1 = 1970 + q" by simp
  consider (up) "DayFromYear (1970 + q + 1) \<le> d"
    | (mid) "\<not> DayFromYear (1970 + q + 1) \<le> d" "DayFromYear (1970 + q) \<le> d"
    | (down) "\<not> DayFromYear (1970 + q + 1) \<le> d" "\<not> DayFromYear (1970 + q) \<le> d"
    by blast
  then show ?thesis
  proof cases
    case up
    then have "YearFromDay d = 1970 + q + 1"
      by (simp add: YearFromDay_def Let_def q_def)
    then show ?thesis using up hi by (simp add: e1)
  next
    case mid
    then have "YearFromDay d = 1970 + q"
      by (simp add: YearFromDay_def Let_def q_def)
    then show ?thesis using mid by simp
  next
    case down
    then have "YearFromDay d = 1970 + q - 1"
      by (simp add: YearFromDay_def Let_def q_def)
    then show ?thesis using down lo by (simp add: e2)
  qed
qed

lemma DayFromYear_mono_nat: "DayFromYear y + 365 * int n \<le> DayFromYear (y + int n)"
proof (induction n)
  case 0
  then show ?case by simp
next
  case (Suc n)
  have "y + int (Suc n) = y + int n + 1" by simp
  then have "DayFromYear (y + int (Suc n)) = DayFromYear (y + int n) + DaysInYear (y + int n)"
    by (simp only: DayFromYear_Suc)
  then show ?case using Suc DaysInYear_cases[of "y + int n"] by auto
qed

lemma DayFromYear_mono: "y \<le> y' \<Longrightarrow> DayFromYear y + 365 * (y' - y) \<le> DayFromYear y'"
  using DayFromYear_mono_nat[of y "nat (y' - y)"] by simp

lemma YearFromDay_unique:
  assumes "DayFromYear y \<le> d" "d < DayFromYear (y + 1)"
  shows "YearFromDay d = y"
proof -
  let ?z = "YearFromDay d"
  have b: "DayFromYear ?z \<le> d" "d < DayFromYear (?z + 1)"
    using YearFromDay_bounds[of d] by simp_all
  have "\<not> ?z < y"
  proof
    assume "?z < y"
    then have "DayFromYear (?z + 1) \<le> DayFromYear y"
      using DayFromYear_mono[of "?z + 1" y] by simp
    with b assms show False by simp
  qed
  moreover have "\<not> y < ?z"
  proof
    assume "y < ?z"
    then have "DayFromYear (y + 1) \<le> DayFromYear ?z"
      using DayFromYear_mono[of "y + 1" ?z] by simp
    with b assms show False by simp
  qed
  ultimately show ?thesis by simp
qed

lemma Day_of_midnight: "Day (n * msPerDay) = n" "TimeWithinDay (n * msPerDay) = 0"
  by (simp_all add: Day_def TimeWithinDay_def msPerDay_def)

lemma month_cases:
  fixes m :: int
  assumes "1 \<le> m" "m \<le> 12"
  shows "m = 1 \<or> m = 2 \<or> m = 3 \<or> m = 4 \<or> m = 5 \<or> m = 6
       \<or> m = 7 \<or> m = 8 \<or> m = 9 \<or> m = 10 \<or> m = 11 \<or> m = 12"
  using assms by arith

lemma MakeDay_valid:
  assumes "1 \<le> m" "m \<le> 12"
  shows "MakeDay y (m - 1) d =
           DayFromYear y + month_start (if DaysInYear y = 366 then 1 else 0) (m - 1) + d - 1"
proof -
  have "(m - 1) div 12 = 0" "(m - 1) mod 12 = m - 1" using assms by simp_all
  then show ?thesis by (simp add: MakeDay_def Let_def)
qed

lemma month_start_values:
  "month_start l 0 = 0" "month_start l 1 = 31" "month_start l 2 = 59 + l"
  "month_start l 3 = 90 + l" "month_start l 4 = 120 + l" "month_start l 5 = 151 + l"
  "month_start l 6 = 181 + l" "month_start l 7 = 212 + l" "month_start l 8 = 243 + l"
  "month_start l 9 = 273 + l" "month_start l 10 = 304 + l" "month_start l 11 = 334 + l"
  by (simp_all add: month_start_def)

lemma month_of_day_interval:
  "0 \<le> n \<Longrightarrow> n < 31 \<Longrightarrow> month_of_day l n = 0"
  "31 \<le> n \<Longrightarrow> n < 59 + l \<Longrightarrow> month_of_day l n = 1"
  "59 + l \<le> n \<Longrightarrow> n < 90 + l \<Longrightarrow> 0 \<le> l \<Longrightarrow> month_of_day l n = 2"
  "90 + l \<le> n \<Longrightarrow> n < 120 + l \<Longrightarrow> 0 \<le> l \<Longrightarrow> month_of_day l n = 3"
  "120 + l \<le> n \<Longrightarrow> n < 151 + l \<Longrightarrow> 0 \<le> l \<Longrightarrow> month_of_day l n = 4"
  "151 + l \<le> n \<Longrightarrow> n < 181 + l \<Longrightarrow> 0 \<le> l \<Longrightarrow> month_of_day l n = 5"
  "181 + l \<le> n \<Longrightarrow> n < 212 + l \<Longrightarrow> 0 \<le> l \<Longrightarrow> month_of_day l n = 6"
  "212 + l \<le> n \<Longrightarrow> n < 243 + l \<Longrightarrow> 0 \<le> l \<Longrightarrow> month_of_day l n = 7"
  "243 + l \<le> n \<Longrightarrow> n < 273 + l \<Longrightarrow> 0 \<le> l \<Longrightarrow> month_of_day l n = 8"
  "273 + l \<le> n \<Longrightarrow> n < 304 + l \<Longrightarrow> 0 \<le> l \<Longrightarrow> month_of_day l n = 9"
  "304 + l \<le> n \<Longrightarrow> n < 334 + l \<Longrightarrow> 0 \<le> l \<Longrightarrow> month_of_day l n = 10"
  "334 + l \<le> n \<Longrightarrow> 0 \<le> l \<Longrightarrow> month_of_day l n = 11"
  by (simp_all add: month_of_day_def)


lemma day_in_year_l:
  assumes l: "l = 0 \<or> l = 1" and m: "1 \<le> m" "m \<le> 12" and d: "1 \<le> d"
    and dm: "d \<le> (if m = 2 then 28 + l
                    else if m = 4 \<or> m = 6 \<or> m = 9 \<or> m = 11 then 30 else 31)"
  shows "0 \<le> month_start l (m - 1) + d - 1"
    and "month_start l (m - 1) + d - 1 < 365 + l"
    and "month_of_day l (month_start l (m - 1) + d - 1) = m - 1"
proof -
  have l0: "0 \<le> l" "l \<le> 1" using l by auto
  note c = month_cases[OF m]
  show "0 \<le> month_start l (m - 1) + d - 1"
    using c d l0 by (elim disjE) (simp_all add: month_start_values)
  show "month_start l (m - 1) + d - 1 < 365 + l"
    using c d dm l0 by (elim disjE) (simp_all add: month_start_values)
  show "month_of_day l (month_start l (m - 1) + d - 1) = m - 1"
    using c d dm l0 by (elim disjE) (simp_all add: month_start_values month_of_day_interval)
qed


lemma DaysInMonth_leap:
  "DaysInMonth y m =
     (if m = 2 then 28 + (if DaysInYear y = 366 then 1 else 0)
      else if m = 4 \<or> m = 6 \<or> m = 9 \<or> m = 11 then 30 else 31)"
  by (simp add: DaysInMonth_def)

lemma civil_roundtrip:
  assumes "valid_date y m d"
  shows "YearFromTime (MakeDay y (m - 1) d * msPerDay) = y"
    and "MonthFromTime (MakeDay y (m - 1) d * msPerDay) = m - 1"
    and "DateFromTime (MakeDay y (m - 1) d * msPerDay) = d"
    and "DayWithinYear (MakeDay y (m - 1) d * msPerDay) = MakeDay y (m - 1) d - DayFromYear y"
proof -
  define l :: int where "l = (if DaysInYear y = 366 then 1 else 0)"
  let ?n = "MakeDay y (m - 1) d"
  from assms have m: "1 \<le> m" "m \<le> 12" and d: "1 \<le> d" "d \<le> DaysInMonth y m"
    by (simp_all add: valid_date_def)
  have l: "l = 0 \<or> l = 1" by (simp add: l_def)
  have dm: "d \<le> (if m = 2 then 28 + l
                    else if m = 4 \<or> m = 6 \<or> m = 9 \<or> m = 11 then 30 else 31)"
    using d(2) unfolding DaysInMonth_leap l_def .
  note r = day_in_year_l[OF l m d(1) dm]
  have diy: "DaysInYear y = 365 + l"
    using DaysInYear_cases[of y] by (auto simp: l_def)
  have n: "?n = DayFromYear y + (month_start l (m - 1) + d - 1)"
    using MakeDay_valid[OF m, of y d] by (simp add: l_def)
  have lo: "DayFromYear y \<le> ?n" using n r(1) by simp
  have hi: "?n < DayFromYear (y + 1)"
    using n r(2) by (simp add: DayFromYear_Suc diy)
  show yr: "YearFromTime (?n * msPerDay) = y"
    unfolding YearFromTime_def Day_of_midnight by (rule YearFromDay_unique[OF lo hi])
  have leap: "InLeapYear (?n * msPerDay) = l"
    by (simp add: InLeapYear_def yr l_def)
  show dwy': "DayWithinYear (?n * msPerDay) = ?n - DayFromYear y"
    unfolding DayWithinYear_def yr Day_of_midnight by simp
  have dwy: "DayWithinYear (?n * msPerDay) = month_start l (m - 1) + d - 1"
    unfolding dwy' using n by simp
  show mo: "MonthFromTime (?n * msPerDay) = m - 1"
    unfolding MonthFromTime_def leap dwy by (rule r(3))
  show "DateFromTime (?n * msPerDay) = d"
    unfolding DateFromTime_def mo leap dwy by simp
qed

lemma DayWithinYear_range:
  "0 \<le> DayWithinYear t" "DayWithinYear t < DaysInYear (YearFromTime t)"
  using YearFromDay_bounds[of "Day t"]
  by (simp_all add: DayWithinYear_def YearFromTime_def DayFromYear_Suc)

lemma month_of_day_split:
  assumes l: "l = 0 \<or> l = 1" and n: "0 \<le> n" "n < 365 + l"
  shows "0 \<le> month_of_day l n \<and> month_of_day l n \<le> 11
       \<and> month_start l (month_of_day l n) \<le> n
       \<and> n - month_start l (month_of_day l n) + 1 \<le>
           (if month_of_day l n + 1 = 2 then 28 + l
            else if month_of_day l n + 1 = 4 \<or> month_of_day l n + 1 = 6
                    \<or> month_of_day l n + 1 = 9 \<or> month_of_day l n + 1 = 11 then 30
            else 31)"
proof -
  have l0: "0 \<le> l" "l \<le> 1" using l by auto
  consider "n < 31" | "31 \<le> n \<and> n < 59 + l" | "59 + l \<le> n \<and> n < 90 + l"
    | "90 + l \<le> n \<and> n < 120 + l" | "120 + l \<le> n \<and> n < 151 + l"
    | "151 + l \<le> n \<and> n < 181 + l" | "181 + l \<le> n \<and> n < 212 + l"
    | "212 + l \<le> n \<and> n < 243 + l" | "243 + l \<le> n \<and> n < 273 + l"
    | "273 + l \<le> n \<and> n < 304 + l" | "304 + l \<le> n \<and> n < 334 + l" | "334 + l \<le> n"
    by linarith
  then show ?thesis
  proof cases
    case 1 then show ?thesis using n l0 by (simp add: month_of_day_interval month_start_values)
  next
    case 2 then show ?thesis using n l0 by (simp add: month_of_day_interval month_start_values)
  next
    case 3 then show ?thesis using n l0 by (simp add: month_of_day_interval month_start_values)
  next
    case 4 then show ?thesis using n l0 by (simp add: month_of_day_interval month_start_values)
  next
    case 5 then show ?thesis using n l0 by (simp add: month_of_day_interval month_start_values)
  next
    case 6 then show ?thesis using n l0 by (simp add: month_of_day_interval month_start_values)
  next
    case 7 then show ?thesis using n l0 by (simp add: month_of_day_interval month_start_values)
  next
    case 8 then show ?thesis using n l0 by (simp add: month_of_day_interval month_start_values)
  next
    case 9 then show ?thesis using n l0 by (simp add: month_of_day_interval month_start_values)
  next
    case 10 then show ?thesis using n l0 by (simp add: month_of_day_interval month_start_values)
  next
    case 11 then show ?thesis using n l0 by (simp add: month_of_day_interval month_start_values)
  next
    case 12 then show ?thesis using n l0 by (simp add: month_of_day_interval month_start_values)
  qed
qed

lemma civil_of_time:
  shows "0 \<le> MonthFromTime t" "MonthFromTime t \<le> 11"
    and "valid_date (YearFromTime t) (MonthFromTime t + 1) (DateFromTime t)"
    and "MakeDay (YearFromTime t) (MonthFromTime t) (DateFromTime t) = Day t"
proof -
  define y where "y = YearFromTime t"
  define l where "l = InLeapYear t"
  define n where "n = DayWithinYear t"
  define mo where "mo = month_of_day l n"
  have l: "l = 0 \<or> l = 1" by (simp add: l_def InLeapYear_def)
  have ll: "(if DaysInYear y = 366 then 1 else 0) = l" by (simp add: l_def y_def InLeapYear_def)
  have n0: "0 \<le> n" unfolding n_def by (rule DayWithinYear_range)
  have n1: "n < 365 + l"
    using DayWithinYear_range(2)[of t] DaysInYear_cases[of y]
    by (auto simp: l_def n_def y_def InLeapYear_def)
  have r: "0 \<le> mo" "mo \<le> 11" "month_start l mo \<le> n"
       "n - month_start l mo + 1 \<le>
           (if mo + 1 = 2 then 28 + l
            else if mo + 1 = 4 \<or> mo + 1 = 6 \<or> mo + 1 = 9 \<or> mo + 1 = 11 then 30
            else 31)"
    using month_of_day_split[OF l n0 n1] unfolding mo_def by blast+
  have M: "MonthFromTime t = mo" by (simp add: MonthFromTime_def mo_def l_def n_def)
  have D: "DateFromTime t = n - month_start l mo + 1"
    by (simp add: DateFromTime_def M l_def n_def)
  show "0 \<le> MonthFromTime t" "MonthFromTime t \<le> 11" using r(1,2) M by simp_all
  have "valid_date y (mo + 1) (n - month_start l mo + 1)"
    unfolding valid_date_def DaysInMonth_leap ll using r by simp
  then show "valid_date (YearFromTime t) (MonthFromTime t + 1) (DateFromTime t)"
    by (simp add: M D y_def)
  have "MakeDay y (mo + 1 - 1) (n - month_start l mo + 1) =
          DayFromYear y + month_start (if DaysInYear y = 366 then 1 else 0) (mo + 1 - 1)
            + (n - month_start l mo + 1) - 1"
    by (rule MakeDay_valid) (use r in simp_all)
  then have "MakeDay y mo (n - month_start l mo + 1) = DayFromYear y + n"
    by (simp add: ll)
  then show "MakeDay (YearFromTime t) (MonthFromTime t) (DateFromTime t) = Day t"
    by (simp add: M D y_def n_def DayWithinYear_def)
qed

section \<open>Date strings: proofs\<close>

lemma of_char_digit_char: "0 \<le> k \<Longrightarrow> k \<le> 9 \<Longrightarrow> (of_char (digit_char k) :: int) = 48 + k"
  by (simp add: digit_char_def)

lemma is_digit_digit_char [simp]: "is_digit (digit_char (e mod 10))"
  by (simp add: is_digit_def of_char_digit_char)

lemma digit_val_digit_char [simp]: "digit_val (digit_char (e mod 10)) = e mod 10"
  by (simp add: digit_val_def of_char_digit_char)

lemma is_digit_not_special:
  "is_digit c \<Longrightarrow> c \<noteq> CHR ''-'' \<and> c \<noteq> CHR ''+'' \<and> c \<noteq> CHR ''T'' \<and> c \<noteq> CHR ''x'' \<and> c \<noteq> CHR ''X''"
  by (auto simp: is_digit_def)


lemma starts_with_Cons: "starts_with (p # ps) (c # s) \<longleftrightarrow> p = c \<and> starts_with ps s"
  by (auto simp: starts_with_def)

lemma is_digit_ws_len:
  assumes "is_digit c"
  shows "ws_len (c # s) = 0"
proof -
  have n: "c \<noteq> CHR 0x09" "c \<noteq> CHR 0x0A" "c \<noteq> CHR 0x0B" "c \<noteq> CHR 0x0C" "c \<noteq> CHR 0x0D"
    "c \<noteq> CHR 0x20" "c \<noteq> CHR 0xC2" "c \<noteq> CHR 0xEF" "c \<noteq> CHR 0xE1" "c \<noteq> CHR 0xE2" "c \<noteq> CHR 0xE3"
    using assms by (auto simp: is_digit_def)
  have m: "CHR 0x09 \<noteq> c" "CHR 0x0A \<noteq> c" "CHR 0x0B \<noteq> c" "CHR 0x0C \<noteq> c" "CHR 0x0D \<noteq> c"
    "CHR 0x20 \<noteq> c" "CHR 0xC2 \<noteq> c" "CHR 0xEF \<noteq> c" "CHR 0xE1 \<noteq> c" "CHR 0xE2 \<noteq> c" "CHR 0xE3 \<noteq> c"
    using n by auto
  show ?thesis
    unfolding ws_len_def by (simp only: list.set starts_with_Cons bex_simps ball_simps m n
        simp_thms if_False insert_iff empty_iff bex_triv_one_point1 bex_triv_one_point2)
qed


lemma skip_ws_digit: "is_digit c \<Longrightarrow> skip_ws (c # s) = c # s"
  by (simp add: skip_ws_def is_digit_ws_len)

lemma read_sign_digit: "is_digit c \<Longrightarrow> read_sign (c # s) = (False, c # s)"
  using is_digit_not_special[of c] by (simp add: read_sign_def)

lemma digits_val_snoc: "digits_val (s @ [c]) = 10 * digits_val s + digit_val c"
  by (simp add: digits_val_def)

lemma digits_val_append: "digits_val (a @ b) = digits_val a * 10 ^ length b + digits_val b"
proof (induction b rule: rev_induct)
  case Nil
  then show ?case by (simp add: digits_val_def)
next
  case (snoc c b)
  have "digits_val (a @ b @ [c]) = 10 * digits_val (a @ b) + digit_val c"
    using digits_val_snoc[of "a @ b" c] by simp
  then show ?case using snoc by (simp add: digits_val_snoc algebra_simps)
qed

lemma div_div_10:
  fixes n :: int
  shows "n div 10 div 10 = n div 100" "n div 10 div 100 = n div 1000"
    "n div 100 div 10 = n div 1000" "n div 100 div 100 = n div 10000"
    "n div 100 div 1000 = n div 100000"
proof -
  have "n div (10 * 10) = n div 10 div 10" by (rule zdiv_zmult2_eq) simp
  then show "n div 10 div 10 = n div 100" by simp
  have "n div (10 * 100) = n div 10 div 100" by (rule zdiv_zmult2_eq) simp
  then show "n div 10 div 100 = n div 1000" by simp
  have "n div (100 * 10) = n div 100 div 10" by (rule zdiv_zmult2_eq) simp
  then show "n div 100 div 10 = n div 1000" by simp
  have "n div (100 * 100) = n div 100 div 100" by (rule zdiv_zmult2_eq) simp
  then show "n div 100 div 100 = n div 10000" by simp
  have "n div (100 * 1000) = n div 100 div 1000" by (rule zdiv_zmult2_eq) simp
  then show "n div 100 div 1000 = n div 100000" by simp
qed

lemma pad3_snoc: "pad3 n = pad2 (n div 10) @ [digit_char (n mod 10)]"
  by (simp add: pad3_def pad2_def div_div_10)

lemma pad4_snoc: "pad4 n = pad3 (n div 10) @ [digit_char (n mod 10)]"
  by (simp add: pad4_def pad3_def pad2_def div_div_10)

lemma pad6_snoc: "pad6 n = pad4 (n div 100) @ pad2 n"
  by (simp add: pad6_def pad4_def pad3_def pad2_def div_div_10)

lemma length_pad [simp]: "length (pad2 n) = 2" "length (pad3 n) = 3" "length (pad4 n) = 4" "length (pad6 n) = 6"
  by (simp_all add: pad2_def pad3_def pad4_def pad6_def)

lemma digits_pad [simp]:
  "list_all is_digit (pad2 n)" "list_all is_digit (pad3 n)" "list_all is_digit (pad4 n)"
  "list_all is_digit (pad6 n)"
  by (simp_all add: pad2_def pad3_def pad4_def pad6_def)

lemma digits_val_pad2: "digits_val (pad2 n) = n mod 100"
proof -
  have "n mod (10 * 10) = 10 * (n div 10 mod 10) + n mod 10"
    by (rule zmod_zmult2_eq) simp
  then show ?thesis by (simp add: pad2_def digits_val_def)
qed

lemma digits_val_pad3: "digits_val (pad3 n) = n mod 1000"
proof -
  have "n mod (10 * 100) = 10 * (n div 10 mod 100) + n mod 10"
    by (rule zmod_zmult2_eq) simp
  then show ?thesis by (simp add: pad3_snoc digits_val_snoc digits_val_pad2)
qed

lemma digits_val_pad4: "digits_val (pad4 n) = n mod 10000"
proof -
  have "n mod (10 * 1000) = 10 * (n div 10 mod 1000) + n mod 10"
    by (rule zmod_zmult2_eq) simp
  then show ?thesis by (simp add: pad4_snoc digits_val_snoc digits_val_pad3)
qed

lemma digits_val_pad6: "digits_val (pad6 n) = n mod 1000000"
proof -
  have "n mod (100 * 10000) = 100 * (n div 100 mod 10000) + n mod 100"
    by (rule zmod_zmult2_eq) simp
  then show ?thesis by (simp add: pad6_snoc digits_val_append digits_val_pad4 digits_val_pad2)
qed

lemma pad_no_special:
  "CHR ''T'' \<notin> set (pad2 n)" "CHR ''T'' \<notin> set (pad4 n)" "CHR ''T'' \<notin> set (pad6 n)"
  "CHR ''-'' \<notin> set (pad2 n)" "CHR ''-'' \<notin> set (pad4 n)"
proof -
  have d: "\<And>c xs. list_all is_digit xs \<Longrightarrow> c \<in> set xs \<Longrightarrow> is_digit c"
    by (simp add: list_all_iff)
  have nT: "\<not> is_digit CHR ''T''" and nm: "\<not> is_digit CHR ''-''"
    by (simp_all add: is_digit_def)
  show "CHR ''T'' \<notin> set (pad2 n)" using d[OF digits_pad(1)[of n]] nT by blast
  show "CHR ''T'' \<notin> set (pad4 n)" using d[OF digits_pad(3)[of n]] nT by blast
  show "CHR ''T'' \<notin> set (pad6 n)" using d[OF digits_pad(4)[of n]] nT by blast
  show "CHR ''-'' \<notin> set (pad2 n)" using d[OF digits_pad(1)[of n]] nm by blast
  show "CHR ''-'' \<notin> set (pad4 n)" using d[OF digits_pad(3)[of n]] nm by blast
qed

lemma filter_pad:
  "filter (\<lambda>c. c \<noteq> CHR ''-'') (pad2 n) = pad2 n"
  "filter (\<lambda>c. c \<noteq> CHR ''-'') (pad4 n) = pad4 n"
  using pad_no_special(4,5)[of n] by (simp_all add: filter_id_conv) blast+

lemma takeWhile_digits: "list_all is_digit s \<Longrightarrow> takeWhile is_digit s = s"
  by (simp add: list_all_iff)

lemma iso_date_no_T: "CHR ''T'' \<notin> set (iso_date y m d)"
  by (simp add: iso_date_def iso_year_def pad_no_special)

lemma split_T_0_iso_date: "split_T_0 (iso_date y m d @ CHR ''T'' # rest) = iso_date y m d"
proof -
  have "\<And>c. c \<in> set (iso_date y m d) \<Longrightarrow> c \<noteq> CHR ''T''"
    using iso_date_no_T[of y m d] by blast
  then have "takeWhile (\<lambda>c. c \<noteq> CHR ''T'') (iso_date y m d @ CHR ''T'' # rest)
      = iso_date y m d @ takeWhile (\<lambda>c. c \<noteq> CHR ''T'') (CHR ''T'' # rest)"
    by (rule takeWhile_append2)
  then show ?thesis by (simp add: split_T_0_def)
qed


lemma toISOString_date:
  "\<exists>rest. toISOString (Some t)
     = Inr (iso_date (YearFromTime t) (MonthFromTime t + 1) (DateFromTime t) @ CHR ''T'' # rest)"
  by (simp add: toISOString_def)

lemma parse_iso_date_4:
  assumes "0 \<le> y" "y \<le> 9999" "0 \<le> m" "m \<le> 99" "0 \<le> d" "d \<le> 99"
  shows "parse_iso_date (iso_date y m d) = Some (y, m, d)"
proof -
  have s: "iso_date y m d = pad4 y @ CHR ''-'' # pad2 m @ CHR ''-'' # pad2 d"
    using assms by (simp add: iso_date_def iso_year_def)
  have v: "digits_val (pad4 y) = y" "digits_val (pad2 m) = m" "digits_val (pad2 d) = d"
    using assms by (simp_all add: digits_val_pad4 digits_val_pad2)
  show ?thesis
    unfolding s parse_iso_date_def by (simp add: nth_append v)
qed


lemma parse_iso_date_6:
  assumes "y < 0 \<or> 9999 < y" "- 999999 \<le> y" "y \<le> 999999" "0 \<le> m" "m \<le> 99" "0 \<le> d" "d \<le> 99"
  shows "parse_iso_date (iso_date y m d) = Some (y, m, d)"
proof -
  have v: "digits_val (pad6 \<bar>y\<bar>) = \<bar>y\<bar>" "digits_val (pad2 m) = m" "digits_val (pad2 d) = d"
    using assms by (simp_all add: digits_val_pad6 digits_val_pad2)
  from assms(1) show ?thesis
  proof
    assume neg: "y < 0"
    then have s: "iso_date y m d = CHR ''-'' # pad6 \<bar>y\<bar> @ CHR ''-'' # pad2 m @ CHR ''-'' # pad2 d"
      by (simp add: iso_date_def iso_year_def)
    have v': "digits_val (pad6 (- y)) = - y"
      using assms neg by (simp add: digits_val_pad6)
    show ?thesis
      unfolding s parse_iso_date_def using neg by (simp add: nth_append v v')
  next
    assume pos: "9999 < y"
    then have s: "iso_date y m d = CHR ''+'' # pad6 \<bar>y\<bar> @ CHR ''-'' # pad2 m @ CHR ''-'' # pad2 d"
      by (simp add: iso_date_def iso_year_def)
    have v': "digits_val (pad6 y) = y"
      using assms pos by (simp add: digits_val_pad6)
    show ?thesis
      unfolding s parse_iso_date_def using pos by (simp add: nth_append v v')
  qed
qed

lemma parse_iso_date_iso_date:
  assumes "- 999999 \<le> y" "y \<le> 999999" "0 \<le> m" "m \<le> 99" "0 \<le> d" "d \<le> 99"
  shows "parse_iso_date (iso_date y m d) = Some (y, m, d)"
proof (cases "0 \<le> y \<and> y \<le> 9999")
  case True
  then show ?thesis using parse_iso_date_4[of y m d] assms by simp
next
  case False
  then have "y < 0 \<or> 9999 < y" by linarith
  then show ?thesis using parse_iso_date_6[of y m d] assms by simp
qed


lemma parseInt_digits:
  assumes "list_all is_digit s" "length s \<ge> 2"
  shows "parseInt_str s = Fin (of_int (digits_val s))"
proof -
  obtain c c' t where ct: "s = c # c' # t"
    using assms(2) by (cases s; cases "tl s") auto
  have dc: "is_digit c" "is_digit c'" using assms(1) ct by simp_all
  have nohex: "\<not> starts_with ''0x'' s" "\<not> starts_with ''0X'' s"
    using is_digit_not_special[OF dc(2)] by (auto simp: ct starts_with_Cons)
  have sk: "skip_ws s = s" using ct dc skip_ws_digit by simp
  have rs: "read_sign s = (False, s)" using ct dc read_sign_digit by simp
  have ne: "s \<noteq> []" using ct by simp
  show ?thesis
    unfolding parseInt_str_def sk rs
    by (simp add: nohex takeWhile_digits[OF assms(1)] ne)
qed

lemma parseInt_iso_date:
  assumes "0 \<le> y" "y \<le> 9999" "0 \<le> m" "m \<le> 99" "0 \<le> d" "d \<le> 99"
  shows "parseInt_str (remove_all CHR ''-'' (iso_date y m d)) = Fin (of_int (y * 10000 + m * 100 + d))"
proof -
  define s where "s = pad4 y @ pad2 m @ pad2 d"
  have r: "remove_all CHR ''-'' (iso_date y m d) = s"
    using assms by (simp add: iso_date_def iso_year_def remove_all_def filter_pad s_def)
  have all: "list_all is_digit s" by (simp add: s_def)
  have len: "length s \<ge> 2" by (simp add: s_def)
  have v: "digits_val s = y * 10000 + m * 100 + d"
    using assms by (simp add: s_def digits_val_append digits_val_pad4 digits_val_pad2)
  show ?thesis unfolding r using parseInt_digits[OF all len] v by simp
qed

section \<open>The previous period: proofs\<close>

lemma Day_range:
  assumes "\<bar>t\<bar> \<le> 8640000000000000"
  shows "- 100000000 \<le> Day t" "Day t \<le> 100000000"
proof -
  have a: "86400000 * (t div 86400000) \<le> t" by (rule div_bounds) simp
  have b: "t < 86400000 * (t div 86400000) + 86400000" by (rule div_bounds) simp
  show "- 100000000 \<le> Day t" using assms b unfolding Day_def msPerDay_def by linarith
  show "Day t \<le> 100000000" using assms a unfolding Day_def msPerDay_def by linarith
qed

lemma YearFromDay_range:
  assumes "- 100000000 \<le> n" "n \<le> 100000000"
  shows "- 999999 \<le> YearFromDay n" "YearFromDay n \<le> 999999"
proof -
  define y where "y = YearFromDay n"
  define y' where "y' = y + 1"
  have b: "DayFromYear y \<le> n" "n < DayFromYear y'"
    using YearFromDay_bounds[of n] by (simp_all add: y_def y'_def)
  have l: "146097 * y - 287811697 \<le> 400 * DayFromYear y" by (rule DayFromYear_lower)
  have u: "400 * DayFromYear y' \<le> 146097 * y' - 287810497" by (rule DayFromYear_upper)
  have y': "y' = y + 1" by (simp add: y'_def)
  show "YearFromDay n \<le> 999999" using b(1) l assms(2) unfolding y_def[symmetric] by linarith
  show "- 999999 \<le> YearFromDay n" using b(2) u assms(1) y' unfolding y_def[symmetric] by linarith
qed

lemma DaysInMonth_le: "DaysInMonth y m \<le> 31"
  by (simp add: DaysInMonth_def)

lemma Date_parse_valid:
  assumes "valid_date y m d" "- 999999 \<le> y" "y \<le> 999999"
  shows "Date_parse env (iso_date y m d) = TimeClip (MakeDay y (m - 1) d * msPerDay)"
proof -
  from assms(1) have r: "0 \<le> m" "m \<le> 99" "0 \<le> d" "d \<le> 99"
    using DaysInMonth_le[of y m] by (simp_all add: valid_date_def)
  have "parse_iso_date (iso_date y m d) = Some (y, m, d)"
    by (rule parse_iso_date_iso_date[OF assms(2,3) r])
  then show ?thesis using assms(1) by (simp add: Date_parse_def MakeDate_def)
qed

lemma Date_parse_toISOString:
  assumes "\<bar>t\<bar> \<le> 8640000000000000"
  shows "\<exists>s. toISOString (Some t) = Inr s
           \<and> Date_parse env (split_T_0 s) = Some (Day t * msPerDay)"
proof -
  obtain rest where s: "toISOString (Some t)
     = Inr (iso_date (YearFromTime t) (MonthFromTime t + 1) (DateFromTime t) @ CHR ''T'' # rest)"
    using toISOString_date[of t] by blast
  have v: "valid_date (YearFromTime t) (MonthFromTime t + 1) (DateFromTime t)"
    by (rule civil_of_time)
  have yr: "- 999999 \<le> YearFromTime t" "YearFromTime t \<le> 999999"
    unfolding YearFromTime_def using YearFromDay_range[OF Day_range[OF assms]] by simp_all
  have md: "MakeDay (YearFromTime t) (MonthFromTime t + 1 - 1) (DateFromTime t) = Day t"
    using civil_of_time(4)[of t] by simp
  have dr: "- 100000000 \<le> Day t" "Day t \<le> 100000000" by (rule Day_range[OF assms])+
  have clip: "TimeClip (Day t * msPerDay) = Some (Day t * msPerDay)"
    using dr by (simp add: TimeClip_def msPerDay_def)
  have "Date_parse env (iso_date (YearFromTime t) (MonthFromTime t + 1) (DateFromTime t))
          = Some (Day t * msPerDay)"
    using Date_parse_valid[OF v yr, of env] by (simp only: md clip)
  then show ?thesis using s by (simp add: split_T_0_iso_date)
qed

lemma DayFromYear_0: "DayFromYear 0 = - 719528"
  by (simp add: DayFromYear_def)

lemma DayFromYear_10000: "DayFromYear 10000 = 2932897"
  by (simp add: DayFromYear_def)

lemma MakeDay_range:
  assumes "valid_date y m d" "0 \<le> y" "y \<le> 9999"
  shows "- 719528 \<le> MakeDay y (m - 1) d" "MakeDay y (m - 1) d < 2932897"
proof -
  let ?n = "MakeDay y (m - 1) d"
  have yr: "YearFromDay ?n = y"
    using civil_roundtrip(1)[OF assms(1)] by (simp add: YearFromTime_def Day_of_midnight)
  have b: "DayFromYear y \<le> ?n" "?n < DayFromYear (y + 1)"
    using YearFromDay_bounds[of ?n] by (simp_all add: yr)
  have "DayFromYear 0 \<le> DayFromYear y" using DayFromYear_mono[of 0 y] assms(2) by simp
  then show "- 719528 \<le> ?n" using b(1) by (simp add: DayFromYear_0)
  have "DayFromYear (y + 1) \<le> DayFromYear 10000"
    using DayFromYear_mono[of "y + 1" 10000] assms(3) by simp
  then show "?n < 2932897" using b(2) by (simp add: DayFromYear_10000)
qed

lemma Date_parse_iso_date:
  assumes "valid_date y m d" "0 \<le> y" "y \<le> 9999"
  shows "Date_parse env (iso_date y m d) = Some (MakeDay y (m - 1) d * msPerDay)"
proof -
  have "TimeClip (MakeDay y (m - 1) d * msPerDay) = Some (MakeDay y (m - 1) d * msPerDay)"
    using MakeDay_range[OF assms] by (simp add: TimeClip_def msPerDay_def)
  then show ?thesis using Date_parse_valid[OF assms(1), of env] assms(2,3) by simp
qed


text \<open>
  C4. For two valid ISO dates (years 0000 to 9999, in either order) the previous period
  is returned, its end date is the day before the start date (86400000 ms earlier, both
  at midnight UTC), and its duration, end minus start, is that of the given window: the
  previous start is the previous end minus (end - start).
\<close>

theorem getPreviousPeriod_window:
  assumes "valid_date y1 m1 d1" "0 \<le> y1" "y1 \<le> 9999"
    and "valid_date y2 m2 d2" "0 \<le> y2" "y2 \<le> 9999"
  shows "\<exists>S E p PS PE.
           Date_parse env (iso_date y1 m1 d1) = Some S
         \<and> Date_parse env (iso_date y2 m2 d2) = Some E
         \<and> getPreviousPeriod env (iso_date y1 m1 d1) (iso_date y2 m2 d2) = Inr p
         \<and> Date_parse env (prev_startDate p) = Some PS
         \<and> Date_parse env (prev_endDate p) = Some PE
         \<and> PE = S - 86400000
         \<and> PE - PS = E - S"
proof -
  define n1 where "n1 = MakeDay y1 (m1 - 1) d1"
  define n2 where "n2 = MakeDay y2 (m2 - 1) d2"
  have S: "Date_parse env (iso_date y1 m1 d1) = Some (n1 * msPerDay)"
    unfolding n1_def by (rule Date_parse_iso_date[OF assms(1,2,3)])
  have E: "Date_parse env (iso_date y2 m2 d2) = Some (n2 * msPerDay)"
    unfolding n2_def by (rule Date_parse_iso_date[OF assms(4,5,6)])
  have r1: "- 719528 \<le> n1" "n1 < 2932897"
    unfolding n1_def by (rule MakeDay_range[OF assms(1,2,3)])+
  have r2: "- 719528 \<le> n2" "n2 < 2932897"
    unfolding n2_def by (rule MakeDay_range[OF assms(4,5,6)])+
  define pe where "pe = (n1 - 1) * msPerDay"
  define ps where "ps = (n1 - 1 - (n2 - n1)) * msPerDay"
  have pe: "n1 * msPerDay - 86400000 = pe"
    by (simp add: pe_def msPerDay_def algebra_simps)
  have ps: "pe - (n2 * msPerDay - n1 * msPerDay) = ps"
    by (simp add: pe_def ps_def msPerDay_def algebra_simps)
  have cpe: "\<bar>pe\<bar> \<le> 8640000000000000"
    using r1 by (simp add: pe_def msPerDay_def)
  have cps: "\<bar>ps\<bar> \<le> 8640000000000000"
    using r1 r2 by (simp add: ps_def msPerDay_def)
  have prevEnd: "Date_of_number (nan_minus (Some (n1 * msPerDay)) (Some 86400000)) = Some pe"
    using cpe by (simp add: Date_of_number_def nan_minus_def TimeClip_def pe)
  have prevStart:
    "Date_of_number (nan_minus (Some pe) (nan_minus (Some (n2 * msPerDay)) (Some (n1 * msPerDay)))) = Some ps"
    using cps by (simp add: Date_of_number_def nan_minus_def TimeClip_def ps)
  obtain s_ps where s_ps: "toISOString (Some ps) = Inr s_ps"
      "Date_parse env (split_T_0 s_ps) = Some (Day ps * msPerDay)"
    using Date_parse_toISOString[OF cps, of env] by blast
  obtain s_pe where s_pe: "toISOString (Some pe) = Inr s_pe"
      "Date_parse env (split_T_0 s_pe) = Some (Day pe * msPerDay)"
    using Date_parse_toISOString[OF cpe, of env] by blast
  have dps: "Day ps * msPerDay = ps" by (simp add: ps_def Day_of_midnight)
  have dpe: "Day pe * msPerDay = pe" by (simp add: pe_def Day_of_midnight)
  have g: "getPreviousPeriod env (iso_date y1 m1 d1) (iso_date y2 m2 d2)
             = Inr \<lparr>prev_startDate = split_T_0 s_ps, prev_endDate = split_T_0 s_pe\<rparr>"
    by (simp add: getPreviousPeriod_def Let_def S E prevEnd prevStart s_ps(1) s_pe(1))
  show ?thesis
  proof (intro exI conjI)
    show "Date_parse env (iso_date y1 m1 d1) = Some (n1 * msPerDay)" by (rule S)
    show "Date_parse env (iso_date y2 m2 d2) = Some (n2 * msPerDay)" by (rule E)
    show "getPreviousPeriod env (iso_date y1 m1 d1) (iso_date y2 m2 d2)
             = Inr \<lparr>prev_startDate = split_T_0 s_ps, prev_endDate = split_T_0 s_pe\<rparr>"
      by (rule g)
    show "Date_parse env (prev_startDate \<lparr>prev_startDate = split_T_0 s_ps, prev_endDate = split_T_0 s_pe\<rparr>)
            = Some ps"
      using s_ps(2) dps by simp
    show "Date_parse env (prev_endDate \<lparr>prev_startDate = split_T_0 s_ps, prev_endDate = split_T_0 s_pe\<rparr>)
            = Some pe"
      using s_pe(2) dpe by simp
    show "pe = n1 * msPerDay - 86400000" using pe by simp
    show "pe - ps = n2 * msPerDay - n1 * msPerDay" using ps by simp
  qed
qed

theorem getPreviousPeriod_window_witness:
  "valid_date 2025 12 1 \<and> valid_date 2025 12 10
   \<and> getPreviousPeriod ascii_env ''2025-12-01'' ''2025-12-10''
       = Inr \<lparr>prev_startDate = ''2025-11-21'', prev_endDate = ''2025-11-30''\<rparr>
   \<and> Date_parse ascii_env ''2025-12-01'' = Some 1764547200000
   \<and> Date_parse ascii_env ''2025-12-10'' = Some 1765324800000
   \<and> Date_parse ascii_env ''2025-11-21'' = Some 1763683200000
   \<and> Date_parse ascii_env ''2025-11-30'' = Some 1764460800000"
proof -
  have v: "valid_date 2025 12 1" "valid_date 2025 12 10" by code_simp+
  have i: "iso_date 2025 12 1 = ''2025-12-01''" "iso_date 2025 12 10 = ''2025-12-10''"
    by code_simp+
  have e: "getPreviousPeriod ascii_env ''2025-12-01'' ''2025-12-10''
       = Inr \<lparr>prev_startDate = ''2025-11-21'', prev_endDate = ''2025-11-30''\<rparr>"
    "Date_parse ascii_env ''2025-12-01'' = Some 1764547200000"
    "Date_parse ascii_env ''2025-12-10'' = Some 1765324800000"
    by code_simp+
  obtain S E p PS PE where
    h: "Date_parse ascii_env (iso_date 2025 12 1) = Some S"
       "Date_parse ascii_env (iso_date 2025 12 10) = Some E"
       "getPreviousPeriod ascii_env (iso_date 2025 12 1) (iso_date 2025 12 10) = Inr p"
       "Date_parse ascii_env (prev_startDate p) = Some PS"
       "Date_parse ascii_env (prev_endDate p) = Some PE"
       "PE = S - 86400000" "PE - PS = E - S"
    using getPreviousPeriod_window[OF v(1) _ _ v(2), of ascii_env] by auto
  have p: "p = \<lparr>prev_startDate = ''2025-11-21'', prev_endDate = ''2025-11-30''\<rparr>"
    using h(3) e(1) by (simp add: i)
  have "S = 1764547200000" "E = 1765324800000" using h(1,2) e(2,3) by (simp_all add: i)
  then have "PE = 1764460800000" "PS = 1763683200000" using h(6,7) by simp_all
  then show ?thesis using v e h(4,5) p by simp
qed

section \<open>The product-daily operation: proofs\<close>

lemma MakeDay_shift: "MakeDay y m (d + k) = MakeDay y m d + k"
  by (simp add: MakeDay_def Let_def)

lemma setDate_back:
  assumes "0 \<le> now" "now \<le> 8640000000000000"
  shows "setDate now (DateFromTime now - 30) = Some (now - 30 * msPerDay)"
proof -
  have "MakeDay (YearFromTime now) (MonthFromTime now) (DateFromTime now + (- 30)) = Day now + (- 30)"
    unfolding MakeDay_shift by (simp add: civil_of_time(4))
  then have md: "MakeDay (YearFromTime now) (MonthFromTime now) (DateFromTime now - 30) = Day now - 30"
    by simp
  have "Day now * msPerDay + TimeWithinDay now = now"
    by (simp add: Day_def TimeWithinDay_def)
  then have "MakeDate (Day now - 30) (TimeWithinDay now) = now - 30 * msPerDay"
    by (simp add: MakeDate_def algebra_simps)
  then show ?thesis using assms
    by (simp add: setDate_def md TimeClip_def msPerDay_def)
qed

lemma toISOString_Some: "\<exists>s. toISOString (Some t) = Inr s"
  by (simp add: toISOString_def)

lemma default_window_ok:
  assumes "0 \<le> now" "now \<le> 8640000000000000"
  shows "\<exists>sd ed. default_window now = Inr (JStr sd, JStr ed)"
proof -
  obtain e where e: "toISOString (Some now) = Inr e" using toISOString_Some by blast
  obtain s where s: "toISOString (Some (now - 30 * msPerDay)) = Inr s" using toISOString_Some by blast
  show ?thesis
    by (simp add: default_window_def Let_def setDate_back[OF assms] e s)
qed

lemma getDateKey_JStr: "\<exists>k. getDateKey (JStr s) = Inr k \<and> (k = JNull \<or> (\<exists>n. k = JNum n))"
  by (simp add: getDateKey_def)

lemma d1_bind_all_keys:
  assumes "k1 = JNull \<or> (\<exists>n. k1 = JNum n)" "k2 = JNull \<or> (\<exists>n. k2 = JNum n)"
  shows "\<exists>vs. d1_bind_all [k1, k2] = Inr vs"
  using assms by auto

lemma product_daily_unknown_column:
  "unknown_column schema_sql product_daily_query = Some (''c'', ''channel'')"
  by code_simp

lemma breakdown_channel_columns:
  "unknown_column schema_sql breakdown_channel_query = None"
  by code_simp

lemma parseInt_params_get: "\<exists>n. parseInt env (params_get params k) = Inr n"
  by (simp add: parseInt_def params_get_def split: option.splits)

lemma params_window:
  assumes "0 \<le> now" "now \<le> 8640000000000000"
  shows "\<exists>sd ed.
     (if \<not> truthy (params_get params ''startDate'') \<or> \<not> truthy (params_get params ''endDate'')
      then default_window now
      else Inr (params_get params ''startDate'', params_get params ''endDate''))
     = Inr (JStr sd, JStr ed)"
proof (cases "\<not> truthy (params_get params ''startDate'') \<or> \<not> truthy (params_get params ''endDate'')")
  case True
  then show ?thesis using default_window_ok[OF assms] by simp
next
  case False
  then obtain a b where "params_get params ''startDate'' = JStr a" "params_get params ''endDate'' = JStr b"
    by (auto simp: params_get_def split: option.splits)
  with False show ?thesis by simp
qed

text \<open>
  C1. Whatever the parameters of the request, the product-daily operation returns no
  data: its query names the column \<open>c.channel\<close>, which \<^verbatim>\<open>dim_campaign\<close> does not have, so
  the store refuses the statement and the \<^verbatim>\<open>catch\<close> branch returns the error envelope
  with status 500. (The clock is taken to read a time from 1970 on that a Date can hold,
  so that the default window can be printed.)
\<close>

theorem getProductDaily_always_fails:
  assumes "0 \<le> now" "now \<le> 8640000000000000"
  shows "getProductDaily env engine now params =
           Inr (jsonResponse (JObj [(''error'', JStr ''D1_ERROR: no such column: c.channel'')]) 500)
       \<and> member (resp_body (jsonResponse (JObj [(''error'', JStr ''D1_ERROR: no such column: c.channel'')]) 500))
            ''success'' = Some (JBool False)"
proof -
  obtain sd ed where w:
    "(if \<not> truthy (params_get params ''startDate'') \<or> \<not> truthy (params_get params ''endDate'')
      then default_window now
      else Inr (params_get params ''startDate'', params_get params ''endDate''))
     = Inr (JStr sd, JStr ed)"
    using params_window[OF assms] by blast
  obtain k1 where k1: "getDateKey (JStr sd) = Inr k1" "k1 = JNull \<or> (\<exists>n. k1 = JNum n)"
    using getDateKey_JStr[of sd] by blast
  obtain k2 where k2: "getDateKey (JStr ed) = Inr k2" "k2 = JNull \<or> (\<exists>n. k2 = JNum n)"
    using getDateKey_JStr[of ed] by blast
  obtain vs where vs: "d1_bind_all [k1, k2] = Inr vs"
    using d1_bind_all_keys[OF k1(2) k2(2)] by blast
  obtain n where n: "parseInt env (params_get params ''limit'') = Inr n"
    using parseInt_params_get by blast
  have q: "d1_all engine product_daily_query [k1, k2]
             = Inl (D1Error ''D1_ERROR: no such column: c.channel'')"
    unfolding d1_all_def vs product_daily_unknown_column by simp
  have "getProductDaily env engine now params =
           Inr (jsonResponse (JObj [(''error'', JStr ''D1_ERROR: no such column: c.channel'')]) 500)"
    unfolding getProductDaily_def Let_def w by (simp add: n k1(1) k2(1) q)
  moreover have "member (resp_body (jsonResponse (JObj [(''error'', JStr ''D1_ERROR: no such column: c.channel'')]) 500))
            ''success'' = Some (JBool False)"
    by (simp add: jsonResponse_def member_def members_def)
  ultimately show ?thesis by simp
qed

theorem getProductDaily_always_fails_witness:
  "(0::int) \<le> 1762176645123 \<and> (1762176645123::int) \<le> 8640000000000000
   \<and> getProductDaily ascii_env (\<lambda>q vs. []) 1762176645123 [(''limit'', ''3'')] =
       Inr (jsonResponse (JObj [(''error'', JStr ''D1_ERROR: no such column: c.channel'')]) 500)
   \<and> getProductDaily ascii_env (\<lambda>q vs. []) 1762176645123
        [(''startDate'', ''2025-10-14''), (''endDate'', ''2025-12-21'')] =
       Inr (jsonResponse (JObj [(''error'', JStr ''D1_ERROR: no such column: c.channel'')]) 500)"
proof -
  have a: "(0::int) \<le> 1762176645123" "(1762176645123::int) \<le> 8640000000000000" by simp_all
  show ?thesis
    using a getProductDaily_always_fails[OF a, of ascii_env "\<lambda>q vs. []" "[(''limit'', ''3'')]"]
      getProductDaily_always_fails[OF a, of ascii_env "\<lambda>q vs. []"
        "[(''startDate'', ''2025-10-14''), (''endDate'', ''2025-12-21'')]"]
    by simp
qed

section \<open>The date dimension: proofs\<close>

lemma sql_int_of_int [simp]: "sql_int (SNum (of_int k)) = k"
  by (simp add: sql_int_def)

lemma iso_date_nonempty: "iso_date y m d \<noteq> []"
  by (simp add: iso_date_def)

lemma div_week: "(k * 86400000) div 604800000 = (k :: int) div 7"
proof -
  have "(86400000 * k) div (86400000 * 7) = k div 7"
    by (rule div_mult_mult1) simp
  then show ?thesis by (simp add: mult.commute)
qed

lemma MakeDay_jan1: "MakeDay y 0 1 = DayFromYear y"
  by (simp add: MakeDay_def Let_def month_start_def)

lemma getWeekOfYear_valid:
  assumes "valid_date y m d" "100 \<le> y" "y \<le> 9999"
  shows "getWeekOfYear (Some (MakeDay y (m - 1) d * msPerDay))
           = Some (- ((- (days_since_jan1 y m d + js_weekday y 1 1)) div 7))"
proof -
  let ?n = "MakeDay y (m - 1) d"
  have yr: "YearFromTime (?n * msPerDay) = y" by (rule civil_roundtrip(1)[OF assms(1)])
  have v1: "valid_date y 1 1" by (simp add: valid_date_def DaysInMonth_def)
  have r: "- 719528 \<le> MakeDay y (1 - 1) 1" "MakeDay y (1 - 1) 1 < 2932897"
    using MakeDay_range[OF v1] assms(2,3) by simp_all
  have start: "Date_ymd y 0 1 = Some (MakeDay y 0 1 * msPerDay)"
    using assms(2) r by (simp add: Date_ymd_def Let_def MakeDate_def TimeClip_def msPerDay_def)
  have wd: "WeekDay (MakeDay y 0 1 * msPerDay) = js_weekday y 1 1"
    by (simp add: WeekDay_def Day_of_midnight js_weekday_def)
  have "?n * msPerDay - MakeDay y 0 1 * msPerDay + js_weekday y 1 1 * 86400000
          = (days_since_jan1 y m d + js_weekday y 1 1) * 86400000"
    by (simp add: days_since_jan1_def msPerDay_def algebra_simps)
  then have "- (?n * msPerDay - MakeDay y 0 1 * msPerDay + js_weekday y 1 1 * 86400000)
          = (- (days_since_jan1 y m d + js_weekday y 1 1)) * 86400000"
    by simp
  then have "(- (?n * msPerDay - MakeDay y 0 1 * msPerDay + js_weekday y 1 1 * 86400000)) div 604800000
          = (- (days_since_jan1 y m d + js_weekday y 1 1)) div 7"
    by (simp only: div_week)
  then show ?thesis
    by (simp add: getWeekOfYear_def yr start wd Let_def)
qed


lemma js_weekday_range: "0 \<le> js_weekday y m d" "js_weekday y m d < 7"
  by (simp_all add: js_weekday_def)

lemma date_getters:
  assumes "valid_date y m d"
  shows "getFullYear (Some (MakeDay y (m - 1) d * msPerDay)) = Some y"
    and "getMonth (Some (MakeDay y (m - 1) d * msPerDay)) = Some (m - 1)"
    and "getDate (Some (MakeDay y (m - 1) d * msPerDay)) = Some d"
    and "getDay (Some (MakeDay y (m - 1) d * msPerDay)) = Some (js_weekday y m d)"
  using civil_roundtrip[OF assms]
  by (simp_all add: getFullYear_def getMonth_def getDate_def getDay_def WeekDay_def
        Day_of_midnight js_weekday_def)

lemma insert_date_row:
  assumes "\<forall>r \<in> set (dim_date db). d_date_key r \<noteq> \<lfloor>key\<rfloor>"
    and "\<forall>r \<in> set (dim_date db). d_full_date r \<noteq> s"
  shows "insert_date db
           [JNum (Fin key), JStr s, JNum (Fin yr), JNum (Fin q),
            JNum (Fin mo), JStr mn, JNum (Fin w), JNum (Fin dm),
            JNum (Fin dow), JStr dn, JNum (Fin we)]
         = Inr (db\<lparr>dim_date := dim_date db @
                  [\<lparr>d_date_key = \<lfloor>key\<rfloor>, d_full_date = s, d_year = \<lfloor>yr\<rfloor>, d_quarter = \<lfloor>q\<rfloor>,
                    d_month = \<lfloor>mo\<rfloor>, d_month_name = mn, d_week_of_year = \<lfloor>w\<rfloor>,
                    d_day_of_month = \<lfloor>dm\<rfloor>, d_day_of_week = \<lfloor>dow\<rfloor>, d_day_name = dn,
                    d_is_weekend = \<lfloor>we\<rfloor>\<rparr>]\<rparr>)"
  using assms by (simp add: insert_date_def Let_def sql_int_def)

text \<open>
  C6, as amended. For a valid calendar date of the years 100 to 9999 that the date dimension
  does not hold yet, \<^verbatim>\<open>getOrCreateDate\<close> returns the date key and appends exactly one row.
  Its week of the year is the days since January 1 \<^emph>\<open>plus the JavaScript weekday of
  January 1\<close>, divided by 7 and rounded up; its day of the week is the JavaScript day with
  Sunday turned from 0 into 7. The other calendar fields of the row are given as well.
  (Below year 100 \<^verbatim>\<open>new Date(year, 0, 1)\<close> in \<^verbatim>\<open>getWeekOfYear\<close> denotes a year of the
  twentieth century, so those years are left out.)
\<close>

theorem getOrCreateDate_calendar_fields:
  assumes v: "valid_date y m d" and y: "100 \<le> y" "y \<le> 9999"
    and k: "\<forall>r \<in> set (dim_date db). d_date_key r \<noteq> y * 10000 + m * 100 + d"
    and f: "\<forall>r \<in> set (dim_date db). d_full_date r \<noteq> iso_date y m d"
  shows "getOrCreateDate env db (JStr (iso_date y m d)) =
     (Inr (JNum (Fin (of_int (y * 10000 + m * 100 + d)))),
      db\<lparr>dim_date := dim_date db @
           [\<lparr>d_date_key = y * 10000 + m * 100 + d,
             d_full_date = iso_date y m d,
             d_year = y,
             d_quarter = - ((- m) div 3),
             d_month = m,
             d_month_name = monthNames ! nat (m - 1),
             d_week_of_year = - ((- (days_since_jan1 y m d + js_weekday y 1 1)) div 7),
             d_day_of_month = d,
             d_day_of_week = (if js_weekday y m d = 0 then 7 else js_weekday y m d),
             d_day_name = dayNames ! nat (js_weekday y m d),
             d_is_weekend = (if js_weekday y m d = 0 \<or> js_weekday y m d = 6 then 1 else 0)\<rparr>]\<rparr>)"
proof -
  define key where "key = y * 10000 + m * 100 + d"
  define s where "s = iso_date y m d"
  define t where "t = MakeDay y (m - 1) d * msPerDay"
  define wd where "wd = js_weekday y m d"
  define W where "W = - ((- (days_since_jan1 y m d + js_weekday y 1 1)) div 7)"
  from v have md: "1 \<le> m" "m \<le> 12" "1 \<le> d" "d \<le> 31"
    using DaysInMonth_le[of y m] by (simp_all add: valid_date_def)
  have y0: "0 \<le> y" using y by simp
  have ne: "s \<noteq> []" unfolding s_def by (rule iso_date_nonempty)
  have dp: "Date_parse env s = Some t"
    unfolding s_def t_def by (rule Date_parse_iso_date[OF v y0 y(2)])
  have pk: "parseInt_str (remove_all CHR ''-'' s) = Fin (of_int key)"
    unfolding s_def key_def using parseInt_iso_date[of y m d] y0 y(2) md by simp
  have k0: "\<forall>r \<in> set (dim_date db). d_date_key r \<noteq> key"
    using k by (simp add: key_def)
  have nf: "find (\<lambda>r. d_date_key r = key) (dim_date db) = None"
    using k0 by (simp add: find_None_iff_set)
  have g: "getFullYear (Some t) = Some y" "getMonth (Some t) = Some (m - 1)"
    "getDate (Some t) = Some d" "getDay (Some t) = Some wd"
    unfolding t_def wd_def by (rule date_getters[OF v])+
  have w: "getWeekOfYear (Some t) = Some W"
    unfolding t_def W_def by (rule getWeekOfYear_valid[OF v y])
  have wr: "0 \<le> wd" "wd < 7" unfolding wd_def by (rule js_weekday_range)+
  have mn: "name_at monthNames (Some (m - 1)) = JStr (monthNames ! nat (m - 1))"
    using md by (simp add: name_at_def monthNames_def)
  have dn: "name_at dayNames (Some k) = JStr (dayNames ! nat k)" if "0 \<le> k" "k < 7" for k
    using that by (simp add: name_at_def dayNames_def)
  have k': "\<forall>r \<in> set (dim_date db). d_date_key r \<noteq> \<lfloor>rat_of_int key\<rfloor>"
    using k0 by simp
  have f': "\<forall>r \<in> set (dim_date db). d_full_date r \<noteq> s"
    using f by (simp add: s_def)
  note ins = insert_date_row[OF k' f']
  have "getOrCreateDate env db (JStr s) =
     (Inr (JNum (Fin (of_int key))),
      db\<lparr>dim_date := dim_date db @
           [\<lparr>d_date_key = key, d_full_date = s, d_year = y, d_quarter = - ((- m) div 3),
             d_month = m, d_month_name = monthNames ! nat (m - 1), d_week_of_year = W,
             d_day_of_month = d, d_day_of_week = (if wd = 0 then 7 else wd),
             d_day_name = dayNames ! nat wd,
             d_is_weekend = (if wd = 0 \<or> wd = 6 then 1 else 0)\<rparr>]\<rparr>)"
  proof (cases "wd = 0")
    case True
    then show ?thesis
      by (simp add: getOrCreateDate_def Let_def ne dp pk nf g w mn dn wr num_of_def ins)
  next
    case False
    then show ?thesis
      by (cases "wd = 6")
         (simp_all add: getOrCreateDate_def Let_def ne dp pk nf g w mn dn wr num_of_def ins)
  qed
  then show ?thesis by (simp add: key_def s_def wd_def W_def)
qed

text \<open>
  C6 as stated fails: 2025-10-13 lies 285 days after January 1, and 285 / 7 rounded up is
  41, but the row stored for it has week 42, because January 1 of 2025 is a Wednesday and
  the code adds its weekday, 3, to the days before dividing.
\<close>

theorem getOrCreateDate_week_counterexample:
  "valid_date 2025 10 13
   \<and> map d_week_of_year
        (dim_date (snd (getOrCreateDate ascii_env empty_store (JStr ''2025-10-13'')))) = [42]
   \<and> days_since_jan1 2025 10 13 = 285
   \<and> spec_week_of_year 2025 10 13 = 41"
  by code_simp

text \<open>
  The theorem at 2025-10-14, a Tuesday, in the empty store: week 42, day of the week 2.
\<close>

theorem getOrCreateDate_calendar_fields_witness:
  "valid_date 2025 10 14
   \<and> dim_date empty_store = []
   \<and> iso_date 2025 10 14 = ''2025-10-14''
   \<and> days_since_jan1 2025 10 14 = 286
   \<and> js_weekday 2025 1 1 = 3
   \<and> js_weekday 2025 10 14 = 2
   \<and> map d_week_of_year (dim_date (snd (getOrCreateDate ascii_env empty_store (JStr ''2025-10-14'')))) = [42]
   \<and> map d_day_of_week (dim_date (snd (getOrCreateDate ascii_env empty_store (JStr ''2025-10-14'')))) = [2]"
proof -
  have v: "valid_date 2025 10 14" by code_simp
  have e: "dim_date empty_store = []" by (simp add: empty_store_def)
  have i: "iso_date 2025 10 14 = ''2025-10-14''" by code_simp
  have c: "days_since_jan1 2025 10 14 = 286" "js_weekday 2025 1 1 = 3" "js_weekday 2025 10 14 = 2"
    by code_simp+
  have k: "\<forall>r \<in> set (dim_date empty_store). d_date_key r \<noteq> 2025 * 10000 + 10 * 100 + 14"
    by (simp add: e)
  have f: "\<forall>r \<in> set (dim_date empty_store). d_full_date r \<noteq> iso_date 2025 10 14"
    by (simp add: e)
  note t = getOrCreateDate_calendar_fields[OF v _ _ k f, of ascii_env]
  show ?thesis using v e i c t by (simp add: i)
qed

end
